theory Spec2Isabelle
  imports Main "HOL-Library.Char_ord" "HOL-Library.List_Lexorder" "HOL-Library.Multiset"
begin

section \<open>Release synthesis for the Terraform plugin protocol stubs (generate.go)\<close>

text \<open>
  The development embeds the three functions of \<^verbatim>\<open>generate.go\<close> that carry the
  behaviour of the generator: \<^verbatim>\<open>readProtoVersionBlobRefs\<close> (discovery of protocol
  versions in an upstream tree), \<^verbatim>\<open>slurpDirIntoGitTree\<close> (conversion of a staged
  directory into git blob and tree objects) and \<^verbatim>\<open>createStableTags\<close> (one commit
  and one tag per protocol version that has no tag yet).

  The git library, the operating system and the external tools are collaborators.
  Their results are inputs of the model: an environment record says which external
  operation fails and what the tools write, and a repository is an explicit state
  that the functions return updated. The function \<^verbatim>\<open>main\<close>, which fetches the
  upstream repository and chooses the commits to read, the lines written to the log
  and the removal of the temporary directories when \<^verbatim>\<open>createStableTags\<close> returns
  have no part in the properties below and are left out.
\<close>

subsection \<open>Strings\<close>

type_synonym bytes = string

definition HasPrefix :: "string \<Rightarrow> string \<Rightarrow> bool" where
  "HasPrefix s p = (take (length p) s = p)"

definition HasSuffix :: "string \<Rightarrow> string \<Rightarrow> bool" where
  "HasSuffix s p = (length p \<le> length s \<and> drop (length s - length p) s = p)"

text \<open>
  The slice expression \<^verbatim>\<open>s[lo:hi]\<close> of Go on a string. Go panics when the bounds
  are not ordered or leave the string; the model returns \<open>None\<close> there.
\<close>

definition slice :: "string \<Rightarrow> int \<Rightarrow> int \<Rightarrow> string option" where
  "slice s lo hi =
     (if 0 \<le> lo \<and> lo \<le> hi \<and> hi \<le> int (length s)
      then Some (take (nat (hi - lo)) (drop (nat lo) s)) else None)"

text \<open>\<^verbatim>\<open>strings.Split(s, sep)\<close> for a separator of one byte.\<close>

fun Split :: "string \<Rightarrow> char \<Rightarrow> string list" where
  "Split [] sep = [[]]"
| "Split (c # cs) sep =
     (if c = sep then [] # Split cs sep
      else (case Split cs sep of [] \<Rightarrow> [[c]] | p # ps \<Rightarrow> (c # p) # ps))"

text \<open>\<^verbatim>\<open>filepath.Join\<close> of a directory and one clean element.\<close>

definition Join :: "string \<Rightarrow> string \<Rightarrow> string" where
  "Join dir name = dir @ ''/'' @ name"

text \<open>
  \<^verbatim>\<open>strings.TrimSpace\<close>: the white space at both ends of the string is cut. The white
  space is that of ASCII (tab, line feed, vertical tab, form feed, carriage return and
  space); the strings that the program hands to the function are ASCII.
\<close>

definition isSpace :: "char \<Rightarrow> bool" where
  "isSpace c = (c \<in> set [CHR 0x09, CHR 0x0A, CHR 0x0B, CHR 0x0C, CHR 0x0D, CHR 0x20])"

definition TrimSpace :: "string \<Rightarrow> string" where
  "TrimSpace s = rev (dropWhile isSpace (rev (dropWhile isSpace s)))"

text \<open>The verb \<^verbatim>\<open>%d\<close> of \<^verbatim>\<open>fmt.Sprintf\<close> on an unsigned integer: decimal digits.\<close>

definition digit_char :: "nat \<Rightarrow> char" where
  "digit_char d = ''0123456789'' ! d"

fun fmt_d :: "nat \<Rightarrow> string" where
  "fmt_d n = (if n < 10 then [digit_char n] else fmt_d (n div 10) @ [digit_char (n mod 10)])"

declare fmt_d.simps [simp del]

subsection \<open>Versions\<close>

text \<open>
  Modelled from the spec: the type \<^verbatim>\<open>versions.Version\<close> with its functions
  \<^verbatim>\<open>ParseVersion\<close>, \<^verbatim>\<open>String\<close> and its ordering belongs to the imported package
  \<^verbatim>\<open>go-versions\<close>, whose code is not part of the sources. The spec gives a version
  the three unsigned components major, minor and build, parses it from
  \<^verbatim>\<open><major>.<minor>\<close> (build 0) or \<^verbatim>\<open><major>.<minor>.<build>\<close>, rejects every other
  string, renders it as \<^verbatim>\<open><major>.<minor>.<build>\<close> and orders versions
  lexicographically on (major, minor, build). A component is a nonempty run of
  decimal digits; the width of the integers is not modelled.
\<close>

record version =
  Major :: nat
  Minor :: nat
  Build :: nat

definition is_digit :: "char \<Rightarrow> bool" where
  "is_digit c = (CHR ''0'' \<le> c \<and> c \<le> CHR ''9'')"

definition digit_val :: "char \<Rightarrow> nat" where
  "digit_val c = of_char c - 48"

definition parse_uint :: "string \<Rightarrow> nat option" where
  "parse_uint s =
     (if s \<noteq> [] \<and> list_all is_digit s
      then Some (foldl (\<lambda>a c. 10 * a + digit_val c) 0 s) else None)"

definition ParseVersion :: "string \<Rightarrow> version option" where
  "ParseVersion s =
     (case map parse_uint (Split s CHR ''.'') of
        [Some ma, Some mi] \<Rightarrow> Some \<lparr>Major = ma, Minor = mi, Build = 0\<rparr>
      | [Some ma, Some mi, Some b] \<Rightarrow> Some \<lparr>Major = ma, Minor = mi, Build = b\<rparr>
      | _ \<Rightarrow> None)"

definition version_String :: "version \<Rightarrow> string" where
  "version_String v = fmt_d (Major v) @ ''.'' @ fmt_d (Minor v) @ ''.'' @ fmt_d (Build v)"

definition LessThan :: "version \<Rightarrow> version \<Rightarrow> bool" where
  "LessThan a b =
     (Major a < Major b
      \<or> (Major a = Major b \<and> (Minor a < Minor b
      \<or> (Minor a = Minor b \<and> Build a < Build b))))"

subsection \<open>Git objects and repositories\<close>

text \<open>
  The file modes of go-git, and the classes of \<^verbatim>\<open>os.FileMode\<close> that
  \<^verbatim>\<open>filemode.NewFromOSFileMode\<close> tells apart for an entry that is not a directory:
  a regular file, a regular file its owner may execute, a symbolic link, and
  everything else (devices, pipes, sockets, temporary files), which has no git mode.
\<close>

datatype filemode = Empty | Dir | Regular | Deprecated | Executable | Symlink | Submodule

datatype filekind = Plain | UserExecutable | SymbolicLink | Special

definition NewFromOSFileMode :: "filekind \<Rightarrow> filemode option" where
  "NewFromOSFileMode k =
     (case k of Plain \<Rightarrow> Some Regular | UserExecutable \<Rightarrow> Some Executable
      | SymbolicLink \<Rightarrow> Some Symlink | Special \<Rightarrow> None)"

record signature =
  sig_Name :: string
  sig_Email :: string
  sig_When :: int

datatype objtype = CommitObject | TreeObject | BlobObject | TagObject

text \<open>
  Objects are content addressed. The hash of an object is idealised as free of
  collisions: \<open>HashOf obj\<close> stands for the SHA-1 of the encoding of \<open>obj\<close>, so two
  objects have the same hash exactly when they are equal. A tree entry and a commit
  refer to other objects by hash, as in git.
\<close>

datatype hash = ZeroHash | HashOf gitobj
and gitobj =
    Blob bytes
  | Tree "tree_entry list"
  | Commit (TreeHash: hash) (Author: signature) (Committer: signature) (Message: string)
  | Tag (tag_Name: string) (Tagger: signature) (tag_Message: string)
      (TargetType: objtype) (Target: hash)
and tree_entry = TreeEntry (Name: string) (Mode: filemode) (Hash: hash)

text \<open>
  A repository: the objects written to its store, oldest first, and its tag
  references \<^verbatim>\<open>refs/tags/<name>\<close>.
\<close>

record repository =
  objects :: "gitobj list"
  tags :: "string \<rightharpoonup> hash"

definition EncodedObject :: "repository \<Rightarrow> hash \<Rightarrow> gitobj option" where
  "EncodedObject repo h =
     (case h of ZeroHash \<Rightarrow> None
      | HashOf obj \<Rightarrow> if obj \<in> set (objects repo) then Some obj else None)"

definition object_Type :: "gitobj \<Rightarrow> objtype" where
  "object_Type obj =
     (case obj of Blob _ \<Rightarrow> BlobObject | Tree _ \<Rightarrow> TreeObject
      | Commit _ _ _ _ \<Rightarrow> CommitObject | Tag _ _ _ _ _ \<Rightarrow> TagObject)"

subsection \<open>The environment\<close>

text \<open>
  The staged directory as the operating system enumerates it: names with their
  nodes, in the order of the system call, which is not specified.
\<close>

datatype fsnode = File filekind bytes | Directory "(string \<times> fsnode) list"

type_synonym fsdir = "(string \<times> fsnode) list"

datatype command = GoModInit string | Protoc string | GoModTidy

text \<open>The external operations that can fail without the model knowing why.\<close>

datatype op =
    RefLookup string
  | Mkdir string
  | BlobReader hash
  | Create string
  | Copy string
  | ReadDir string
  | ObjWriter string
  | Open string
  | Close string
  | Encode gitobj
  | StoreObject gitobj
  | SetReference string

text \<open>
  \<open>fails\<close> injects the failures; \<open>TempDir\<close> is \<^verbatim>\<open>ioutil.TempDir\<close> (the path it
  creates, or a failure); \<open>Run\<close> is \<^verbatim>\<open>exec.Command(...).Run()\<close> in a directory
  (the staged directory as the tool leaves it, or a failure); \<open>Now\<close> is the reading
  of \<^verbatim>\<open>time.Now()\<close> while the given version is processed.
\<close>

record env =
  fails :: "op \<Rightarrow> bool"
  TempDir :: "string \<Rightarrow> string \<Rightarrow> string option"
  Run :: "command \<Rightarrow> string \<Rightarrow> fsdir \<Rightarrow> fsdir option"
  Now :: "version \<Rightarrow> int"

subsection \<open>Errors\<close>

datatype git_error = ErrTagExists | ErrMissingMessage | ErrObjectNotFound | ErrStorage

text \<open>One constructor for each error return of the source, with the values it formats.\<close>

datatype error =
    FailedReadCommit hash
  | FailedReadTree hash
  | FailedFindProtoDir hash
  | SliceBoundsPanic
  | CantCheckTag string
  | CantFindProtoBlob version
  | FailedCreateTempDir version
  | FailedCreatePackageDir string version
  | FailedInitModule version
  | FailedReadProtoBlob version
  | FailedCreateProtoFile string version
  | FailedWriteProtoFile string version
  | FailedCompileProto version
  | FailedLocateDeps version
  | FailedCreateTree version error
  | FailedCreateCommit version
  | FailedWriteCommit version
  | FailedWriteTag version git_error
  | FailedReadDir string
  | InvalidMode string
  | FailedBlobWriter string
  | FailedOpen string
  | FailedWriteBlobData string
  | FailedCloseBlob string
  | FailedWriteBlob string
  | FailedEncodeTree string
  | StorerError git_error

subsection \<open>Operations of the git library\<close>

text \<open>
  \<^verbatim>\<open>Storer.SetEncodedObject\<close>: the object is appended to the store and its hash
  returned, unless the store fails.
\<close>

definition SetEncodedObject :: "env \<Rightarrow> gitobj \<Rightarrow> repository \<Rightarrow> (git_error + hash) \<times> repository" where
  "SetEncodedObject E obj repo =
     (if fails E (StoreObject obj) then (Inl ErrStorage, repo)
      else (Inr (HashOf obj), repo\<lparr>objects := objects repo @ [obj]\<rparr>))"

text \<open>
  The lookup of \<^verbatim>\<open>refs/tags/<name>\<close>, with the three outcomes the source tells
  apart after \<^verbatim>\<open>ourRepo.Tag(tagName)\<close>: a reference, \<^verbatim>\<open>git.ErrTagNotFound\<close>, or any
  other error.
\<close>

datatype tag_result = TagFound hash | TagNotFound | TagLookupError

definition repo_Tag :: "env \<Rightarrow> repository \<Rightarrow> string \<Rightarrow> tag_result" where
  "repo_Tag E repo name =
     (if fails E (RefLookup name) then TagLookupError
      else (case tags repo name of None \<Rightarrow> TagNotFound | Some h \<Rightarrow> TagFound h))"

text \<open>
  \<^verbatim>\<open>Repository.CreateTag\<close> with options, which makes an annotated tag. The name must
  be free. \<^verbatim>\<open>CreateTagOptions.Validate\<close> refuses an empty message and puts every other
  message into the canonical form, the message without the white space at its ends and
  with one line feed after it; the tagger is never missing here. The target must be an object of the store; the tag object is
  written, and the reference is set to the hash of the tag object last.
\<close>

definition CreateTag ::
  "env \<Rightarrow> string \<Rightarrow> hash \<Rightarrow> signature \<Rightarrow> string \<Rightarrow> repository \<Rightarrow> (git_error + hash) \<times> repository" where
  "CreateTag E name target tagger msg repo =
     (case repo_Tag E repo name of
        TagFound _ \<Rightarrow> (Inl ErrTagExists, repo)
      | TagLookupError \<Rightarrow> (Inl ErrStorage, repo)
      | TagNotFound \<Rightarrow>
          if msg = [] then (Inl ErrMissingMessage, repo)
          else
          (let message = TrimSpace msg @ [CHR 0x0A]
           in case EncodedObject repo target of
             None \<Rightarrow> (Inl ErrObjectNotFound, repo)
           | Some rawobj \<Rightarrow>
               (let tag = Tag name tagger message (object_Type rawobj) target in
                if fails E (Encode tag) then (Inl ErrStorage, repo)
                else (case SetEncodedObject E tag repo of
                        (Inl e, repo1) \<Rightarrow> (Inl e, repo1)
                      | (Inr h, repo1) \<Rightarrow>
                          if fails E (SetReference name) then (Inl ErrStorage, repo1)
                          else (Inr h, repo1\<lparr>tags := (tags repo1)(name \<mapsto> h)\<rparr>)))))"

text \<open>
  \<^verbatim>\<open>Repository.CommitObject\<close>, \<^verbatim>\<open>Commit.Tree\<close>, \<^verbatim>\<open>Repository.BlobObject\<close> and
  \<^verbatim>\<open>Tree.Tree(path)\<close>, which walks the elements of a slash-separated path through
  nested trees.
\<close>

definition repo_CommitObject :: "repository \<Rightarrow> hash \<Rightarrow> gitobj option" where
  "repo_CommitObject repo h =
     (case EncodedObject repo h of Some (Commit t a c m) \<Rightarrow> Some (Commit t a c m) | _ \<Rightarrow> None)"

definition GetTree :: "repository \<Rightarrow> hash \<Rightarrow> tree_entry list option" where
  "GetTree repo h = (case EncodedObject repo h of Some (Tree es) \<Rightarrow> Some es | _ \<Rightarrow> None)"

definition repo_BlobObject :: "repository \<Rightarrow> hash \<Rightarrow> bytes option" where
  "repo_BlobObject repo h = (case EncodedObject repo h of Some (Blob b) \<Rightarrow> Some b | _ \<Rightarrow> None)"

fun tree_walk :: "repository \<Rightarrow> tree_entry list \<Rightarrow> string list \<Rightarrow> tree_entry list option" where
  "tree_walk repo es [] = Some es"
| "tree_walk repo es (p # ps) =
     (case find (\<lambda>e. Name e = p) es of
        None \<Rightarrow> None
      | Some e \<Rightarrow> (case GetTree repo (Hash e) of
                    None \<Rightarrow> None
                  | Some sub \<Rightarrow> tree_walk repo sub ps))"

definition tree_Tree :: "repository \<Rightarrow> tree_entry list \<Rightarrow> string \<Rightarrow> tree_entry list option" where
  "tree_Tree repo es path = tree_walk repo es (Split path CHR ''/'')"

subsection \<open>readProtoVersionBlobRefs\<close>

text \<open>
  The loop over \<^verbatim>\<open>protoTree.Entries\<close>. An entry whose name lacks the prefix or the
  suffix is passed over, and so is one whose middle part, with \<^verbatim>\<open>.0\<close> appended, is
  no version; every other entry is assigned to its version in the map, a later one
  replacing an earlier one.
\<close>

fun scanProtoEntries ::
  "tree_entry list \<Rightarrow> (version \<rightharpoonup> hash) \<Rightarrow> error + (version \<rightharpoonup> hash)" where
  "scanProtoEntries [] ret = Inr ret"
| "scanProtoEntries (entry # rest) ret =
     (let name = Name entry in
      if \<not> (HasPrefix name ''tfplugin'' \<and> HasSuffix name ''.proto'')
      then scanProtoEntries rest ret
      else (case slice name (int (length ''tfplugin''))
                   (int (length name) - int (length ''.proto'')) of
              None \<Rightarrow> Inl SliceBoundsPanic
            | Some mid \<Rightarrow>
                (case ParseVersion (mid @ ''.0'') of
                   None \<Rightarrow> scanProtoEntries rest ret
                 | Some v \<Rightarrow> scanProtoEntries rest (ret(v \<mapsto> Hash entry)))))"

definition readProtoVersionBlobRefs ::
  "repository \<Rightarrow> hash \<Rightarrow> error + (version \<rightharpoonup> hash)" where
  "readProtoVersionBlobRefs repo commitHash =
     (case repo_CommitObject repo commitHash of
        None \<Rightarrow> Inl (FailedReadCommit commitHash)
      | Some commit \<Rightarrow>
          (case GetTree repo (TreeHash commit) of
             None \<Rightarrow> Inl (FailedReadTree commitHash)
           | Some rootTree \<Rightarrow>
               (case tree_Tree repo rootTree ''docs/plugin-protocol'' of
                  None \<Rightarrow> Inl (FailedFindProtoDir commitHash)
                | Some protoTree \<Rightarrow> scanProtoEntries protoTree Map.empty)))"

subsection \<open>slurpDirIntoGitTree\<close>

text \<open>The number of nodes of a staged directory, the measure of the recursion.\<close>

fun fs_nodes :: "fsnode \<Rightarrow> nat" where
  "fs_nodes (File k b) = 1"
| "fs_nodes (Directory es) = Suc (sum_list (map (\<lambda>e. fs_nodes (snd e)) es))"

definition dir_nodes :: "fsdir \<Rightarrow> nat" where
  "dir_nodes es = sum_list (map (\<lambda>e. fs_nodes (snd e)) es)"

text \<open>
  \<^verbatim>\<open>ioutil.ReadDir\<close> returns the entries of the directory sorted by file name,
  whatever the order in which the system call enumerates them.
\<close>

definition ioutil_ReadDir :: "env \<Rightarrow> string \<Rightarrow> fsdir \<Rightarrow> fsdir option" where
  "ioutil_ReadDir E dir raw = (if fails E (ReadDir dir) then None else Some (sort_key fst raw))"

text \<open>
  The branch of the loop for an entry that is not a directory: the mode is
  translated, the content is copied into a new blob, and the blob is stored.
\<close>

definition slurpFile ::
  "env \<Rightarrow> string \<Rightarrow> string \<Rightarrow> filekind \<Rightarrow> bytes \<Rightarrow> repository \<Rightarrow> (error + tree_entry) \<times> repository" where
  "slurpFile E dir name k content repo =
     (case NewFromOSFileMode k of
        None \<Rightarrow> (Inl (InvalidMode name), repo)
      | Some mode \<Rightarrow>
          if fails E (ObjWriter (Join dir name)) then (Inl (FailedBlobWriter name), repo)
          else if fails E (Open (Join dir name)) then (Inl (FailedOpen name), repo)
          else if fails E (Copy (Join dir name)) then (Inl (FailedWriteBlobData name), repo)
          else if fails E (Close (Join dir name)) then (Inl (FailedCloseBlob name), repo)
          else (case SetEncodedObject E (Blob content) repo of
                  (Inl e, repo1) \<Rightarrow> (Inl (FailedWriteBlob name), repo1)
                | (Inr h, repo1) \<Rightarrow> (Inr (TreeEntry name mode h), repo1)))"

text \<open>
  The function with its loop over the sorted entries. Subdirectories are converted
  first, by the recursive call; the tree of the directory is stored last. Objects
  written before an error stay in the store.
\<close>

function (sequential) slurpDirIntoGitTree ::
    "env \<Rightarrow> string \<Rightarrow> fsdir \<Rightarrow> repository \<Rightarrow> (error + hash) \<times> repository"
  and slurpEntries ::
    "env \<Rightarrow> string \<Rightarrow> fsdir \<Rightarrow> tree_entry list \<Rightarrow> repository
       \<Rightarrow> (error + tree_entry list) \<times> repository"
where
  "slurpDirIntoGitTree E dir raw repo =
     (case ioutil_ReadDir E dir raw of
        None \<Rightarrow> (Inl (FailedReadDir dir), repo)
      | Some entries \<Rightarrow>
          (case slurpEntries E dir entries [] repo of
             (Inl e, repo1) \<Rightarrow> (Inl e, repo1)
           | (Inr tree, repo1) \<Rightarrow>
               if fails E (Encode (Tree tree)) then (Inl (FailedEncodeTree dir), repo1)
               else (case SetEncodedObject E (Tree tree) repo1 of
                       (Inl e, repo2) \<Rightarrow> (Inl (StorerError e), repo2)
                     | (Inr h, repo2) \<Rightarrow> (Inr h, repo2))))"
| "slurpEntries E dir [] tree repo = (Inr tree, repo)"
| "slurpEntries E dir ((name, Directory sub) # rest) tree repo =
     (case slurpDirIntoGitTree E (Join dir name) sub repo of
        (Inl e, repo1) \<Rightarrow> (Inl e, repo1)
      | (Inr h, repo1) \<Rightarrow> slurpEntries E dir rest (tree @ [TreeEntry name Dir h]) repo1)"
| "slurpEntries E dir ((name, File k content) # rest) tree repo =
     (case slurpFile E dir name k content repo of
        (Inl e, repo1) \<Rightarrow> (Inl e, repo1)
      | (Inr entry, repo1) \<Rightarrow> slurpEntries E dir rest (tree @ [entry]) repo1)"
  by pat_completeness auto

termination
proof (relation "measure (\<lambda>x. case x of
          Inl (E, dir, raw, repo) \<Rightarrow> Suc (2 * dir_nodes raw)
        | Inr (E, dir, es, tree, repo) \<Rightarrow> 2 * dir_nodes es)", goal_cases)
  case 1
  show ?case by simp
next
  case (2 E dir raw repo entries)
  then have "mset entries = mset raw"
    by (auto simp: ioutil_ReadDir_def split: if_splits)
  then have "mset (map (\<lambda>e. fs_nodes (snd e)) entries) = mset (map (\<lambda>e. fs_nodes (snd e)) raw)"
    by simp
  then have "sum_mset (mset (map (\<lambda>e. fs_nodes (snd e)) entries))
      = sum_mset (mset (map (\<lambda>e. fs_nodes (snd e)) raw))"
    by (rule arg_cong)
  then have "dir_nodes entries = dir_nodes raw"
    unfolding dir_nodes_def sum_mset_sum_list .
  then show ?case by simp
next
  case 3
  show ?case by (simp add: dir_nodes_def)
next
  case 4
  show ?case by (simp add: dir_nodes_def)
next
  case 5
  show ?case by (simp add: dir_nodes_def)
qed


subsection \<open>createStableTags\<close>

text \<open>
  The staged directory is a value of the model. \<open>write_file\<close> is the effect of
  \<^verbatim>\<open>os.Create\<close> followed by \<^verbatim>\<open>io.Copy\<close> on a file of the package directory; it
  fails when the package directory is missing or the name is taken by a directory.
\<close>

fun put_entry :: "fsdir \<Rightarrow> string \<Rightarrow> fsnode \<Rightarrow> fsdir" where
  "put_entry [] n node = [(n, node)]"
| "put_entry ((m, x) # rest) n node =
     (if m = n then (m, node) # rest else (m, x) # put_entry rest n node)"

definition write_file :: "fsdir \<Rightarrow> string \<Rightarrow> string \<Rightarrow> bytes \<Rightarrow> fsdir option" where
  "write_file fs d f content =
     (case map_of fs d of
        Some (Directory sub) \<Rightarrow>
          (case map_of sub f of
             None \<Rightarrow> Some (put_entry fs d (Directory (put_entry sub f (File Plain content))))
           | Some (File k old) \<Rightarrow> Some (put_entry fs d (Directory (put_entry sub f (File k content))))
           | Some (Directory x) \<Rightarrow> None)
      | _ \<Rightarrow> None)"

text \<open>
  The part of the loop body between the check of the tag and the call of
  \<^verbatim>\<open>slurpDirIntoGitTree\<close>: the blob is read from the upstream repository, the
  temporary directory is made, and the three tools are run in it. Every step can
  fail, and each failure is an error return of its own. The target repository is not
  touched.
\<close>

definition stageRelease ::
  "env \<Rightarrow> repository \<Rightarrow> version \<Rightarrow> hash \<Rightarrow> error + (string \<times> fsdir)" where
  "stageRelease E tfRepo v blobHash =
     (case repo_BlobObject tfRepo blobHash of
        None \<Rightarrow> Inl (CantFindProtoBlob v)
      | Some blob \<Rightarrow>
     (let modulePath = ''github.com/apparentlymart/terraform-plugin-proto-go/v'' @ fmt_d (Major v);
          packageDirName = ''tfplugin'' @ fmt_d (Major v);
          protoFileName = ''tfplugin'' @ fmt_d (Major v) @ ''.proto''
      in case TempDir E ''work.git'' (''build-'' @ version_String v) of
        None \<Rightarrow> Inl (FailedCreateTempDir v)
      | Some tmpDir \<Rightarrow>
     (let packageDirPath = Join tmpDir packageDirName
      in if fails E (Mkdir packageDirPath) then Inl (FailedCreatePackageDir packageDirName v)
      else (case Run E (GoModInit modulePath) tmpDir [(packageDirName, Directory [])] of
        None \<Rightarrow> Inl (FailedInitModule v)
      | Some fs1 \<Rightarrow>
      if fails E (BlobReader blobHash) then Inl (FailedReadProtoBlob v)
      else if fails E (Create (Join packageDirPath protoFileName))
        then Inl (FailedCreateProtoFile protoFileName v)
      else (case write_file fs1 packageDirName protoFileName blob of
        None \<Rightarrow> Inl (FailedCreateProtoFile protoFileName v)
      | Some fs2 \<Rightarrow>
      if fails E (Copy (Join packageDirPath protoFileName))
        then Inl (FailedWriteProtoFile protoFileName v)
      else (case Run E (Protoc protoFileName) packageDirPath fs2 of
        None \<Rightarrow> Inl (FailedCompileProto v)
      | Some fs3 \<Rightarrow>
      (case Run E GoModTidy tmpDir fs3 of
        None \<Rightarrow> Inl (FailedLocateDeps v)
      | Some fs4 \<Rightarrow> Inr (tmpDir, fs4))))))))"

text \<open>The message of the commit, which is also handed to \<^verbatim>\<open>CreateTag\<close> for the tag.\<close>

definition commitMessage :: "version \<Rightarrow> string" where
  "commitMessage v =
     ''Auto-generated Go module for Terraform plugin protocol v''
       @ fmt_d (Major v) @ ''.'' @ fmt_d (Minor v)"

text \<open>
  The rest of the loop body: the tree is built and stored, then the commit, then the
  tag, whose author and time are those of the commit.
\<close>

definition publishRelease ::
  "env \<Rightarrow> version \<Rightarrow> string \<Rightarrow> string \<Rightarrow> fsdir \<Rightarrow> repository \<Rightarrow> (error + unit) \<times> repository" where
  "publishRelease E v tagName tmpDir staged ourRepo =
     (case slurpDirIntoGitTree E tmpDir staged ourRepo of
        (Inl e, our1) \<Rightarrow> (Inl (FailedCreateTree v e), our1)
      | (Inr treeHash, our1) \<Rightarrow>
          (let author = \<lparr>sig_Name = ''The Terraform Team'',
                         sig_Email = ''noreply@hashicorp.com'',
                         sig_When = Now E v\<rparr>;
               commit = Commit treeHash author author (commitMessage v)
           in if fails E (Encode commit) then (Inl (FailedCreateCommit v), our1)
              else (case SetEncodedObject E commit our1 of
                      (Inl e, our2) \<Rightarrow> (Inl (FailedWriteCommit v), our2)
                    | (Inr commitHash, our2) \<Rightarrow>
                        (case CreateTag E tagName commitHash (Author commit) (Message commit) our2 of
                           (Inl e, our3) \<Rightarrow> (Inl (FailedWriteTag v e), our3)
                         | (Inr tagRef, our3) \<Rightarrow> (Inr (), our3)))))"

text \<open>
  The loop of \<^verbatim>\<open>createStableTags\<close>. Go visits the entries of the map \<^verbatim>\<open>blobs\<close> in
  an order it does not specify; the list is the sequence of entries as one run visits
  them. An error ends the run at once.
\<close>

fun createStableTags ::
  "env \<Rightarrow> repository \<Rightarrow> (version \<times> hash) list \<Rightarrow> repository \<Rightarrow> (error + unit) \<times> repository" where
  "createStableTags E tfRepo [] ourRepo = (Inr (), ourRepo)"
| "createStableTags E tfRepo ((v, blobHash) # rest) ourRepo =
     (let tagName = ''v'' @ version_String v
      in case repo_Tag E ourRepo tagName of
           TagFound ref \<Rightarrow> createStableTags E tfRepo rest ourRepo
         | TagLookupError \<Rightarrow> (Inl (CantCheckTag tagName), ourRepo)
         | TagNotFound \<Rightarrow>
             (case stageRelease E tfRepo v blobHash of
                Inl e \<Rightarrow> (Inl e, ourRepo)
              | Inr (tmpDir, staged) \<Rightarrow>
                  (case publishRelease E v tagName tmpDir staged ourRepo of
                     (Inl e, our1) \<Rightarrow> (Inl e, our1)
                   | (Inr u, our1) \<Rightarrow> createStableTags E tfRepo rest our1)))"

subsection \<open>Notions used in the statements\<close>

text \<open>The objects that \<^verbatim>\<open>slurpDirIntoGitTree\<close> writes are blobs and trees.\<close>

definition blob_or_tree :: "gitobj \<Rightarrow> bool" where
  "blob_or_tree obj = (case obj of Blob b \<Rightarrow> True | Tree es \<Rightarrow> True | _ \<Rightarrow> False)"

text \<open>The signature that the source gives to the author, the committer and the tagger.\<close>

definition release_author :: "env \<Rightarrow> version \<Rightarrow> signature" where
  "release_author E v = \<lparr>sig_Name = ''The Terraform Team'',
                         sig_Email = ''noreply@hashicorp.com'',
                         sig_When = Now E v\<rparr>"

text \<open>
  The commit and the annotated tag of a version over a tree. The message of the tag is
  the message of the commit in the canonical form of the git library, which ends it
  with a line feed.
\<close>

definition release_commit :: "env \<Rightarrow> version \<Rightarrow> hash \<Rightarrow> gitobj" where
  "release_commit E v treeHash =
     Commit treeHash (release_author E v) (release_author E v) (commitMessage v)"

definition release_tag :: "env \<Rightarrow> version \<Rightarrow> string \<Rightarrow> hash \<Rightarrow> gitobj" where
  "release_tag E v tagName treeHash =
     Tag tagName (release_author E v) (commitMessage v @ [CHR 0x0A]) CommitObject
       (HashOf (release_commit E v treeHash))"

text \<open>
  The objects that a run over the entries \<open>blobs\<close> may write: blobs and trees, and for
  an entry of the catalog a commit and its tag.
\<close>

definition run_object :: "env \<Rightarrow> (version \<times> hash) list \<Rightarrow> gitobj \<Rightarrow> bool" where
  "run_object E blobs obj =
     (blob_or_tree obj \<or>
      (\<exists>(v, h) \<in> set blobs. \<exists>t.
          obj = release_commit E v t \<or> obj = release_tag E v (''v'' @ version_String v) t))"

definition commit_messages :: "gitobj list \<Rightarrow> string list" where
  "commit_messages objs =
     concat (map (\<lambda>obj. case obj of Commit t a c m \<Rightarrow> [m] | _ \<Rightarrow> []) objs)"

definition tag_messages :: "gitobj list \<Rightarrow> string list" where
  "tag_messages objs =
     concat (map (\<lambda>obj. case obj of Tag n a m ty h \<Rightarrow> [m] | _ \<Rightarrow> []) objs)"

text \<open>
  Two enumerations of the same directory content: the same names, once each, and under
  each name the same file, or a directory of which the two enumerate the same content
  again. The order of the entries is free at every level.
\<close>

inductive same_node :: "fsnode \<Rightarrow> fsnode \<Rightarrow> bool"
  and same_dir :: "fsdir \<Rightarrow> fsdir \<Rightarrow> bool" where
  same_file: "same_node (File k b) (File k b)"
| same_subdir: "same_dir es es' \<Longrightarrow> same_node (Directory es) (Directory es')"
| same_entries:
    "\<lbrakk>distinct (map fst es); distinct (map fst es'); fst ` set es = fst ` set es';
      \<forall>(n, x) \<in> set es. \<forall>(n', x') \<in> set es'. n = n' \<longrightarrow> same_node x x'\<rbrakk>
     \<Longrightarrow> same_dir es es'"

text \<open>
  The order of the writes. An object may be written once the objects it refers to are
  in the store: a commit after its tree, a tag object after its target. A list of
  writes is ordered when each of them may be written after those before it.
\<close>

definition refs_stored :: "gitobj list \<Rightarrow> gitobj \<Rightarrow> bool" where
  "refs_stored store obj =
     (case obj of
        Commit t a c m \<Rightarrow> (\<exists>tree \<in> set store. t = HashOf tree)
      | Tag n a m ty target \<Rightarrow> (\<exists>c \<in> set store. target = HashOf c)
      | _ \<Rightarrow> True)"

fun writes_ordered :: "gitobj list \<Rightarrow> gitobj list \<Rightarrow> bool" where
  "writes_ordered store [] = True"
| "writes_ordered store (obj # rest) =
     (refs_stored store obj \<and> writes_ordered (store @ [obj]) rest)"

text \<open>
  A tag reference resolves when it points at a stored object and, if that is a tag
  object, its target is stored, with its tree if the target is a commit. A repository
  is sound when all its tag references resolve.
\<close>

definition tag_resolves :: "repository \<Rightarrow> hash \<Rightarrow> bool" where
  "tag_resolves repo h =
     (\<exists>g \<in> set (objects repo). h = HashOf g \<and>
        (case g of
           Tag n a m ty target \<Rightarrow>
             (\<exists>c \<in> set (objects repo). target = HashOf c \<and>
                (case c of
                   Commit t a' c' m' \<Rightarrow> (\<exists>tree \<in> set (objects repo). t = HashOf tree)
                 | _ \<Rightarrow> True))
         | _ \<Rightarrow> True))"

definition tags_sound :: "repository \<Rightarrow> bool" where
  "tags_sound repo = (\<forall>name h. tags repo name = Some h \<longrightarrow> tag_resolves repo h)"

text \<open>
  What a run leaves behind: the objects it wrote, in an order in which each could be
  written, and tag references that are either the old ones or resolve.
\<close>

definition run_safe :: "repository \<Rightarrow> repository \<Rightarrow> bool" where
  "run_safe before after =
     (\<exists>new. objects after = objects before @ new \<and> writes_ordered (objects before) new \<and>
        (\<forall>name h. tags after name = Some h \<longrightarrow>
            tags before name = Some h \<or> tag_resolves after h))"

text \<open>
  The version that the loop of \<open>scanProtoEntries\<close> assigns to an entry name, and the
  pattern of the specification, a name \<^verbatim>\<open>tfplugin<digits>.proto\<close>.
\<close>

definition entry_version :: "string \<Rightarrow> version option" where
  "entry_version name =
     (if HasPrefix name ''tfplugin'' \<and> HasSuffix name ''.proto''
      then ParseVersion (take (length name - 14) (drop 8 name) @ ''.0'') else None)"

definition matches_tfplugin_digits :: "string \<Rightarrow> bool" where
  "matches_tfplugin_digits name =
     (HasPrefix name ''tfplugin'' \<and> HasSuffix name ''.proto''
      \<and> take (length name - 14) (drop 8 name) \<noteq> []
      \<and> list_all is_digit (take (length name - 14) (drop 8 name)))"

subsection \<open>Example inputs\<close>

text \<open>
  An environment in which nothing fails, except the schema compiler when it runs in
  the directory \<open>bad\<close>; the tools add a module file, a generated source file and a
  checksum file. The clock reads \<open>t\<close>.
\<close>

definition demo_tools :: "string \<Rightarrow> command \<Rightarrow> string \<Rightarrow> fsdir \<Rightarrow> fsdir option" where
  "demo_tools bad c dir fs =
     (case c of
        GoModInit m \<Rightarrow> Some (fs @ [(''go.mod'', File Plain (''module '' @ m))])
      | Protoc f \<Rightarrow> if dir = bad then None
                    else Some (fs @ [(''generated.pb.go'', File Plain (''// from '' @ f))])
      | GoModTidy \<Rightarrow> Some ((''go.sum'', File Plain ''sums'') # fs))"

definition demo_env :: "int \<Rightarrow> string \<Rightarrow> env" where
  "demo_env t bad = \<lparr>fails = (\<lambda>x. False), TempDir = (\<lambda>d p. Some (Join d p)),
                      Run = demo_tools bad, Now = (\<lambda>v. t)\<rparr>"

definition demo_upstream :: repository where
  "demo_upstream =
     \<lparr>objects = [Blob ''proto 5.0'', Blob ''proto 5.1'', Blob ''proto 5.2''], tags = Map.empty\<rparr>"

definition empty_repo :: repository where
  "empty_repo = \<lparr>objects = [], tags = Map.empty\<rparr>"

definition v5_0 :: version where "v5_0 = \<lparr>Major = 5, Minor = 0, Build = 0\<rparr>"

definition v5_1 :: version where "v5_1 = \<lparr>Major = 5, Minor = 1, Build = 0\<rparr>"

definition v5_2 :: version where "v5_2 = \<lparr>Major = 5, Minor = 2, Build = 0\<rparr>"

text \<open>
  The directory that these tools stage for a protocol file with the content \<open>b\<close> of
  major version 5, in the order of enumeration, and the objects of its release.
\<close>

definition demo_staged :: "bytes \<Rightarrow> fsdir" where
  "demo_staged b =
     [(''go.sum'', File Plain ''sums''),
      (''tfplugin5'', Directory [(''tfplugin5.proto'', File Plain b)]),
      (''go.mod'', File Plain ''module github.com/apparentlymart/terraform-plugin-proto-go/v5''),
      (''generated.pb.go'', File Plain ''// from tfplugin5.proto'')]"

definition demo_package :: "bytes \<Rightarrow> gitobj" where
  "demo_package b = Tree [TreeEntry ''tfplugin5.proto'' Regular (HashOf (Blob b))]"

definition demo_root :: "bytes \<Rightarrow> gitobj" where
  "demo_root b =
     Tree [TreeEntry ''generated.pb.go'' Regular (HashOf (Blob ''// from tfplugin5.proto'')),
           TreeEntry ''go.mod'' Regular
             (HashOf (Blob ''module github.com/apparentlymart/terraform-plugin-proto-go/v5'')),
           TreeEntry ''go.sum'' Regular (HashOf (Blob ''sums'')),
           TreeEntry ''tfplugin5'' Dir (HashOf (demo_package b))]"

definition demo_commit :: "int \<Rightarrow> version \<Rightarrow> bytes \<Rightarrow> gitobj" where
  "demo_commit t v b =
     Commit (HashOf (demo_root b))
       \<lparr>sig_Name = ''The Terraform Team'', sig_Email = ''noreply@hashicorp.com'', sig_When = t\<rparr>
       \<lparr>sig_Name = ''The Terraform Team'', sig_Email = ''noreply@hashicorp.com'', sig_When = t\<rparr>
       (''Auto-generated Go module for Terraform plugin protocol v''
          @ fmt_d (Major v) @ ''.'' @ fmt_d (Minor v))"

definition demo_tag :: "int \<Rightarrow> version \<Rightarrow> bytes \<Rightarrow> gitobj" where
  "demo_tag t v b =
     Tag (''v'' @ version_String v)
       \<lparr>sig_Name = ''The Terraform Team'', sig_Email = ''noreply@hashicorp.com'', sig_When = t\<rparr>
       (''Auto-generated Go module for Terraform plugin protocol v''
          @ fmt_d (Major v) @ ''.'' @ fmt_d (Minor v) @ [CHR 0x0A])
       CommitObject (HashOf (demo_commit t v b))"

definition demo_release :: "int \<Rightarrow> version \<Rightarrow> bytes \<Rightarrow> gitobj list" where
  "demo_release t v b =
     [Blob ''// from tfplugin5.proto'',
      Blob ''module github.com/apparentlymart/terraform-plugin-proto-go/v5'',
      Blob ''sums'', Blob b, demo_package b, demo_root b, demo_commit t v b, demo_tag t v b]"

text \<open>
  A target repository that holds the release of version 5.0 made at time 1, and an
  environment in which the lookup of the tag of version 5.0 fails.
\<close>

definition demo_released_5_0 :: repository where
  "demo_released_5_0 =
     \<lparr>objects = demo_release 1 v5_0 ''proto 5.0'',
      tags = [''v5.0.0'' \<mapsto> HashOf (demo_tag 1 v5_0 ''proto 5.0'')]\<rparr>"

definition demo_lookup_failure :: env where
  "demo_lookup_failure = (demo_env 1000 [])\<lparr>fails := (\<lambda>x. x = RefLookup ''v5.0.0'')\<rparr>"

text \<open>A directory with a subdirectory, and another enumeration of it.\<close>

definition demo_listing :: fsdir where
  "demo_listing =
     [(''go.mod'', File Plain ''module m''),
      (''pkg'', Directory [(''a.proto'', File Plain ''syntax''), (''a.pb.go'', File Plain ''package'')]),
      (''build.sh'', File UserExecutable ''#!/bin/sh'')]"

definition demo_listing_shuffled :: fsdir where
  "demo_listing_shuffled =
     [(''build.sh'', File UserExecutable ''#!/bin/sh''),
      (''pkg'', Directory [(''a.pb.go'', File Plain ''package''), (''a.proto'', File Plain ''syntax'')]),
      (''go.mod'', File Plain ''module m'')]"

definition demo_listing_tree :: gitobj where
  "demo_listing_tree =
     Tree [TreeEntry ''build.sh'' Executable (HashOf (Blob ''#!/bin/sh'')),
           TreeEntry ''go.mod'' Regular (HashOf (Blob ''module m'')),
           TreeEntry ''pkg'' Dir
             (HashOf (Tree [TreeEntry ''a.pb.go'' Regular (HashOf (Blob ''package'')),
                            TreeEntry ''a.proto'' Regular (HashOf (Blob ''syntax''))]))]"

text \<open>
  An upstream repository with one commit, whose tree holds the directory
  \<^verbatim>\<open>docs/plugin-protocol\<close> with the given entries.
\<close>

definition source_commit :: "tree_entry list \<Rightarrow> gitobj" where
  "source_commit es =
     Commit (HashOf (Tree [TreeEntry ''docs'' Dir
                (HashOf (Tree [TreeEntry ''plugin-protocol'' Dir (HashOf (Tree es))]))]))
       \<lparr>sig_Name = ''A'', sig_Email = ''a@example.com'', sig_When = 0\<rparr>
       \<lparr>sig_Name = ''A'', sig_Email = ''a@example.com'', sig_When = 0\<rparr> ''release''"

definition source_repo :: "tree_entry list \<Rightarrow> repository" where
  "source_repo es =
     \<lparr>objects =
        [Tree es,
         Tree [TreeEntry ''plugin-protocol'' Dir (HashOf (Tree es))],
         Tree [TreeEntry ''docs'' Dir
                (HashOf (Tree [TreeEntry ''plugin-protocol'' Dir (HashOf (Tree es))]))],
         source_commit es],
      tags = Map.empty\<rparr>"

definition demo_protocol_dir :: "tree_entry list" where
  "demo_protocol_dir =
     [TreeEntry ''README.md'' Regular (HashOf (Blob ''readme'')),
      TreeEntry ''tfplugin.proto'' Regular (HashOf (Blob ''no version'')),
      TreeEntry ''tfplugin5.proto'' Regular (HashOf (Blob ''proto 5''))]"


subsection \<open>Decimal numbers, versions and messages\<close>

lemma digit_char_digit:
  assumes "d < 10"
  shows "is_digit (digit_char d) \<and> digit_val (digit_char d) = d"
proof -
  from assms consider "d = 0" | "d = 1" | "d = 2" | "d = 3" | "d = 4" | "d = 5" | "d = 6"
    | "d = 7" | "d = 8" | "d = 9" by atomize_elim arith
  then show ?thesis by cases (simp_all add: digit_char_def is_digit_def digit_val_def)
qed

lemma fmt_d_digits: "fmt_d n \<noteq> [] \<and> list_all is_digit (fmt_d n)"
proof (induction n rule: fmt_d.induct)
  case (1 n)
  show ?case
  proof (cases "n < 10")
    case True
    then show ?thesis by (simp add: fmt_d.simps[of n] digit_char_digit)
  next
    case False
    with 1 show ?thesis by (simp add: fmt_d.simps[of n] digit_char_digit)
  qed
qed

lemma fmt_d_last: "last (fmt_d n) = digit_char (n mod 10)"
  by (cases "n < 10") (simp_all add: fmt_d.simps[of n])

text \<open>A number is read back from its decimal digits.\<close>

lemma fmt_d_value: "foldl (\<lambda>a c. 10 * a + digit_val c) 0 (fmt_d n) = n"
proof (induction n rule: fmt_d.induct)
  case (1 n)
  show ?case
  proof (cases "n < 10")
    case True
    then show ?thesis by (simp add: fmt_d.simps[of n] digit_char_digit)
  next
    case False
    with 1 show ?thesis by (simp add: fmt_d.simps[of n] digit_char_digit)
  qed
qed

lemma parse_uint_fmt_d: "parse_uint (fmt_d n) = Some n"
  by (simp add: parse_uint_def fmt_d_digits fmt_d_value)

lemma fmt_d_no_dot: "CHR ''.'' \<notin> set (fmt_d n)"
  using fmt_d_digits[of n] by (auto simp: list_all_iff is_digit_def)

lemma Split_no_sep: "sep \<notin> set s \<Longrightarrow> Split s sep = [s]"
  by (induction s) auto

lemma Split_at_sep: "sep \<notin> set s \<Longrightarrow> Split (s @ sep # t) sep = s # Split t sep"
  by (induction s) auto

text \<open>The rendering of a version is parsed back to the version, so it names one version.\<close>

lemma ParseVersion_version_String: "ParseVersion (version_String v) = Some v"
proof -
  have "Split (version_String v) CHR ''.''
          = [fmt_d (Major v), fmt_d (Minor v), fmt_d (Build v)]"
    using Split_at_sep[OF fmt_d_no_dot, of "Major v" "fmt_d (Minor v) @ ''.'' @ fmt_d (Build v)"]
      Split_at_sep[OF fmt_d_no_dot, of "Minor v" "fmt_d (Build v)"]
      Split_no_sep[OF fmt_d_no_dot, of "Build v"]
    by (simp add: version_String_def)
  then show ?thesis by (simp add: ParseVersion_def parse_uint_fmt_d)
qed

lemma version_String_inj:
  assumes "version_String a = version_String b"
  shows "a = b"
proof -
  have "Some a = ParseVersion (version_String a)" by (simp only: ParseVersion_version_String)
  also have "\<dots> = Some b" by (simp only: assms ParseVersion_version_String)
  finally show ?thesis by simp
qed

text \<open>
  The message of a commit begins with a letter and ends with a digit, so the canonical
  form that the library gives it for the tag is the message and a line feed.
\<close>

lemma is_digit_not_space: "is_digit c \<Longrightarrow> \<not> isSpace c"
  by (auto simp: is_digit_def isSpace_def)

lemma TrimSpace_id:
  assumes "s \<noteq> []" and "\<not> isSpace (hd s)" and "\<not> isSpace (last s)"
  shows "TrimSpace s = s"
proof -
  from assms(1,2) have "dropWhile isSpace s = s" by (cases s) simp_all
  moreover from assms(1,3) have "dropWhile isSpace (rev s) = rev s"
    by (cases "rev s") (simp_all add: hd_rev[symmetric])
  ultimately show ?thesis by (simp add: TrimSpace_def)
qed

lemma commitMessage_nonempty: "commitMessage v \<noteq> []"
  by (simp add: commitMessage_def)

lemma TrimSpace_commitMessage: "TrimSpace (commitMessage v) = commitMessage v"
proof (rule TrimSpace_id)
  show "commitMessage v \<noteq> []" by (rule commitMessage_nonempty)
  show "\<not> isSpace (hd (commitMessage v))" by (simp add: commitMessage_def isSpace_def)
  have "last (commitMessage v) = digit_char (Minor v mod 10)"
    using fmt_d_digits[of "Minor v"] by (simp add: commitMessage_def fmt_d_last)
  moreover have "is_digit (digit_char (Minor v mod 10))" by (simp add: digit_char_digit)
  ultimately show "\<not> isSpace (last (commitMessage v))" by (simp add: is_digit_not_space)
qed

section \<open>Properties of the operations\<close>

subsection \<open>Effects on the target repository\<close>


lemma SetEncodedObject_cases:
  assumes "SetEncodedObject E obj repo = (res, repo')"
  shows "(res = Inl ErrStorage \<and> repo' = repo)
       \<or> (res = Inr (HashOf obj) \<and> objects repo' = objects repo @ [obj] \<and> tags repo' = tags repo)"
  using assms by (auto simp: SetEncodedObject_def split: if_splits)

lemma slurpFile_effect:
  assumes "slurpFile E dir name k content repo = (res, repo')"
  shows "tags repo' = tags repo \<and>
         (\<exists>ws. objects repo' = objects repo @ ws \<and> (\<forall>obj \<in> set ws. blob_or_tree obj))"
proof (cases "\<exists>h. res = Inr h")
  case False
  then have "repo' = repo" using assms
    by (auto simp: slurpFile_def SetEncodedObject_def split: option.splits if_splits)
  then show ?thesis by simp
next
  case True
  then have "objects repo' = objects repo @ [Blob content] \<and> tags repo' = tags repo" using assms
    by (auto simp: slurpFile_def SetEncodedObject_def split: option.splits if_splits)
  then show ?thesis by (simp add: blob_or_tree_def)
qed

lemma slurp_effect:
  "(\<forall>res repo'. slurpDirIntoGitTree E dir raw repo = (res, repo') \<longrightarrow>
      tags repo' = tags repo \<and>
      (\<exists>ws. objects repo' = objects repo @ ws \<and> (\<forall>obj \<in> set ws. blob_or_tree obj) \<and>
            (\<forall>h. res = Inr h \<longrightarrow> (\<exists>es. h = HashOf (Tree es) \<and> ws \<noteq> [] \<and> last ws = Tree es))))"
  "(\<forall>res repo'. slurpEntries E dir es tree repo = (res, repo') \<longrightarrow>
      tags repo' = tags repo \<and>
      (\<exists>ws. objects repo' = objects repo @ ws \<and> (\<forall>obj \<in> set ws. blob_or_tree obj)))"
proof (induction E dir raw repo and E dir es tree repo rule: slurpDirIntoGitTree_slurpEntries.induct)
  case (1 E dir raw repo)
  show ?case
  proof (intro allI impI)
    fix res repo'
    assume run: "slurpDirIntoGitTree E dir raw repo = (res, repo')"
    show "tags repo' = tags repo \<and>
      (\<exists>ws. objects repo' = objects repo @ ws \<and> (\<forall>obj \<in> set ws. blob_or_tree obj) \<and>
            (\<forall>h. res = Inr h \<longrightarrow> (\<exists>es. h = HashOf (Tree es) \<and> ws \<noteq> [] \<and> last ws = Tree es)))"
    proof (cases "ioutil_ReadDir E dir raw")
      case None
      with run have "res = Inl (FailedReadDir dir)" "repo' = repo" by simp_all
      then show ?thesis by simp
    next
      case (Some entries)
      obtain r1 repo1 where inner: "slurpEntries E dir entries [] repo = (r1, repo1)"
        by (cases "slurpEntries E dir entries [] repo")
      from "1.IH"[OF Some] inner obtain ws1 where
        t1: "tags repo1 = tags repo" and o1: "objects repo1 = objects repo @ ws1"
        and b1: "\<forall>obj \<in> set ws1. blob_or_tree obj" by blast
      show ?thesis
      proof (cases r1)
        case (Inl e)
        with run Some inner have "res = Inl e" "repo' = repo1" by simp_all
        with t1 o1 b1 show ?thesis by auto
      next
        case (Inr tree)
        show ?thesis
        proof (cases "fails E (Encode (Tree tree))")
          case True
          with run Some inner Inr have "res = Inl (FailedEncodeTree dir)" "repo' = repo1" by simp_all
          with t1 o1 b1 show ?thesis by auto
        next
          case False
          obtain r2 repo2 where w: "SetEncodedObject E (Tree tree) repo1 = (r2, repo2)"
            by (cases "SetEncodedObject E (Tree tree) repo1")
          from SetEncodedObject_cases[OF w] show ?thesis
          proof
            assume "r2 = Inl ErrStorage \<and> repo2 = repo1"
            with run Some inner Inr False w have "res = Inl (StorerError ErrStorage)" "repo' = repo1"
              by simp_all
            with t1 o1 b1 show ?thesis by auto
          next
            assume a: "r2 = Inr (HashOf (Tree tree)) \<and> objects repo2 = objects repo1 @ [Tree tree] \<and> tags repo2 = tags repo1"
            with run Some inner Inr False w have "res = Inr (HashOf (Tree tree))" "repo' = repo2"
              by simp_all
            with a t1 o1 b1 show ?thesis
              by (auto simp: blob_or_tree_def intro!: exI[where x="ws1 @ [Tree tree]"])
          qed
        qed
      qed
    qed
  qed
next
  case (2 E dir tree repo)
  show ?case by simp
next
  case (3 E dir name sub rest tree repo)
  show ?case
  proof (intro allI impI)
    fix res repo'
    assume run: "slurpEntries E dir ((name, Directory sub) # rest) tree repo = (res, repo')"
    obtain r1 repo1 where inner: "slurpDirIntoGitTree E (Join dir name) sub repo = (r1, repo1)"
      by (cases "slurpDirIntoGitTree E (Join dir name) sub repo")
    from "3.IH"(1) inner obtain ws1 where
      t1: "tags repo1 = tags repo" and o1: "objects repo1 = objects repo @ ws1"
      and b1: "\<forall>obj \<in> set ws1. blob_or_tree obj" by blast
    show "tags repo' = tags repo \<and>
      (\<exists>ws. objects repo' = objects repo @ ws \<and> (\<forall>obj \<in> set ws. blob_or_tree obj))"
    proof (cases r1)
      case (Inl e)
      with run inner have "res = Inl e" "repo' = repo1" by simp_all
      with t1 o1 b1 show ?thesis by auto
    next
      case (Inr h)
      with run inner have rest: "slurpEntries E dir rest (tree @ [TreeEntry name Dir h]) repo1 = (res, repo')"
        by simp
      from "3.IH"(2)[OF inner[symmetric] Inr] rest obtain ws2 where
        "tags repo' = tags repo1" "objects repo' = objects repo1 @ ws2"
        "\<forall>obj \<in> set ws2. blob_or_tree obj" by blast
      with t1 o1 b1 show ?thesis by (auto intro!: exI[where x="ws1 @ ws2"])
    qed
  qed
next
  case (4 E dir name k content rest tree repo)
  show ?case
  proof (intro allI impI)
    fix res repo'
    assume run: "slurpEntries E dir ((name, File k content) # rest) tree repo = (res, repo')"
    obtain r1 repo1 where inner: "slurpFile E dir name k content repo = (r1, repo1)"
      by (cases "slurpFile E dir name k content repo")
    from slurpFile_effect[OF inner] obtain ws1 where
      t1: "tags repo1 = tags repo" and o1: "objects repo1 = objects repo @ ws1"
      and b1: "\<forall>obj \<in> set ws1. blob_or_tree obj" by blast
    show "tags repo' = tags repo \<and>
      (\<exists>ws. objects repo' = objects repo @ ws \<and> (\<forall>obj \<in> set ws. blob_or_tree obj))"
    proof (cases r1)
      case (Inl e)
      with run inner have "res = Inl e" "repo' = repo1" by simp_all
      with t1 o1 b1 show ?thesis by auto
    next
      case (Inr entry)
      with run inner have rest: "slurpEntries E dir rest (tree @ [entry]) repo1 = (res, repo')"
        by simp
      from "4.IH"[OF inner[symmetric] Inr] rest obtain ws2 where
        "tags repo' = tags repo1" "objects repo' = objects repo1 @ ws2"
        "\<forall>obj \<in> set ws2. blob_or_tree obj" by blast
      with t1 o1 b1 show ?thesis by (auto intro!: exI[where x="ws1 @ ws2"])
    qed
  qed
qed

lemma slurpDir_effect:
  assumes "slurpDirIntoGitTree E dir raw repo = (res, repo')"
  shows "tags repo' = tags repo \<and>
      (\<exists>ws. objects repo' = objects repo @ ws \<and> (\<forall>obj \<in> set ws. blob_or_tree obj) \<and>
            (\<forall>h. res = Inr h \<longrightarrow> (\<exists>es. h = HashOf (Tree es) \<and> ws \<noteq> [] \<and> last ws = Tree es)))"
  using slurp_effect(1)[rule_format, OF assms] .

lemma EncodedObject_HashOf:
  "EncodedObject repo (HashOf obj) = (if obj \<in> set (objects repo) then Some obj else None)"
  by (simp add: EncodedObject_def)

lemma CreateTag_cases:
  assumes run: "CreateTag E name target tagger msg repo = (res, repo')"
  shows "(\<exists>e. res = Inl e \<and> tags repo' = tags repo \<and>
            (objects repo' = objects repo \<or>
             (\<exists>obj. EncodedObject repo target = Some obj \<and>
                objects repo' = objects repo
                  @ [Tag name tagger (TrimSpace msg @ [CHR 0x0A]) (object_Type obj) target])))
       \<or> (\<exists>obj. EncodedObject repo target = Some obj \<and> tags repo name = None \<and>
             res = Inr (HashOf (Tag name tagger (TrimSpace msg @ [CHR 0x0A]) (object_Type obj) target)) \<and>
             objects repo' = objects repo
               @ [Tag name tagger (TrimSpace msg @ [CHR 0x0A]) (object_Type obj) target] \<and>
             tags repo' = (tags repo)(name \<mapsto>
               HashOf (Tag name tagger (TrimSpace msg @ [CHR 0x0A]) (object_Type obj) target)))"
proof (cases "repo_Tag E repo name")
  case (TagFound h)
  with run have "res = Inl ErrTagExists" "repo' = repo" by (simp_all add: CreateTag_def Let_def)
  then show ?thesis by simp
next
  case TagLookupError
  with run have "res = Inl ErrStorage" "repo' = repo" by (simp_all add: CreateTag_def Let_def)
  then show ?thesis by simp
next
  case TagNotFound
  then have free: "tags repo name = None"
    by (simp add: repo_Tag_def split: if_splits option.splits)
  show ?thesis
  proof (cases "msg = []")
    case True
    with run TagNotFound have "res = Inl ErrMissingMessage" "repo' = repo"
      by (simp_all add: CreateTag_def Let_def)
    then show ?thesis by simp
  next
    case msg: False
    show ?thesis
    proof (cases "EncodedObject repo target")
      case None
      with run TagNotFound msg have "res = Inl ErrObjectNotFound" "repo' = repo"
        by (simp_all add: CreateTag_def Let_def)
      then show ?thesis by simp
    next
      case (Some obj)
      let ?tag = "Tag name tagger (TrimSpace msg @ [CHR 0x0A]) (object_Type obj) target"
      show ?thesis
      proof (cases "fails E (Encode ?tag)")
        case True
        with run TagNotFound msg Some have "res = Inl ErrStorage" "repo' = repo"
          by (simp_all add: CreateTag_def Let_def)
        then show ?thesis by simp
      next
        case noenc: False
        show ?thesis
        proof (cases "fails E (StoreObject ?tag)")
          case True
          with run TagNotFound msg Some noenc have "res = Inl ErrStorage" "repo' = repo"
            by (simp_all add: CreateTag_def SetEncodedObject_def Let_def)
          then show ?thesis by simp
        next
          case nostore: False
          show ?thesis
          proof (cases "fails E (SetReference name)")
            case True
            with run TagNotFound msg Some noenc nostore
            have "res = Inl ErrStorage" "repo' = repo\<lparr>objects := objects repo @ [?tag]\<rparr>"
              by (simp_all add: CreateTag_def SetEncodedObject_def Let_def)
            with Some show ?thesis by simp
          next
            case False
            with run TagNotFound msg Some noenc nostore
            have "res = Inr (HashOf ?tag)"
               "repo' = repo\<lparr>objects := objects repo @ [?tag], tags := (tags repo)(name \<mapsto> HashOf ?tag)\<rparr>"
              by (simp_all add: CreateTag_def SetEncodedObject_def Let_def)
            with Some free show ?thesis by simp
          qed
        qed
      qed
    qed
  qed
qed

subsection \<open>The commit and the tag of one version\<close>

text \<open>
  What one call of \<open>publishRelease\<close> leaves in the repository: a failure before the
  commit is written, after the commit, or after the tag object, none of which sets a
  reference; or the release, whose reference is set last.
\<close>

lemma publishRelease_cases [consumes 1, case_names before_commit commit_only tag_object released]:
  assumes run: "publishRelease E v tagName tmpDir staged our = (res, our')"
  obtains
    (before_commit) e ws where "res = Inl e" "tags our' = tags our"
      "objects our' = objects our @ ws" "\<forall>obj \<in> set ws. blob_or_tree obj"
  | (commit_only) e ws es where "res = Inl e" "tags our' = tags our"
      "\<forall>obj \<in> set ws. blob_or_tree obj" "ws \<noteq> []" "last ws = Tree es"
      "objects our' = objects our @ ws @ [release_commit E v (HashOf (Tree es))]"
      "fst (slurpDirIntoGitTree E tmpDir staged our) = Inr (HashOf (Tree es))"
  | (tag_object) e ws es where "res = Inl e" "tags our' = tags our"
      "\<forall>obj \<in> set ws. blob_or_tree obj" "ws \<noteq> []" "last ws = Tree es"
      "objects our' = objects our @ ws
         @ [release_commit E v (HashOf (Tree es)), release_tag E v tagName (HashOf (Tree es))]"
      "fst (slurpDirIntoGitTree E tmpDir staged our) = Inr (HashOf (Tree es))"
  | (released) ws es where "res = Inr ()" "tags our tagName = None"
      "\<forall>obj \<in> set ws. blob_or_tree obj" "ws \<noteq> []" "last ws = Tree es"
      "objects our' = objects our @ ws
         @ [release_commit E v (HashOf (Tree es)), release_tag E v tagName (HashOf (Tree es))]"
      "tags our' = (tags our)(tagName \<mapsto> HashOf (release_tag E v tagName (HashOf (Tree es))))"
      "fst (slurpDirIntoGitTree E tmpDir staged our) = Inr (HashOf (Tree es))"
proof -
  obtain r1 our1 where s: "slurpDirIntoGitTree E tmpDir staged our = (r1, our1)"
    by (cases "slurpDirIntoGitTree E tmpDir staged our")
  from slurpDir_effect[OF s] obtain ws where
    t1: "tags our1 = tags our" and o1: "objects our1 = objects our @ ws"
    and b1: "\<forall>obj \<in> set ws. blob_or_tree obj"
    and h1: "\<forall>h. r1 = Inr h \<longrightarrow> (\<exists>es. h = HashOf (Tree es) \<and> ws \<noteq> [] \<and> last ws = Tree es)"
    by blast
  show thesis
  proof (cases r1)
    case (Inl e)
    with run s have "res = Inl (FailedCreateTree v e)" "our' = our1"
      by (simp_all add: publishRelease_def)
    with t1 o1 b1 show thesis by (intro before_commit) simp_all
  next
    case (Inr treeHash)
    with h1 have "\<exists>es. treeHash = HashOf (Tree es) \<and> ws \<noteq> [] \<and> last ws = Tree es"
      by simp
    then obtain es where es: "treeHash = HashOf (Tree es)" "ws \<noteq> []" "last ws = Tree es"
      by blast
    let ?c = "release_commit E v (HashOf (Tree es))"
    let ?g = "release_tag E v tagName (HashOf (Tree es))"
    from s Inr es(1) have sl: "fst (slurpDirIntoGitTree E tmpDir staged our) = Inr (HashOf (Tree es))"
      by (simp del: slurpDirIntoGitTree.simps)
    have msg: "Message ?c = commitMessage v" and aut: "Author ?c = release_author E v"
      by (simp_all add: release_commit_def)
    have unfold: "publishRelease E v tagName tmpDir staged our =
        (if fails E (Encode ?c) then (Inl (FailedCreateCommit v), our1)
         else (case SetEncodedObject E ?c our1 of
                 (Inl e, our2) \<Rightarrow> (Inl (FailedWriteCommit v), our2)
               | (Inr commitHash, our2) \<Rightarrow>
                   (case CreateTag E tagName commitHash (release_author E v) (commitMessage v) our2 of
                      (Inl e, our3) \<Rightarrow> (Inl (FailedWriteTag v e), our3)
                    | (Inr tagRef, our3) \<Rightarrow> (Inr (), our3))))"
      using s Inr es(1)
      by (simp add: publishRelease_def Let_def release_commit_def release_author_def
            del: slurpDirIntoGitTree.simps split: prod.splits sum.splits)
    show thesis
    proof (cases "fails E (Encode ?c)")
      case True
      with run unfold have "res = Inl (FailedCreateCommit v)" "our' = our1" by simp_all
      with t1 o1 b1 show thesis by (intro before_commit) simp_all
    next
      case noenc: False
      obtain r2 our2 where w: "SetEncodedObject E ?c our1 = (r2, our2)"
        by (cases "SetEncodedObject E ?c our1")
      from SetEncodedObject_cases[OF w] show thesis
      proof
        assume "r2 = Inl ErrStorage \<and> our2 = our1"
        with run unfold noenc w have "res = Inl (FailedWriteCommit v)" "our' = our1"
          by simp_all
        with t1 o1 b1 show thesis by (intro before_commit) simp_all
      next
        assume a2: "r2 = Inr (HashOf ?c) \<and> objects our2 = objects our1 @ [?c] \<and> tags our2 = tags our1"
        obtain r3 our3 where
          ct: "CreateTag E tagName (HashOf ?c) (release_author E v) (commitMessage v) our2 = (r3, our3)"
          by (cases "CreateTag E tagName (HashOf ?c) (release_author E v) (commitMessage v) our2")
        have enc: "EncodedObject our2 (HashOf ?c) = Some ?c"
          using a2 by (simp add: EncodedObject_HashOf)
        have ty: "object_Type ?c = CommitObject"
          by (simp add: object_Type_def release_commit_def)
        have tg: "Tag tagName (release_author E v) (TrimSpace (commitMessage v) @ [CHR 0x0A])
                    CommitObject (HashOf ?c) = ?g"
          by (simp add: release_tag_def TrimSpace_commitMessage)
        from run unfold noenc w a2 ct
        have res: "(res, our') = (case r3 of Inl e \<Rightarrow> (Inl (FailedWriteTag v e), our3)
                                   | Inr tagRef \<Rightarrow> (Inr (), our3))"
          by simp
        from CreateTag_cases[OF ct] show thesis
        proof (elim disjE exE conjE)
          fix e
          assume e: "r3 = Inl e" "tags our3 = tags our2" and "objects our3 = objects our2"
          with res a2 t1 o1 have "res = Inl (FailedWriteTag v e)" "tags our' = tags our"
            "objects our' = objects our @ ws @ [?c]" by simp_all
          with b1 es sl show thesis by (intro commit_only) simp_all
        next
          fix e obj
          assume e: "r3 = Inl e" "tags our3 = tags our2"
            and "EncodedObject our2 (HashOf ?c) = Some obj"
            and "objects our3 = objects our2 @ [Tag tagName (release_author E v) (TrimSpace (commitMessage v) @ [CHR 0x0A]) (object_Type obj) (HashOf ?c)]"
          with enc ty tg have "objects our3 = objects our2 @ [?g]" by simp
          with res e a2 t1 o1 have "res = Inl (FailedWriteTag v e)" "tags our' = tags our"
            "objects our' = objects our @ ws @ [?c, ?g]" by simp_all
          with b1 es sl show thesis by (intro tag_object) simp_all
        next
          fix obj
          assume "EncodedObject our2 (HashOf ?c) = Some obj" and free: "tags our2 tagName = None"
            and r3: "r3 = Inr (HashOf (Tag tagName (release_author E v) (TrimSpace (commitMessage v) @ [CHR 0x0A]) (object_Type obj) (HashOf ?c)))"
            and o3: "objects our3 = objects our2 @ [Tag tagName (release_author E v) (TrimSpace (commitMessage v) @ [CHR 0x0A]) (object_Type obj) (HashOf ?c)]"
            and t3: "tags our3 = (tags our2)(tagName \<mapsto> HashOf (Tag tagName (release_author E v) (TrimSpace (commitMessage v) @ [CHR 0x0A]) (object_Type obj) (HashOf ?c)))"
          with enc ty tg have "objects our3 = objects our2 @ [?g]"
            "tags our3 = (tags our2)(tagName \<mapsto> HashOf ?g)" by simp_all
          with res r3 free a2 t1 o1 have "res = Inr ()" "tags our tagName = None"
            "objects our' = objects our @ ws @ [?c, ?g]"
            "tags our' = (tags our)(tagName \<mapsto> HashOf ?g)" by simp_all
          with b1 es sl show thesis by (intro released) simp_all
        qed
      qed
    qed
  qed
qed

lemma publishRelease_extends:
  assumes run: "publishRelease E v tagName tmpDir staged our = (res, our')"
  shows "(\<exists>ws. objects our' = objects our @ ws) \<and> tags our \<subseteq>\<^sub>m tags our' \<and>
         (res = Inr () \<longrightarrow> tagName \<in> dom (tags our')) \<and>
         ((\<exists>e. res = Inl e) \<longrightarrow> tags our' = tags our)"
  using run
proof (cases rule: publishRelease_cases)
  case (before_commit e ws)
  then show ?thesis by simp
next
  case (commit_only e ws es)
  then show ?thesis by simp
next
  case (tag_object e ws es)
  then show ?thesis by simp
next
  case (released ws es)
  then show ?thesis by (auto simp: map_le_def)
qed

subsection \<open>The loop of createStableTags\<close>

text \<open>The three ways one pass of the loop body can go.\<close>

lemma createStableTags_Cons_cases:
  assumes run: "createStableTags E tfRepo ((v, blobHash) # rest) ourRepo = (res, our')"
  shows "(\<exists>h. repo_Tag E ourRepo (''v'' @ version_String v) = TagFound h \<and>
            createStableTags E tfRepo rest ourRepo = (res, our'))
       \<or> (repo_Tag E ourRepo (''v'' @ version_String v) = TagLookupError \<and>
            res = Inl (CantCheckTag (''v'' @ version_String v)) \<and> our' = ourRepo)
       \<or> (repo_Tag E ourRepo (''v'' @ version_String v) = TagNotFound \<and>
            (\<exists>e. stageRelease E tfRepo v blobHash = Inl e \<and> res = Inl e \<and> our' = ourRepo))
       \<or> (repo_Tag E ourRepo (''v'' @ version_String v) = TagNotFound \<and>
            (\<exists>tmpDir staged e. stageRelease E tfRepo v blobHash = Inr (tmpDir, staged) \<and>
               publishRelease E v (''v'' @ version_String v) tmpDir staged ourRepo = (Inl e, our') \<and>
               res = Inl e))
       \<or> (repo_Tag E ourRepo (''v'' @ version_String v) = TagNotFound \<and>
            (\<exists>tmpDir staged our1. stageRelease E tfRepo v blobHash = Inr (tmpDir, staged) \<and>
               publishRelease E v (''v'' @ version_String v) tmpDir staged ourRepo = (Inr (), our1) \<and>
               createStableTags E tfRepo rest our1 = (res, our')))"
proof (cases "repo_Tag E ourRepo (''v'' @ version_String v)")
  case (TagFound h)
  with run show ?thesis by simp
next
  case TagLookupError
  with run show ?thesis by auto
next
  case TagNotFound
  show ?thesis
  proof (cases "stageRelease E tfRepo v blobHash")
    case (Inl e)
    with run TagNotFound show ?thesis by auto
  next
    case (Inr p)
    obtain tmpDir staged where p: "p = (tmpDir, staged)" by (cases p)
    obtain r1 our1 where pub: "publishRelease E v (''v'' @ version_String v) tmpDir staged ourRepo = (r1, our1)"
      by (cases "publishRelease E v (''v'' @ version_String v) tmpDir staged ourRepo")
    show ?thesis
    proof (cases r1)
      case (Inl e)
      with run TagNotFound Inr p pub have "res = Inl e" "our' = our1" by simp_all
      with TagNotFound Inr p pub Inl show ?thesis by simp
    next
      case (Inr u)
      with run TagNotFound \<open>stageRelease E tfRepo v blobHash = Inr p\<close> p pub
      have "createStableTags E tfRepo rest our1 = (res, our')" by simp
      with TagNotFound \<open>stageRelease E tfRepo v blobHash = Inr p\<close> p pub Inr show ?thesis by simp
    qed
  qed
qed

lemma createStableTags_extends:
  "createStableTags E tfRepo blobs ourRepo = (res, our') \<Longrightarrow>
     (\<exists>ws. objects our' = objects ourRepo @ ws) \<and> tags ourRepo \<subseteq>\<^sub>m tags our'"
proof (induction blobs arbitrary: ourRepo)
  case Nil
  then show ?case by simp
next
  case (Cons b rest)
  obtain v blobHash where b: "b = (v, blobHash)" by (cases b)
  from Cons.prems b have run: "createStableTags E tfRepo ((v, blobHash) # rest) ourRepo = (res, our')"
    by simp
  from createStableTags_Cons_cases[OF run] show ?case
  proof (elim disjE conjE exE)
    fix h assume "createStableTags E tfRepo rest ourRepo = (res, our')"
    then show ?thesis by (rule Cons.IH)
  next
    assume "our' = ourRepo"
    then show ?thesis by simp
  next
    fix e assume "our' = ourRepo"
    then show ?thesis by simp
  next
    fix tmpDir staged e
    assume "publishRelease E v (''v'' @ version_String v) tmpDir staged ourRepo = (Inl e, our')"
    from publishRelease_extends[OF this] show ?thesis by simp
  next
    fix tmpDir staged our1
    assume p: "publishRelease E v (''v'' @ version_String v) tmpDir staged ourRepo = (Inr (), our1)"
      and r: "createStableTags E tfRepo rest our1 = (res, our')"
    from publishRelease_extends[OF p] obtain ws1 where
      1: "objects our1 = objects ourRepo @ ws1" "tags ourRepo \<subseteq>\<^sub>m tags our1" by auto
    from Cons.IH[OF r] obtain ws2 where
      2: "objects our' = objects our1 @ ws2" "tags our1 \<subseteq>\<^sub>m tags our'" by auto
    from 1 2 have "objects our' = objects ourRepo @ (ws1 @ ws2)" by simp
    moreover from 1 2 have "tags ourRepo \<subseteq>\<^sub>m tags our'" by (meson map_le_trans)
    ultimately show ?thesis by blast
  qed
qed

lemma createStableTags_tagged:
  "createStableTags E tfRepo blobs ourRepo = (Inr (), our') \<Longrightarrow>
     (v, h) \<in> set blobs \<Longrightarrow> ''v'' @ version_String v \<in> dom (tags our')"
proof (induction blobs arbitrary: ourRepo)
  case Nil
  then show ?case by simp
next
  case (Cons b rest)
  obtain w blobHash where b: "b = (w, blobHash)" by (cases b)
  from Cons.prems b have run: "createStableTags E tfRepo ((w, blobHash) # rest) ourRepo = (Inr (), our')"
    by simp
  have later: "\<And>r. createStableTags E tfRepo rest r = (Inr (), our') \<Longrightarrow>
      ''v'' @ version_String w \<in> dom (tags r) \<Longrightarrow> ?case"
  proof -
    fix r assume r: "createStableTags E tfRepo rest r = (Inr (), our')"
      and d: "''v'' @ version_String w \<in> dom (tags r)"
    show ?case
    proof (cases "(v, h) = (w, blobHash)")
      case True
      from createStableTags_extends[OF r] have "tags r \<subseteq>\<^sub>m tags our'" by simp
      with d True show ?thesis by (auto simp: map_le_def dom_def)
    next
      case False
      with Cons.prems b have "(v, h) \<in> set rest" by auto
      with Cons.IH[OF r] show ?thesis by simp
    qed
  qed
  from createStableTags_Cons_cases[OF run] show ?case
  proof (elim disjE conjE exE)
    fix h' assume "repo_Tag E ourRepo (''v'' @ version_String w) = TagFound h'"
      and r: "createStableTags E tfRepo rest ourRepo = (Inr (), our')"
    then have "''v'' @ version_String w \<in> dom (tags ourRepo)"
      by (auto simp: repo_Tag_def split: if_splits option.splits)
    with r show ?thesis by (rule later)
  next
    assume "Inr () = Inl (CantCheckTag (''v'' @ version_String w))"
    then show ?thesis by simp
  next
    fix e assume "Inr () = Inl (e::error)"
    then show ?thesis by simp
  next
    fix tmpDir staged and e :: error
    assume "Inr () = Inl e"
    then show ?thesis by simp
  next
    fix tmpDir staged our1
    assume p: "publishRelease E w (''v'' @ version_String w) tmpDir staged ourRepo = (Inr (), our1)"
      and r: "createStableTags E tfRepo rest our1 = (Inr (), our')"
    from publishRelease_extends[OF p] have "''v'' @ version_String w \<in> dom (tags our1)" by simp
    with r show ?thesis by (rule later)
  qed
qed

lemma createStableTags_all_tagged:
  "\<forall>(v, h) \<in> set blobs. ''v'' @ version_String v \<in> dom (tags ourRepo) \<Longrightarrow>
   createStableTags E tfRepo blobs ourRepo = (res, our') \<Longrightarrow>
     our' = ourRepo \<and>
     (res = Inr () \<or> (\<exists>(v, h) \<in> set blobs. fails E (RefLookup (''v'' @ version_String v)) \<and>
                          res = Inl (CantCheckTag (''v'' @ version_String v))))"
proof (induction blobs)
  case Nil
  then show ?case by simp
next
  case (Cons b rest)
  obtain w blobHash where b: "b = (w, blobHash)" by (cases b)
  from Cons.prems b have d: "''v'' @ version_String w \<in> dom (tags ourRepo)" by simp
  show ?case
  proof (cases "fails E (RefLookup (''v'' @ version_String w))")
    case True
    with Cons.prems(2) b show ?thesis by (simp add: repo_Tag_def)
  next
    case False
    with d Cons.prems(2) b have "createStableTags E tfRepo rest ourRepo = (res, our')"
      by (auto simp: repo_Tag_def)
    with Cons.IH Cons.prems(1) show ?thesis by auto
  qed
qed

lemma createStableTags_append:
  "createStableTags E tfRepo (xs @ ys) ourRepo =
     (case createStableTags E tfRepo xs ourRepo of
        (Inl e, our1) \<Rightarrow> (Inl e, our1)
      | (Inr u, our1) \<Rightarrow> createStableTags E tfRepo ys our1)"
proof (induction xs arbitrary: ourRepo)
  case Nil
  show ?case by simp
next
  case (Cons b xs)
  obtain v blobHash where b: "b = (v, blobHash)" by (cases b)
  show ?case unfolding b
    by (simp add: Cons.IH Let_def split: tag_result.splits sum.splits prod.splits)
qed

subsection \<open>The objects a run writes\<close>

lemma run_object_blob: "blob_or_tree obj \<Longrightarrow> run_object E bs obj"
  by (simp add: run_object_def)

lemma run_object_commit: "(v, h) \<in> set bs \<Longrightarrow> run_object E bs (release_commit E v t)"
  unfolding run_object_def by (rule disjI2, rule bexI[where x="(v, h)"]) auto

lemma run_object_tag:
  "(v, h) \<in> set bs \<Longrightarrow> run_object E bs (release_tag E v (''v'' @ version_String v) t)"
  unfolding run_object_def by (rule disjI2, rule bexI[where x="(v, h)"]) auto

lemma run_object_mono: "run_object E bs obj \<Longrightarrow> run_object E (b # bs) obj"
  by (auto simp: run_object_def)

lemma publishRelease_writes:
  assumes p: "publishRelease E v (''v'' @ version_String v) tmpDir staged ourRepo = (r, o1)"
    and mem: "(v, h) \<in> set bs"
  shows "\<exists>new. objects o1 = objects ourRepo @ new \<and> (\<forall>obj \<in> set new. run_object E bs obj)"
  using p
proof (cases rule: publishRelease_cases)
  case (before_commit e ws)
  then have "\<forall>obj \<in> set ws. run_object E bs obj" using run_object_blob by blast
  with before_commit(3) show ?thesis by blast
next
  case (commit_only e ws es)
  then have "\<forall>obj \<in> set (ws @ [release_commit E v (HashOf (Tree es))]). run_object E bs obj"
    using run_object_blob[of _ E bs] run_object_commit[OF mem, of E] by simp
  with commit_only(6) show ?thesis by blast
next
  case (tag_object e ws es)
  then have "\<forall>obj \<in> set (ws @ [release_commit E v (HashOf (Tree es)),
                release_tag E v (''v'' @ version_String v) (HashOf (Tree es))]). run_object E bs obj"
    using run_object_blob[of _ E bs] run_object_commit[OF mem, of E] run_object_tag[OF mem, of E]
    by simp
  with tag_object(6) show ?thesis by blast
next
  case (released ws es)
  then have "\<forall>obj \<in> set (ws @ [release_commit E v (HashOf (Tree es)),
                release_tag E v (''v'' @ version_String v) (HashOf (Tree es))]). run_object E bs obj"
    using run_object_blob[of _ E bs] run_object_commit[OF mem, of E] run_object_tag[OF mem, of E]
    by simp
  with released(6) show ?thesis by blast
qed

lemma createStableTags_writes:
  "createStableTags E tfRepo blobs ourRepo = (res, our') \<Longrightarrow>
     \<exists>new. objects our' = objects ourRepo @ new \<and> (\<forall>obj \<in> set new. run_object E blobs obj)"
proof (induction blobs arbitrary: ourRepo)
  case Nil
  then show ?case by simp
next
  case (Cons b rest)
  obtain v blobHash where b: "b = (v, blobHash)" by (cases b)
  then have mem: "(v, blobHash) \<in> set (b # rest)" by simp
  from Cons.prems b have run: "createStableTags E tfRepo ((v, blobHash) # rest) ourRepo = (res, our')"
    by simp
  from createStableTags_Cons_cases[OF run] show ?case
  proof (elim disjE conjE exE)
    fix h assume "createStableTags E tfRepo rest ourRepo = (res, our')"
    from Cons.IH[OF this] obtain new where
      "objects our' = objects ourRepo @ new" "\<forall>obj \<in> set new. run_object E rest obj" by blast
    with run_object_mono show ?thesis by blast
  next
    assume "our' = ourRepo"
    then show ?thesis by simp
  next
    fix e assume "our' = ourRepo"
    then show ?thesis by simp
  next
    fix tmpDir staged e
    assume "publishRelease E v (''v'' @ version_String v) tmpDir staged ourRepo = (Inl e, our')"
    from publishRelease_writes[OF this mem] show ?thesis .
  next
    fix tmpDir staged our1
    assume p: "publishRelease E v (''v'' @ version_String v) tmpDir staged ourRepo = (Inr (), our1)"
      and r: "createStableTags E tfRepo rest our1 = (res, our')"
    from publishRelease_writes[OF p mem] obtain n1 where
      1: "objects our1 = objects ourRepo @ n1" "\<forall>obj \<in> set n1. run_object E (b # rest) obj" by blast
    from Cons.IH[OF r] obtain n2 where
      2: "objects our' = objects our1 @ n2" "\<forall>obj \<in> set n2. run_object E rest obj" by blast
    from 2(2) run_object_mono have 3: "\<forall>obj \<in> set n2. run_object E (b # rest) obj" by blast
    from 1 2 have "objects our' = objects ourRepo @ (n1 @ n2)" by simp
    moreover from 1(2) 3 have "\<forall>obj \<in> set (n1 @ n2). run_object E (b # rest) obj" by auto
    ultimately show ?thesis by blast
  qed
qed

subsection \<open>The example environment\<close>

lemma fmt_d_5: "fmt_d 5 = ''5''"
  by (simp add: fmt_d.simps digit_char_def)

lemma demo_versions:
  "Major v5_0 = 5" "Major v5_1 = 5" "Major v5_2 = 5"
  "version_String v5_0 = ''5.0.0''" "version_String v5_1 = ''5.1.0''"
  "version_String v5_2 = ''5.2.0''"
  by (simp_all add: v5_0_def v5_1_def v5_2_def version_String_def fmt_d.simps digit_char_def)

lemma demo_blobs:
  "repo_BlobObject demo_upstream (HashOf (Blob ''proto 5.0'')) = Some ''proto 5.0''"
  "repo_BlobObject demo_upstream (HashOf (Blob ''proto 5.1'')) = Some ''proto 5.1''"
  "repo_BlobObject demo_upstream (HashOf (Blob ''proto 5.2'')) = Some ''proto 5.2''"
  by (simp_all add: repo_BlobObject_def demo_upstream_def EncodedObject_def)

lemma demo_stage:
  assumes "Major v = 5" and "repo_BlobObject tfRepo h = Some b"
    and "''work.git/build-'' @ version_String v @ ''/tfplugin5'' \<noteq> bad"
  shows "stageRelease (demo_env t bad) tfRepo v h =
           Inr (''work.git/build-'' @ version_String v, demo_staged b)"
  using assms
  by (simp add: stageRelease_def demo_env_def Join_def demo_tools_def write_file_def Let_def
        demo_staged_def fmt_d_5)

lemma demo_stage_bad:
  assumes "Major v = 5" and "repo_BlobObject tfRepo h = Some b"
  shows "stageRelease (demo_env t (''work.git/build-'' @ version_String v @ ''/tfplugin5'')) tfRepo v h =
           Inl (FailedCompileProto v)"
  using assms
  by (simp add: stageRelease_def demo_env_def Join_def demo_tools_def write_file_def Let_def
        fmt_d_5)

lemma demo_slurp:
  "slurpDirIntoGitTree (demo_env t bad) dir (demo_staged b) our =
     (Inr (HashOf (demo_root b)),
      our\<lparr>objects := objects our @ [Blob ''// from tfplugin5.proto'',
         Blob ''module github.com/apparentlymart/terraform-plugin-proto-go/v5'',
         Blob ''sums'', Blob b, demo_package b, demo_root b]\<rparr>)"
  by (simp add: ioutil_ReadDir_def demo_env_def demo_staged_def slurpFile_def NewFromOSFileMode_def
        SetEncodedObject_def demo_root_def demo_package_def)

lemma demo_publish:
  assumes "tags our (''v'' @ version_String v) = None"
  shows "publishRelease (demo_env t bad) v (''v'' @ version_String v) dir (demo_staged b) our =
     (Inr (), our\<lparr>objects := objects our @ demo_release t v b,
                  tags := (tags our)(''v'' @ version_String v \<mapsto> HashOf (demo_tag t v b))\<rparr>)"
proof -
  have f: "fails (demo_env t bad) = (\<lambda>x. False)" and n: "Now (demo_env t bad) v = t"
    by (simp_all add: demo_env_def)
  show ?thesis
    using assms
    using TrimSpace_commitMessage[of v]
    by (simp add: publishRelease_def demo_slurp Let_def demo_release_def demo_commit_def
          demo_tag_def commitMessage_def n
          SetEncodedObject_def CreateTag_def repo_Tag_def f EncodedObject_def object_Type_def
          del: slurpDirIntoGitTree.simps)
qed

text \<open>One pass of the loop in the example environment releases the version.\<close>

lemma demo_run_one:
  assumes "Major v = 5" and "repo_BlobObject tfRepo h = Some b"
    and "''work.git/build-'' @ version_String v @ ''/tfplugin5'' \<noteq> bad"
    and "tags our (''v'' @ version_String v) = None"
  shows "createStableTags (demo_env t bad) tfRepo ((v, h) # rest) our =
      createStableTags (demo_env t bad) tfRepo rest
         (our\<lparr>objects := objects our @ demo_release t v b,
              tags := (tags our)(''v'' @ version_String v \<mapsto> HashOf (demo_tag t v b))\<rparr>)"
proof -
  have f: "fails (demo_env t bad) = (\<lambda>x. False)" by (simp add: demo_env_def)
  have l: "repo_Tag (demo_env t bad) our (''v'' @ version_String v) = TagNotFound"
    using assms(4) by (simp add: repo_Tag_def f)
  show ?thesis
    using l demo_stage[OF assms(1,2,3), of t]
      demo_publish[OF assms(4), of t bad "''work.git/build-'' @ version_String v" b]
    by (simp add: Let_def)
qed

lemma demo_run_5_0:
  "createStableTags (demo_env t []) demo_upstream [(v5_0, HashOf (Blob ''proto 5.0''))] empty_repo
     = (Inr (), \<lparr>objects = demo_release t v5_0 ''proto 5.0'',
                 tags = [''v5.0.0'' \<mapsto> HashOf (demo_tag t v5_0 ''proto 5.0'')]\<rparr>)"
  using demo_run_one[of v5_0 demo_upstream "HashOf (Blob ''proto 5.0'')" "''proto 5.0''" "[]"
      empty_repo t "[]"]
  by (simp add: empty_repo_def demo_versions demo_blobs)

subsection \<open>Runs that end with an error\<close>

lemma createStableTags_first:
  "createStableTags E tfRepo (b # rest) ourRepo =
     (case createStableTags E tfRepo [b] ourRepo of
        (Inl e, our1) \<Rightarrow> (Inl e, our1)
      | (Inr u, our1) \<Rightarrow> createStableTags E tfRepo rest our1)"
  using createStableTags_append[of E tfRepo "[b]" rest ourRepo] by simp

lemma createStableTags_stops:
  assumes "createStableTags E tfRepo xs ourRepo = (Inr (), our1)"
    and "createStableTags E tfRepo [b] our1 = (Inl e, our2)"
  shows "createStableTags E tfRepo (xs @ b # ys) ourRepo = (Inl e, our2)"
proof -
  have "createStableTags E tfRepo (b # ys) our1 = (Inl e, our2)"
    using assms(2) by (simp add: createStableTags_first[of E tfRepo b ys our1])
  with assms(1) show ?thesis by (simp add: createStableTags_append)
qed

lemma createStableTags_error_split:
  "createStableTags E tfRepo blobs ourRepo = (Inl e, our') \<Longrightarrow>
     \<exists>xs b ys our1. blobs = xs @ b # ys \<and>
        createStableTags E tfRepo xs ourRepo = (Inr (), our1) \<and>
        createStableTags E tfRepo [b] our1 = (Inl e, our')"
proof (induction blobs arbitrary: ourRepo)
  case Nil
  then show ?case by simp
next
  case (Cons b rest)
  obtain r1 o1 where one: "createStableTags E tfRepo [b] ourRepo = (r1, o1)"
    by (cases "createStableTags E tfRepo [b] ourRepo")
  show ?case
  proof (cases r1)
    case (Inl e1)
    with Cons.prems one have "e = e1" "our' = o1"
      by (simp_all add: createStableTags_first[of E tfRepo b rest ourRepo])
    with one Inl have "b # rest = [] @ b # rest \<and>
        createStableTags E tfRepo [] ourRepo = (Inr (), ourRepo) \<and>
        createStableTags E tfRepo [b] ourRepo = (Inl e, our')" by simp
    then show ?thesis by blast
  next
    case (Inr u)
    with Cons.prems one have "createStableTags E tfRepo rest o1 = (Inl e, our')"
      by (simp add: createStableTags_first[of E tfRepo b rest ourRepo])
    from Cons.IH[OF this] obtain xs c ys our1 where
      s: "rest = xs @ c # ys" "createStableTags E tfRepo xs o1 = (Inr (), our1)"
         "createStableTags E tfRepo [c] our1 = (Inl e, our')" by blast
    from one Inr s(2) have "createStableTags E tfRepo (b # xs) ourRepo = (Inr (), our1)"
      by (simp add: createStableTags_first[of E tfRepo b xs ourRepo])
    with s have "b # rest = (b # xs) @ c # ys \<and>
        createStableTags E tfRepo (b # xs) ourRepo = (Inr (), our1) \<and>
        createStableTags E tfRepo [c] our1 = (Inl e, our')" by simp
    then show ?thesis by blast
  qed
qed

text \<open>The error of the tag check comes from no other step.\<close>

lemma stageRelease_not_CantCheckTag: "stageRelease E tfRepo v h \<noteq> Inl (CantCheckTag n)"
  by (simp add: stageRelease_def Let_def split: option.splits)

lemma publishRelease_not_CantCheckTag:
  "publishRelease E v tagName tmpDir staged our \<noteq> (Inl (CantCheckTag n), our')"
proof
  assume "publishRelease E v tagName tmpDir staged our = (Inl (CantCheckTag n), our')"
  then show False
    by (simp add: publishRelease_def Let_def del: slurpDirIntoGitTree.simps
          split: prod.splits sum.splits if_splits)
qed

lemma CantCheckTag_origin:
  "createStableTags E tfRepo blobs ourRepo = (Inl (CantCheckTag n), our') \<Longrightarrow>
     \<exists>(v, h) \<in> set blobs. n = ''v'' @ version_String v \<and> fails E (RefLookup n)"
proof (induction blobs arbitrary: ourRepo)
  case Nil
  then show ?case by simp
next
  case (Cons b rest)
  obtain v blobHash where b: "b = (v, blobHash)" by (cases b)
  from Cons.prems b
  have run: "createStableTags E tfRepo ((v, blobHash) # rest) ourRepo = (Inl (CantCheckTag n), our')"
    by simp
  from createStableTags_Cons_cases[OF run] show ?case
  proof (elim disjE conjE exE)
    fix h assume "createStableTags E tfRepo rest ourRepo = (Inl (CantCheckTag n), our')"
    from Cons.IH[OF this] show ?thesis by auto
  next
    assume "repo_Tag E ourRepo (''v'' @ version_String v) = TagLookupError"
      and "Inl (CantCheckTag n) = Inl (CantCheckTag (''v'' @ version_String v))"
    then have "n = ''v'' @ version_String v" "fails E (RefLookup (''v'' @ version_String v))"
      by (simp_all add: repo_Tag_def split: if_splits option.splits)
    with b show ?thesis by simp
  next
    fix e assume "stageRelease E tfRepo v blobHash = Inl e" "Inl (CantCheckTag n) = Inl e"
    with stageRelease_not_CantCheckTag[of E tfRepo v blobHash n] show ?thesis by simp
  next
    fix tmpDir staged e
    assume "publishRelease E v (''v'' @ version_String v) tmpDir staged ourRepo = (Inl e, our')"
      "Inl (CantCheckTag n) = Inl e"
    with publishRelease_not_CantCheckTag[of E v _ tmpDir staged ourRepo n our'] show ?thesis by simp
  next
    fix tmpDir staged our1
    assume "createStableTags E tfRepo rest our1 = (Inl (CantCheckTag n), our')"
    from Cons.IH[OF this] show ?thesis by auto
  qed
qed

subsection \<open>The tree of a directory does not depend on the enumeration\<close>

lemma slurpFile_Inr:
  assumes "slurpFile E dir name k content repo = (Inr entry, repo')"
  shows "\<exists>mode. NewFromOSFileMode k = Some mode \<and> entry = TreeEntry name mode (HashOf (Blob content))"
  using assms
  by (auto simp: slurpFile_def SetEncodedObject_def split: option.splits if_splits)

text \<open>Sorting two enumerations of the same content by name aligns them.\<close>

lemma same_dir_sorted:
  assumes "same_dir raw raw'"
  shows "list_all2 (\<lambda>p q. fst p = fst q \<and> same_node (snd p) (snd q))
           (sort_key fst raw) (sort_key fst raw')"
proof -
  from assms have "distinct (map fst raw) \<and> distinct (map fst raw')
    \<and> fst ` set raw = fst ` set raw'
    \<and> (\<forall>(n, x) \<in> set raw. \<forall>(n', x') \<in> set raw'. n = n' \<longrightarrow> same_node x x')"
    by (simp add: same_dir.simps)
  then have d: "distinct (map fst raw)" and d': "distinct (map fst raw')"
    and s: "fst ` set raw = fst ` set raw'"
    and n: "\<forall>(n, x) \<in> set raw. \<forall>(n', x') \<in> set raw'. n = n' \<longrightarrow> same_node x x'"
    by simp_all
  let ?xs = "sort_key fst raw" and ?ys = "sort_key fst raw'"
  have m: "mset (map fst ?xs) = mset (map fst raw)" "mset (map fst ?ys) = mset (map fst raw')"
    by simp_all
  have dx: "distinct (map fst ?xs)" using d m(1) by (metis mset_eq_imp_distinct_iff)
  have dy: "distinct (map fst ?ys)" using d' m(2) by (metis mset_eq_imp_distinct_iff)
  have "set (map fst ?xs) = set (map fst ?ys)" using s by simp
  with dx dy have names: "map fst ?xs = map fst ?ys"
    by (intro sorted_distinct_set_unique) simp_all
  then have len: "length ?xs = length ?ys" by (metis length_map)
  show ?thesis
  proof (rule list_all2_all_nthI[OF len])
    fix i assume i: "i < length ?xs"
    with len have i': "i < length ?ys" by simp
    from names i i' have f: "fst (?xs ! i) = fst (?ys ! i)"
      by (metis nth_map)
    obtain a x where p: "?xs ! i = (a, x)" by (cases "?xs ! i")
    obtain c y where q: "?ys ! i = (c, y)" by (cases "?ys ! i")
    from f p q have ac: "a = c" by simp
    have "?xs ! i \<in> set raw" using i by (metis nth_mem set_sort)
    with p have px: "(a, x) \<in> set raw" by simp
    have "?ys ! i \<in> set raw'" using i' by (metis nth_mem set_sort)
    with q have qy: "(c, y) \<in> set raw'" by simp
    from n px qy ac have "same_node x y" by blast
    with p q ac show "fst (?xs ! i) = fst (?ys ! i) \<and> same_node (snd (?xs ! i)) (snd (?ys ! i))"
      by simp
  qed
qed

lemma slurpDir_Inr_unfold:
  assumes "slurpDirIntoGitTree E dir raw repo = (Inr h, repo')"
  shows "\<exists>tree repo1. slurpEntries E dir (sort_key fst raw) [] repo = (Inr tree, repo1)
            \<and> h = HashOf (Tree tree)"
  using assms
  by (auto simp: ioutil_ReadDir_def SetEncodedObject_def
        split: if_splits prod.splits sum.splits)

lemma slurp_same_content:
  "(\<forall>E' dir' raw' repo' h r h' r'.
      same_dir raw raw' \<longrightarrow>
      slurpDirIntoGitTree E dir raw repo = (Inr h, r) \<longrightarrow>
      slurpDirIntoGitTree E' dir' raw' repo' = (Inr h', r') \<longrightarrow> h = h')"
  "(\<forall>E' dir' es' tree' repo' t r t' r'.
      list_all2 (\<lambda>p q. fst p = fst q \<and> same_node (snd p) (snd q)) es es' \<longrightarrow>
      slurpEntries E dir es tree repo = (Inr t, r) \<longrightarrow>
      slurpEntries E' dir' es' tree' repo' = (Inr t', r') \<longrightarrow>
      (\<exists>suffix. t = tree @ suffix \<and> t' = tree' @ suffix))"
proof (induction E dir raw repo and E dir es tree repo rule: slurpDirIntoGitTree_slurpEntries.induct)
  case (1 E dir raw repo)
  show ?case
  proof (intro allI impI)
    fix E' dir' raw' repo' h r h' r'
    assume same: "same_dir raw raw'"
      and a: "slurpDirIntoGitTree E dir raw repo = (Inr h, r)"
      and b: "slurpDirIntoGitTree E' dir' raw' repo' = (Inr h', r')"
    from slurpDir_Inr_unfold[OF a] obtain tree repo1 where
      a': "slurpEntries E dir (sort_key fst raw) [] repo = (Inr tree, repo1)" "h = HashOf (Tree tree)"
      by blast
    from slurpDir_Inr_unfold[OF b] obtain tree' repo1' where
      b': "slurpEntries E' dir' (sort_key fst raw') [] repo' = (Inr tree', repo1')"
          "h' = HashOf (Tree tree')"
      by blast
    from a have rd: "ioutil_ReadDir E dir raw = Some (sort_key fst raw)"
      by (auto simp: ioutil_ReadDir_def split: if_splits)
    from "1.IH"[OF rd] same_dir_sorted[OF same] a'(1) b'(1)
    have "\<exists>suffix. tree = [] @ suffix \<and> tree' = [] @ suffix" by blast
    with a'(2) b'(2) show "h = h'" by simp
  qed
next
  case (2 E dir tree repo)
  show ?case by auto
next
  case (3 E dir name sub rest tree repo)
  show ?case
  proof (intro allI impI)
    fix E' dir' es' tree' repo' t r t' r'
    assume rel: "list_all2 (\<lambda>p q. fst p = fst q \<and> same_node (snd p) (snd q))
                   ((name, Directory sub) # rest) es'"
      and a: "slurpEntries E dir ((name, Directory sub) # rest) tree repo = (Inr t, r)"
      and b: "slurpEntries E' dir' es' tree' repo' = (Inr t', r')"
    from rel obtain x' rest' where es': "es' = (name, x') # rest'"
      and nx: "same_node (Directory sub) x'"
      and rr: "list_all2 (\<lambda>p q. fst p = fst q \<and> same_node (snd p) (snd q)) rest rest'"
      by (cases es') auto
    from nx obtain sub' where x': "x' = Directory sub'" and ss: "same_dir sub sub'"
      by (auto simp: same_node.simps)
    obtain r1 o1 where s1: "slurpDirIntoGitTree E (Join dir name) sub repo = (r1, o1)"
      by (cases "slurpDirIntoGitTree E (Join dir name) sub repo")
    obtain r1' o1' where s1': "slurpDirIntoGitTree E' (Join dir' name) sub' repo' = (r1', o1')"
      by (cases "slurpDirIntoGitTree E' (Join dir' name) sub' repo'")
    from a s1 obtain h1 where h1: "r1 = Inr h1"
      and a2: "slurpEntries E dir rest (tree @ [TreeEntry name Dir h1]) o1 = (Inr t, r)"
      by (cases r1) (simp_all del: slurpDirIntoGitTree.simps)
    from b es' x' s1' obtain h1' where h1': "r1' = Inr h1'"
      and b2: "slurpEntries E' dir' rest' (tree' @ [TreeEntry name Dir h1']) o1' = (Inr t', r')"
      by (cases r1') (simp_all del: slurpDirIntoGitTree.simps)
    from "3.IH"(1) ss s1 h1 s1' h1' have hh: "h1 = h1'" by blast
    from "3.IH"(2)[OF s1[symmetric] h1] rr a2 b2 hh
    obtain suffix where "t = (tree @ [TreeEntry name Dir h1]) @ suffix"
      "t' = (tree' @ [TreeEntry name Dir h1]) @ suffix" by blast
    then have "t = tree @ (TreeEntry name Dir h1 # suffix) \<and> t' = tree' @ (TreeEntry name Dir h1 # suffix)"
      by simp
    then show "\<exists>suffix. t = tree @ suffix \<and> t' = tree' @ suffix" by blast
  qed
next
  case (4 E dir name k content rest tree repo)
  show ?case
  proof (intro allI impI)
    fix E' dir' es' tree' repo' t r t' r'
    assume rel: "list_all2 (\<lambda>p q. fst p = fst q \<and> same_node (snd p) (snd q))
                   ((name, File k content) # rest) es'"
      and a: "slurpEntries E dir ((name, File k content) # rest) tree repo = (Inr t, r)"
      and b: "slurpEntries E' dir' es' tree' repo' = (Inr t', r')"
    from rel obtain x' rest' where es': "es' = (name, x') # rest'"
      and nx: "same_node (File k content) x'"
      and rr: "list_all2 (\<lambda>p q. fst p = fst q \<and> same_node (snd p) (snd q)) rest rest'"
      by (cases es') auto
    from nx have x': "x' = File k content" by (auto simp: same_node.simps)
    obtain r1 o1 where s1: "slurpFile E dir name k content repo = (r1, o1)"
      by (cases "slurpFile E dir name k content repo")
    obtain r1' o1' where s1': "slurpFile E' dir' name k content repo' = (r1', o1')"
      by (cases "slurpFile E' dir' name k content repo'")
    from a s1 obtain e1 where e1: "r1 = Inr e1"
      and a2: "slurpEntries E dir rest (tree @ [e1]) o1 = (Inr t, r)"
      by (cases r1) simp_all
    from b es' x' s1' obtain e1' where e1': "r1' = Inr e1'"
      and b2: "slurpEntries E' dir' rest' (tree' @ [e1']) o1' = (Inr t', r')"
      by (cases r1') simp_all
    from s1 e1 have "slurpFile E dir name k content repo = (Inr e1, o1)" by simp
    from slurpFile_Inr[OF this] obtain mode where
      m: "NewFromOSFileMode k = Some mode" "e1 = TreeEntry name mode (HashOf (Blob content))"
      by blast
    from s1' e1' have "slurpFile E' dir' name k content repo' = (Inr e1', o1')" by simp
    from slurpFile_Inr[OF this] obtain mode' where
      m': "NewFromOSFileMode k = Some mode'" "e1' = TreeEntry name mode' (HashOf (Blob content))"
      by blast
    from m m' have ee: "e1 = e1'" by simp
    from "4.IH"[OF s1[symmetric] e1] rr a2 b2 ee
    obtain suffix where "t = (tree @ [e1]) @ suffix" "t' = (tree' @ [e1]) @ suffix" by blast
    then have "t = tree @ (e1 # suffix) \<and> t' = tree' @ (e1 # suffix)" by simp
    then show "\<exists>suffix. t = tree @ suffix \<and> t' = tree' @ suffix" by blast
  qed
qed

lemma slurpDir_same_content:
  assumes "same_dir raw raw'"
    and "slurpDirIntoGitTree E dir raw repo = (Inr h, r)"
    and "slurpDirIntoGitTree E' dir' raw' repo' = (Inr h', r')"
  shows "h = h'"
  using slurp_same_content(1)[rule_format, OF assms] .

text \<open>The entries of the tree follow the entries of the directory as they are read.\<close>

lemma slurpFile_Name:
  "slurpFile E dir name k content repo = (Inr entry, repo') \<Longrightarrow> Name entry = name"
  using slurpFile_Inr by fastforce

lemma slurp_names:
  "(\<forall>h r. slurpDirIntoGitTree E dir raw repo = (Inr h, r) \<longrightarrow>
      (\<exists>tree. h = HashOf (Tree tree) \<and> map Name tree = map fst (sort_key fst raw)))"
  "(\<forall>t r. slurpEntries E dir es tree repo = (Inr t, r) \<longrightarrow>
      map Name t = map Name tree @ map fst es)"
proof (induction E dir raw repo and E dir es tree repo rule: slurpDirIntoGitTree_slurpEntries.induct)
  case (1 E dir raw repo)
  show ?case
  proof (intro allI impI)
    fix h r assume a: "slurpDirIntoGitTree E dir raw repo = (Inr h, r)"
    from slurpDir_Inr_unfold[OF a] obtain tree repo1 where
      a': "slurpEntries E dir (sort_key fst raw) [] repo = (Inr tree, repo1)" "h = HashOf (Tree tree)"
      by blast
    from a have rd: "ioutil_ReadDir E dir raw = Some (sort_key fst raw)"
      by (auto simp: ioutil_ReadDir_def split: if_splits)
    from "1.IH"[OF rd] a'(1) have "map Name tree = map fst (sort_key fst raw)" by simp
    with a'(2) show "\<exists>tree. h = HashOf (Tree tree) \<and> map Name tree = map fst (sort_key fst raw)"
      by blast
  qed
next
  case (2 E dir tree repo)
  show ?case by simp
next
  case (3 E dir name sub rest tree repo)
  show ?case
  proof (intro allI impI)
    fix t r
    assume a: "slurpEntries E dir ((name, Directory sub) # rest) tree repo = (Inr t, r)"
    obtain r1 o1 where s1: "slurpDirIntoGitTree E (Join dir name) sub repo = (r1, o1)"
      by (cases "slurpDirIntoGitTree E (Join dir name) sub repo")
    from a s1 obtain h1 where h1: "r1 = Inr h1"
      and a2: "slurpEntries E dir rest (tree @ [TreeEntry name Dir h1]) o1 = (Inr t, r)"
      by (cases r1) (simp_all del: slurpDirIntoGitTree.simps)
    from "3.IH"(2)[OF s1[symmetric] h1] a2
    show "map Name t = map Name tree @ map fst ((name, Directory sub) # rest)" by simp
  qed
next
  case (4 E dir name k content rest tree repo)
  show ?case
  proof (intro allI impI)
    fix t r
    assume a: "slurpEntries E dir ((name, File k content) # rest) tree repo = (Inr t, r)"
    obtain r1 o1 where s1: "slurpFile E dir name k content repo = (r1, o1)"
      by (cases "slurpFile E dir name k content repo")
    from a s1 obtain e1 where e1: "r1 = Inr e1"
      and a2: "slurpEntries E dir rest (tree @ [e1]) o1 = (Inr t, r)"
      by (cases r1) simp_all
    from s1 e1 have "Name e1 = name" using slurpFile_Name by simp
    with "4.IH"[OF s1[symmetric] e1] a2
    show "map Name t = map Name tree @ map fst ((name, File k content) # rest)" by simp
  qed
qed

lemma same_dir_refl_demo: "same_dir (demo_staged b) (demo_staged b)"
  by (rule same_entries)
     (auto simp: demo_staged_def intro!: same_file same_subdir intro: same_entries)

lemma same_dir_demo_listing: "same_dir demo_listing demo_listing_shuffled"
  by (rule same_entries)
     (auto simp: demo_listing_def demo_listing_shuffled_def
        intro!: same_file same_subdir intro: same_entries)

lemma demo_listing_slurp:
  "fst (slurpDirIntoGitTree (demo_env t bad) dir demo_listing our) = Inr (HashOf demo_listing_tree)"
  "fst (slurpDirIntoGitTree (demo_env t bad) dir demo_listing_shuffled our)
     = Inr (HashOf demo_listing_tree)"
  by (simp_all add: ioutil_ReadDir_def demo_env_def demo_listing_def demo_listing_shuffled_def
        slurpFile_def NewFromOSFileMode_def SetEncodedObject_def demo_listing_tree_def)


subsection \<open>The order of the writes\<close>

lemma refs_stored_mono: "refs_stored store obj \<Longrightarrow> refs_stored (store @ extra) obj"
  by (auto simp: refs_stored_def split: gitobj.splits)

lemma writes_ordered_append:
  "writes_ordered store (xs @ ys) = (writes_ordered store xs \<and> writes_ordered (store @ xs) ys)"
  by (induction xs arbitrary: store) auto

lemma writes_ordered_blobs:
  "\<forall>obj \<in> set ws. blob_or_tree obj \<Longrightarrow> writes_ordered store ws"
  by (induction ws arbitrary: store)
     (auto simp: refs_stored_def blob_or_tree_def split: gitobj.splits)

lemma tag_resolves_mono:
  assumes "tag_resolves repo h" and "set (objects repo) \<subseteq> set (objects repo')"
  shows "tag_resolves repo' h"
proof -
  from assms(1) obtain g where g: "g \<in> set (objects repo)" "h = HashOf g"
    and body: "case g of
           Tag n a m ty target \<Rightarrow>
             (\<exists>c \<in> set (objects repo). target = HashOf c \<and>
                (case c of
                   Commit t a' c' m' \<Rightarrow> (\<exists>tree \<in> set (objects repo). t = HashOf tree)
                 | _ \<Rightarrow> True))
         | _ \<Rightarrow> True"
    unfolding tag_resolves_def by blast
  have "case g of
           Tag n a m ty target \<Rightarrow>
             (\<exists>c \<in> set (objects repo'). target = HashOf c \<and>
                (case c of
                   Commit t a' c' m' \<Rightarrow> (\<exists>tree \<in> set (objects repo'). t = HashOf tree)
                 | _ \<Rightarrow> True))
         | _ \<Rightarrow> True"
  proof (cases g)
    case (Tag n a m ty target)
    with body obtain c where c: "c \<in> set (objects repo)" "target = HashOf c"
      and cb: "case c of Commit t a' c' m' \<Rightarrow> (\<exists>tree \<in> set (objects repo). t = HashOf tree)
                 | _ \<Rightarrow> True"
      by auto
    from cb assms(2) have "case c of
        Commit t a' c' m' \<Rightarrow> (\<exists>tree \<in> set (objects repo'). t = HashOf tree) | _ \<Rightarrow> True"
      by (cases c) auto
    with c assms(2) Tag show ?thesis by auto
  qed simp_all
  with g assms(2) show ?thesis unfolding tag_resolves_def by blast
qed

text \<open>The release of one version: its writes are ordered, and its reference resolves.\<close>

lemma release_writes_ordered:
  assumes "\<forall>obj \<in> set ws. blob_or_tree obj" and "ws \<noteq> []" and "last ws = Tree es"
  shows "writes_ordered store (ws @ [release_commit E v (HashOf (Tree es))])"
    and "writes_ordered store
           (ws @ [release_commit E v (HashOf (Tree es)),
                  release_tag E v tagName (HashOf (Tree es))])"
proof -
  have t: "Tree es \<in> set ws" using assms(2,3) by (metis last_in_set)
  have c: "refs_stored (store @ ws) (release_commit E v (HashOf (Tree es)))"
    using t by (auto simp: refs_stored_def release_commit_def)
  have g: "refs_stored ((store @ ws) @ [release_commit E v (HashOf (Tree es))])
             (release_tag E v tagName (HashOf (Tree es)))"
    by (simp add: refs_stored_def release_tag_def)
  show "writes_ordered store (ws @ [release_commit E v (HashOf (Tree es))])"
    using writes_ordered_blobs[OF assms(1)] c by (simp add: writes_ordered_append)
  show "writes_ordered store
           (ws @ [release_commit E v (HashOf (Tree es)),
                  release_tag E v tagName (HashOf (Tree es))])"
    using writes_ordered_blobs[OF assms(1)] c g by (simp add: writes_ordered_append)
qed

lemma release_tag_resolves:
  assumes "last ws = Tree es" and "ws \<noteq> []"
    and "objects repo = before @ ws
           @ [release_commit E v (HashOf (Tree es)), release_tag E v tagName (HashOf (Tree es))]"
  shows "tag_resolves repo (HashOf (release_tag E v tagName (HashOf (Tree es))))"
proof -
  have t: "Tree es \<in> set (objects repo)" using assms by (metis last_in_set Un_iff set_append)
  have c: "release_commit E v (HashOf (Tree es)) \<in> set (objects repo)" using assms(3) by simp
  have g: "release_tag E v tagName (HashOf (Tree es)) \<in> set (objects repo)" using assms(3) by simp
  show ?thesis
    unfolding tag_resolves_def
  proof (rule bexI[OF _ g], intro conjI)
    show "HashOf (release_tag E v tagName (HashOf (Tree es)))
        = HashOf (release_tag E v tagName (HashOf (Tree es)))" by simp
    show "case release_tag E v tagName (HashOf (Tree es)) of
           Tag n a m ty target \<Rightarrow>
             (\<exists>c \<in> set (objects repo). target = HashOf c \<and>
                (case c of
                   Commit t a' c' m' \<Rightarrow> (\<exists>tree \<in> set (objects repo). t = HashOf tree)
                 | _ \<Rightarrow> True))
         | _ \<Rightarrow> True"
      unfolding release_tag_def gitobj.case
    proof (rule bexI[OF _ c], intro conjI)
      show "HashOf (release_commit E v (HashOf (Tree es)))
          = HashOf (release_commit E v (HashOf (Tree es)))" by simp
      show "case release_commit E v (HashOf (Tree es)) of
           Commit t a' c' m' \<Rightarrow> (\<exists>tree \<in> set (objects repo). t = HashOf tree) | _ \<Rightarrow> True"
        unfolding release_commit_def gitobj.case using t by blast
    qed
  qed
qed

lemma run_safe_refl: "run_safe repo repo"
  by (simp add: run_safe_def)

lemma run_safe_trans:
  assumes "run_safe a b" and "run_safe b c"
  shows "run_safe a c"
proof -
  from assms(1) obtain n1 where 1: "objects b = objects a @ n1" "writes_ordered (objects a) n1"
    and t1: "\<forall>name h. tags b name = Some h \<longrightarrow> tags a name = Some h \<or> tag_resolves b h"
    unfolding run_safe_def by blast
  from assms(2) obtain n2 where 2: "objects c = objects b @ n2" "writes_ordered (objects b) n2"
    and t2: "\<forall>name h. tags c name = Some h \<longrightarrow> tags b name = Some h \<or> tag_resolves c h"
    unfolding run_safe_def by blast
  have o: "objects c = objects a @ (n1 @ n2)" using 1 2 by simp
  have w: "writes_ordered (objects a) (n1 @ n2)" using 1 2 by (simp add: writes_ordered_append)
  have sub: "set (objects b) \<subseteq> set (objects c)" using 2(1) by auto
  have t: "\<forall>name h. tags c name = Some h \<longrightarrow> tags a name = Some h \<or> tag_resolves c h"
  proof (intro allI impI)
    fix name h assume "tags c name = Some h"
    with t2 have "tags b name = Some h \<or> tag_resolves c h" by blast
    then show "tags a name = Some h \<or> tag_resolves c h"
    proof
      assume "tags b name = Some h"
      with t1 have "tags a name = Some h \<or> tag_resolves b h" by blast
      with sub show ?thesis using tag_resolves_mono by blast
    qed simp
  qed
  from o w t show ?thesis unfolding run_safe_def by blast
qed

lemma publishRelease_safe:
  assumes "publishRelease E v tagName tmpDir staged our = (res, our')"
  shows "run_safe our our'"
  using assms
proof (cases rule: publishRelease_cases)
  case (before_commit e ws)
  then show ?thesis
    unfolding run_safe_def using writes_ordered_blobs by (intro exI[where x=ws]) simp
next
  case (commit_only e ws es)
  then show ?thesis
    unfolding run_safe_def using release_writes_ordered(1)
    by (intro exI[where x="ws @ [release_commit E v (HashOf (Tree es))]"]) simp
next
  case (tag_object e ws es)
  then show ?thesis
    unfolding run_safe_def using release_writes_ordered(2)
    by (intro exI[where x="ws @ [release_commit E v (HashOf (Tree es)),
                                 release_tag E v tagName (HashOf (Tree es))]"]) simp
next
  case (released ws es)
  have r: "tag_resolves our' (HashOf (release_tag E v tagName (HashOf (Tree es))))"
    using released(5,4,6) by (rule release_tag_resolves)
  have w: "writes_ordered (objects our)
     (ws @ [release_commit E v (HashOf (Tree es)), release_tag E v tagName (HashOf (Tree es))])"
    using released(3,4,5) by (rule release_writes_ordered(2))
  have t: "\<forall>name h. tags our' name = Some h \<longrightarrow> tags our name = Some h \<or> tag_resolves our' h"
    using released(7) r by (auto split: if_splits)
  from released(6) w t show ?thesis unfolding run_safe_def by blast
qed

lemma createStableTags_safe:
  "createStableTags E tfRepo blobs ourRepo = (res, our') \<Longrightarrow> run_safe ourRepo our'"
proof (induction blobs arbitrary: ourRepo)
  case Nil
  then show ?case by (simp add: run_safe_refl)
next
  case (Cons b rest)
  obtain v blobHash where b: "b = (v, blobHash)" by (cases b)
  from Cons.prems b have run: "createStableTags E tfRepo ((v, blobHash) # rest) ourRepo = (res, our')"
    by simp
  from createStableTags_Cons_cases[OF run] show ?case
  proof (elim disjE conjE exE)
    fix h assume "createStableTags E tfRepo rest ourRepo = (res, our')"
    then show ?thesis by (rule Cons.IH)
  next
    assume "our' = ourRepo"
    then show ?thesis by (simp add: run_safe_refl)
  next
    fix e assume "our' = ourRepo"
    then show ?thesis by (simp add: run_safe_refl)
  next
    fix tmpDir staged e
    assume "publishRelease E v (''v'' @ version_String v) tmpDir staged ourRepo = (Inl e, our')"
    then show ?thesis by (rule publishRelease_safe)
  next
    fix tmpDir staged our1
    assume p: "publishRelease E v (''v'' @ version_String v) tmpDir staged ourRepo = (Inr (), our1)"
      and r: "createStableTags E tfRepo rest our1 = (res, our')"
    from publishRelease_safe[OF p] Cons.IH[OF r] show ?thesis by (rule run_safe_trans)
  qed
qed

subsection \<open>Discovery of the versions\<close>

lemma HasPrefix_tfplugin: "HasPrefix name ''tfplugin'' = (take 8 name = ''tfplugin'')"
proof -
  have "length ''tfplugin'' = 8" by simp
  then show ?thesis unfolding HasPrefix_def by (simp only:)
qed

lemma HasSuffix_proto:
  "HasSuffix name ''.proto'' = (6 \<le> length name \<and> drop (length name - 6) name = ''.proto'')"
proof -
  have "length ''.proto'' = 6" by simp
  then show ?thesis unfolding HasSuffix_def by (simp only:)
qed

text \<open>A name with the prefix and the suffix has room for both, so the slice is in range.\<close>

lemma prefix_suffix_length:
  assumes p: "HasPrefix name ''tfplugin''" and s: "HasSuffix name ''.proto''"
  shows "14 \<le> length name"
proof (rule ccontr)
  assume "\<not> 14 \<le> length name"
  then have short: "length name < 14" by simp
  from p have t: "take 8 name = ''tfplugin''" by (simp only: HasPrefix_tfplugin)
  then have "length (take 8 name) = length ''tfplugin''" by (simp only:)
  then have l8: "8 \<le> length name" by simp
  from s have l6: "6 \<le> length name" and d: "drop (length name - 6) name = ''.proto''"
    by (simp_all only: HasSuffix_proto)
  define i where "i = length name - 6"
  from short l8 have i: "2 \<le> i" "i < 8" by (simp_all add: i_def)
  from d have "name ! i = CHR ''.''"
    using l6 unfolding i_def by (metis hd_drop_conv_nth list.sel(1) diff_less zero_less_numeral
          less_le_trans)
  moreover from i l8 have "name ! i = take 8 name ! i" by simp
  ultimately have dot: "''tfplugin'' ! i = CHR ''.''" using t by simp
  from i consider "i = 2" | "i = 3" | "i = 4" | "i = 5" | "i = 6" | "i = 7" by linarith
  then show False using dot by cases simp_all
qed

lemma slice_middle:
  assumes "HasPrefix name ''tfplugin''" and "HasSuffix name ''.proto''"
  shows "slice name (int (length ''tfplugin'')) (int (length name) - int (length ''.proto''))
           = Some (take (length name - 14) (drop 8 name))"
proof -
  from prefix_suffix_length[OF assms] have l: "14 \<le> length name" .
  then have "nat (int (length name) - 6 - 8) = length name - 14" by simp
  with l show ?thesis by (simp add: slice_def)
qed

lemma scanProtoEntries_step:
  "scanProtoEntries (entry # rest) ret =
     scanProtoEntries rest
       (case entry_version (Name entry) of None \<Rightarrow> ret | Some v \<Rightarrow> ret(v \<mapsto> Hash entry))"
proof (cases "HasPrefix (Name entry) ''tfplugin'' \<and> HasSuffix (Name entry) ''.proto''")
  case False
  then show ?thesis by (auto simp: entry_version_def Let_def)
next
  case True
  then have "slice (Name entry) (int (length ''tfplugin''))
       (int (length (Name entry)) - int (length ''.proto''))
           = Some (take (length (Name entry) - 14) (drop 8 (Name entry)))"
    using slice_middle by blast
  with True show ?thesis
    by (simp add: entry_version_def Let_def split: option.splits)
qed

text \<open>The loop never fails, and its map is determined entry by entry.\<close>

lemma scanProtoEntries_total:
  "\<exists>m. scanProtoEntries es ret = Inr m \<and>
     (\<forall>v. (v \<in> dom m) = (v \<in> dom ret \<or> (\<exists>e \<in> set es. entry_version (Name e) = Some v))) \<and>
     (\<forall>v h. m v = Some h \<longrightarrow>
         ret v = Some h \<or> (\<exists>e \<in> set es. Hash e = h \<and> entry_version (Name e) = Some v))"
proof (induction es arbitrary: ret)
  case Nil
  show ?case by auto
next
  case (Cons entry rest)
  let ?ret = "case entry_version (Name entry) of None \<Rightarrow> ret | Some v \<Rightarrow> ret(v \<mapsto> Hash entry)"
  from Cons.IH[of ?ret] obtain m where
    m: "scanProtoEntries rest ?ret = Inr m"
    and d: "\<forall>v. (v \<in> dom m) = (v \<in> dom ?ret \<or> (\<exists>e \<in> set rest. entry_version (Name e) = Some v))"
    and h: "\<forall>v h. m v = Some h \<longrightarrow>
         ?ret v = Some h \<or> (\<exists>e \<in> set rest. Hash e = h \<and> entry_version (Name e) = Some v)"
    by blast
  have 1: "scanProtoEntries (entry # rest) ret = Inr m"
    using m by (simp only: scanProtoEntries_step)
  have 2: "\<forall>v. (v \<in> dom m) = (v \<in> dom ret \<or> (\<exists>e \<in> set (entry # rest). entry_version (Name e) = Some v))"
  proof
    fix v
    have "(v \<in> dom ?ret) = (v \<in> dom ret \<or> entry_version (Name entry) = Some v)"
      by (cases "entry_version (Name entry)") auto
    with d show "(v \<in> dom m) = (v \<in> dom ret \<or> (\<exists>e \<in> set (entry # rest). entry_version (Name e) = Some v))"
      by auto
  qed
  have 3: "\<forall>v h. m v = Some h \<longrightarrow>
         ret v = Some h \<or> (\<exists>e \<in> set (entry # rest). Hash e = h \<and> entry_version (Name e) = Some v)"
  proof (intro allI impI)
    fix v h assume "m v = Some h"
    with h have "?ret v = Some h \<or> (\<exists>e \<in> set rest. Hash e = h \<and> entry_version (Name e) = Some v)"
      by blast
    moreover have "?ret v = Some h \<Longrightarrow> ret v = Some h \<or> (Hash entry = h \<and> entry_version (Name entry) = Some v)"
      by (cases "entry_version (Name entry)") (auto split: if_splits)
    ultimately show "ret v = Some h \<or> (\<exists>e \<in> set (entry # rest). Hash e = h \<and> entry_version (Name e) = Some v)"
      by auto
  qed
  from 1 2 3 show ?case by blast
qed

text \<open>The version of a name, said without positions.\<close>

lemma entry_version_iff:
  "(entry_version name = Some v) =
     (\<exists>mid. name = ''tfplugin'' @ mid @ ''.proto'' \<and> ParseVersion (mid @ ''.0'') = Some v)"
proof
  assume a: "entry_version name = Some v"
  then have ps: "HasPrefix name ''tfplugin''" "HasSuffix name ''.proto''"
    and pv: "ParseVersion (take (length name - 14) (drop 8 name) @ ''.0'') = Some v"
    by (auto simp: entry_version_def split: if_splits)
  from prefix_suffix_length[OF ps] have l: "14 \<le> length name" .
  let ?mid = "take (length name - 14) (drop 8 name)"
  have a1: "name = take 8 name @ drop 8 name"
    by (rule append_take_drop_id[symmetric])
  have a2: "drop 8 name = ?mid @ drop (length name - 14) (drop 8 name)"
    by (rule append_take_drop_id[symmetric])
  have a3: "drop (length name - 14) (drop 8 name) = drop (length name - 6) name"
    using l by simp
  from a1 a2 a3 have "name = take 8 name @ ?mid @ drop (length name - 6) name"
    by metis
  moreover from ps have "take 8 name = ''tfplugin''" "drop (length name - 6) name = ''.proto''"
    by (simp_all only: HasPrefix_tfplugin HasSuffix_proto)
  ultimately have "name = ''tfplugin'' @ ?mid @ ''.proto''"
    by (simp only:)
  with pv show "\<exists>mid. name = ''tfplugin'' @ mid @ ''.proto'' \<and> ParseVersion (mid @ ''.0'') = Some v"
    by blast
next
  assume "\<exists>mid. name = ''tfplugin'' @ mid @ ''.proto'' \<and> ParseVersion (mid @ ''.0'') = Some v"
  then obtain mid where n: "name = ''tfplugin'' @ mid @ ''.proto''"
    and pv: "ParseVersion (mid @ ''.0'') = Some v" by blast
  from n have "HasPrefix name ''tfplugin''" "HasSuffix name ''.proto''"
    "take (length name - 14) (drop 8 name) = mid"
    by (simp_all add: HasPrefix_tfplugin HasSuffix_proto)
  with pv show "entry_version name = Some v" by (simp add: entry_version_def)
qed

text \<open>A run of digits followed by \<^verbatim>\<open>.0\<close> is a version with minor and build 0.\<close>

lemma ParseVersion_digits:
  assumes "ds \<noteq> []" and "list_all is_digit ds"
  shows "\<exists>n. parse_uint ds = Some n
           \<and> ParseVersion (ds @ ''.0'') = Some \<lparr>Major = n, Minor = 0, Build = 0\<rparr>"
proof -
  have "CHR ''.'' \<notin> set ds"
    using assms(2) by (auto simp: list_all_iff is_digit_def)
  then have "Split (ds @ ''.0'') CHR ''.'' = [ds, ''0'']"
    using Split_at_sep[of "CHR ''.''" ds "''0''"] by simp
  moreover from assms obtain n where "parse_uint ds = Some n" by (simp add: parse_uint_def)
  moreover have "parse_uint ''0'' = Some 0" by (simp add: parse_uint_def is_digit_def digit_val_def)
  ultimately show ?thesis by (simp add: ParseVersion_def)
qed

subsection \<open>The release behind a new tag\<close>

text \<open>
  A tag that a run has set is the tag of an entry of the catalog, named after its
  version, and it refers to the tag object and the commit that the run built for that
  version, which are in the store with the tree of the commit.
\<close>

lemma createStableTags_new_tag:
  assumes "createStableTags E tfRepo blobs ourRepo = (res, our')"
    and "tags ourRepo n = None" and "tags our' n = Some ref"
  shows "\<exists>(v, h) \<in> set blobs. \<exists>es.
           n = ''v'' @ version_String v
         \<and> ref = HashOf (release_tag E v n (HashOf (Tree es)))
         \<and> Tree es \<in> set (objects our')
         \<and> release_commit E v (HashOf (Tree es)) \<in> set (objects our')
         \<and> release_tag E v n (HashOf (Tree es)) \<in> set (objects our')"
  using assms
proof (induction blobs arbitrary: ourRepo)
  case Nil
  then show ?case by simp
next
  case (Cons b rest)
  obtain v blobHash where b: "b = (v, blobHash)" by (cases b)
  from Cons.prems(1) b
  have run: "createStableTags E tfRepo ((v, blobHash) # rest) ourRepo = (res, our')" by simp
  have later: "\<And>r. createStableTags E tfRepo rest r = (res, our') \<Longrightarrow> tags r n = None \<Longrightarrow> ?case"
  proof -
    fix r assume "createStableTags E tfRepo rest r = (res, our')" and "tags r n = None"
    from Cons.IH[OF this Cons.prems(3)] show ?case by auto
  qed
  from createStableTags_Cons_cases[OF run] show ?case
  proof (elim disjE conjE exE)
    fix h assume "createStableTags E tfRepo rest ourRepo = (res, our')"
    then show ?thesis using Cons.prems(2) by (rule later)
  next
    assume "our' = ourRepo"
    with Cons.prems(2,3) show ?thesis by simp
  next
    fix e assume "our' = ourRepo"
    with Cons.prems(2,3) show ?thesis by simp
  next
    fix tmpDir staged e
    assume "publishRelease E v (''v'' @ version_String v) tmpDir staged ourRepo = (Inl e, our')"
    from publishRelease_extends[OF this] have "tags our' = tags ourRepo" by simp
    with Cons.prems(2,3) show ?thesis by simp
  next
    fix tmpDir staged our1
    assume p: "publishRelease E v (''v'' @ version_String v) tmpDir staged ourRepo = (Inr (), our1)"
      and r: "createStableTags E tfRepo rest our1 = (res, our')"
    from p show ?thesis
    proof (cases rule: publishRelease_cases)
      case (released ws es)
      let ?c = "release_commit E v (HashOf (Tree es))"
      let ?g = "release_tag E v (''v'' @ version_String v) (HashOf (Tree es))"
      show ?thesis
      proof (cases "n = ''v'' @ version_String v")
        case True
        from createStableTags_extends[OF r] obtain ws2 where
          o: "objects our' = objects our1 @ ws2" and t: "tags our1 \<subseteq>\<^sub>m tags our'" by blast
        from released(7) True have "tags our1 n = Some (HashOf ?g)" by simp
        with t have "tags our' n = Some (HashOf ?g)" by (auto simp: map_le_def dom_def)
        with Cons.prems(3) have 1: "ref = HashOf ?g" by simp
        have "Tree es \<in> set ws" using released(4,5) by (metis last_in_set)
        with released(6) o have 2: "Tree es \<in> set (objects our')" by simp
        from released(6) o have 3: "?c \<in> set (objects our')" and 4: "?g \<in> set (objects our')"
          by simp_all
        from True 1 2 3 4 b show ?thesis by auto
      next
        case False
        with released(7) Cons.prems(2) have "tags our1 n = None" by simp
        with r show ?thesis by (rule later)
      qed
    qed simp_all
  qed
qed

section \<open>The claims\<close>

text \<open>
  C9. Version parsing and ordering: the string 5 has no minor component and is not a
  version; 5.2 is the version 5.2.0 and 5.2.1 is the version 5.2.1; in the
  lexicographic order on major, minor and build, 5.2 is below 5.3, which is below 6.0.
\<close>

theorem version_parsing_and_ordering:
  "ParseVersion ''5'' = None
   \<and> ParseVersion ''5.2'' = Some \<lparr>Major = 5, Minor = 2, Build = 0\<rparr>
   \<and> ParseVersion ''5.2.1'' = Some \<lparr>Major = 5, Minor = 2, Build = 1\<rparr>
   \<and> ParseVersion ''5.3'' = Some \<lparr>Major = 5, Minor = 3, Build = 0\<rparr>
   \<and> ParseVersion ''6.0'' = Some \<lparr>Major = 6, Minor = 0, Build = 0\<rparr>
   \<and> LessThan \<lparr>Major = 5, Minor = 2, Build = 0\<rparr> \<lparr>Major = 5, Minor = 3, Build = 0\<rparr>
   \<and> LessThan \<lparr>Major = 5, Minor = 3, Build = 0\<rparr> \<lparr>Major = 6, Minor = 0, Build = 0\<rparr>
   \<and> LessThan \<lparr>Major = 5, Minor = 2, Build = 0\<rparr> \<lparr>Major = 6, Minor = 0, Build = 0\<rparr>"
  by (simp add: ParseVersion_def parse_uint_def is_digit_def digit_val_def LessThan_def)

text \<open>
  C3. Commit message format. The claim gives the message as
  "Auto-generated module for protocol vM.m"; the source writes another text. As
  amended: for every version M.m.b of the catalog that has no tag before the run, a
  run that returns without error has set the tag vM.m.b, and whenever the run has set
  that tag, it refers to a stored tag object of that name on a stored commit whose
  message is exactly "Auto-generated Go module for Terraform plugin protocol vM.m";
  the message of the tag object is this message followed by one line feed, the form in
  which the git library stores the message it is given.
\<close>

theorem commit_message_format:
  assumes "createStableTags E tfRepo blobs ourRepo = (res, our')"
    and "(v, h) \<in> set blobs"
    and "tags ourRepo (''v'' @ version_String v) = None"
  shows "(res = Inr () \<longrightarrow> tags our' (''v'' @ version_String v) \<noteq> None)
       \<and> (\<forall>ref. tags our' (''v'' @ version_String v) = Some ref \<longrightarrow>
            (\<exists>tree a commit tag.
                commit = Commit (HashOf (Tree tree)) a a
                   (''Auto-generated Go module for Terraform plugin protocol v''
                      @ fmt_d (Major v) @ ''.'' @ fmt_d (Minor v))
              \<and> tag = Tag (''v'' @ version_String v) a
                   (''Auto-generated Go module for Terraform plugin protocol v''
                      @ fmt_d (Major v) @ ''.'' @ fmt_d (Minor v) @ [CHR 0x0A])
                   CommitObject (HashOf commit)
              \<and> ref = HashOf tag
              \<and> commit \<in> set (objects our') \<and> tag \<in> set (objects our')))"
proof -
  have tagged: "res = Inr () \<longrightarrow> tags our' (''v'' @ version_String v) \<noteq> None"
  proof
    assume "res = Inr ()"
    with assms(1) have "createStableTags E tfRepo blobs ourRepo = (Inr (), our')" by simp
    from createStableTags_tagged[OF this assms(2)]
    show "tags our' (''v'' @ version_String v) \<noteq> None" by (simp add: dom_def)
  qed
  have form: "\<forall>ref. tags our' (''v'' @ version_String v) = Some ref \<longrightarrow>
            (\<exists>tree a commit tag.
                commit = Commit (HashOf (Tree tree)) a a
                   (''Auto-generated Go module for Terraform plugin protocol v''
                      @ fmt_d (Major v) @ ''.'' @ fmt_d (Minor v))
              \<and> tag = Tag (''v'' @ version_String v) a
                   (''Auto-generated Go module for Terraform plugin protocol v''
                      @ fmt_d (Major v) @ ''.'' @ fmt_d (Minor v) @ [CHR 0x0A])
                   CommitObject (HashOf commit)
              \<and> ref = HashOf tag
              \<and> commit \<in> set (objects our') \<and> tag \<in> set (objects our'))"
  proof (intro allI impI)
    fix ref assume "tags our' (''v'' @ version_String v) = Some ref"
    from createStableTags_new_tag[OF assms(1,3) this] obtain w k es where
      w: "''v'' @ version_String v = ''v'' @ version_String w"
      and r: "ref = HashOf (release_tag E w (''v'' @ version_String v) (HashOf (Tree es)))"
      and c: "release_commit E w (HashOf (Tree es)) \<in> set (objects our')"
      and g: "release_tag E w (''v'' @ version_String v) (HashOf (Tree es)) \<in> set (objects our')"
      by blast
    from w have "version_String w = version_String v" by simp
    then have wv: "w = v" by (rule version_String_inj)
    let ?a = "release_author E v"
    let ?c = "Commit (HashOf (Tree es)) ?a ?a
                   (''Auto-generated Go module for Terraform plugin protocol v''
                      @ fmt_d (Major v) @ ''.'' @ fmt_d (Minor v))"
    let ?g = "Tag (''v'' @ version_String v) ?a
                   (''Auto-generated Go module for Terraform plugin protocol v''
                      @ fmt_d (Major v) @ ''.'' @ fmt_d (Minor v) @ [CHR 0x0A])
                   CommitObject (HashOf ?c)"
    have ec: "release_commit E v (HashOf (Tree es)) = ?c"
      by (simp add: release_commit_def commitMessage_def)
    have eg: "release_tag E v (''v'' @ version_String v) (HashOf (Tree es)) = ?g"
      by (simp add: release_tag_def release_commit_def commitMessage_def)
    from r wv eg have 1: "ref = HashOf ?g" by (simp only:)
    from c wv ec have 2: "?c \<in> set (objects our')" by (simp only:)
    from g wv eg have 3: "?g \<in> set (objects our')" by (simp only:)
    from 1 2 3 show "\<exists>tree a commit tag.
                commit = Commit (HashOf (Tree tree)) a a
                   (''Auto-generated Go module for Terraform plugin protocol v''
                      @ fmt_d (Major v) @ ''.'' @ fmt_d (Minor v))
              \<and> tag = Tag (''v'' @ version_String v) a
                   (''Auto-generated Go module for Terraform plugin protocol v''
                      @ fmt_d (Major v) @ ''.'' @ fmt_d (Minor v) @ [CHR 0x0A])
                   CommitObject (HashOf commit)
              \<and> ref = HashOf tag
              \<and> commit \<in> set (objects our') \<and> tag \<in> set (objects our')"
      by blast
  qed
  from tagged form show ?thesis by (intro conjI)
qed

theorem commit_message_format_witness:
  "createStableTags (demo_env 1000 []) demo_upstream
       [(v5_1, HashOf (Blob ''proto 5.1'')), (v5_0, HashOf (Blob ''proto 5.0''))] demo_released_5_0
     = (Inr (), \<lparr>objects = objects demo_released_5_0 @ demo_release 1000 v5_1 ''proto 5.1'',
                 tags = (tags demo_released_5_0)
                    (''v5.1.0'' \<mapsto> HashOf (demo_tag 1000 v5_1 ''proto 5.1''))\<rparr>)
   \<and> (v5_1, HashOf (Blob ''proto 5.1''))
        \<in> set [(v5_1, HashOf (Blob ''proto 5.1'')), (v5_0, HashOf (Blob ''proto 5.0''))]
   \<and> tags demo_released_5_0 (''v'' @ version_String v5_1) = None
   \<and> ((tags demo_released_5_0)(''v5.1.0'' \<mapsto> HashOf (demo_tag 1000 v5_1 ''proto 5.1'')))
         (''v'' @ version_String v5_1) = Some (HashOf (demo_tag 1000 v5_1 ''proto 5.1''))
   \<and> (\<exists>tree a commit tag.
          commit = Commit (HashOf (Tree tree)) a a
                     ''Auto-generated Go module for Terraform plugin protocol v5.1''
        \<and> tag = Tag ''v5.1.0'' a
                  (''Auto-generated Go module for Terraform plugin protocol v5.1'' @ [CHR 0x0A])
                  CommitObject (HashOf commit)
        \<and> HashOf (demo_tag 1000 v5_1 ''proto 5.1'') = HashOf tag
        \<and> commit \<in> set (objects demo_released_5_0 @ demo_release 1000 v5_1 ''proto 5.1'')
        \<and> tag \<in> set (objects demo_released_5_0 @ demo_release 1000 v5_1 ''proto 5.1''))"
proof -
  let ?R = "\<lparr>objects = objects demo_released_5_0 @ demo_release 1000 v5_1 ''proto 5.1'',
             tags = (tags demo_released_5_0)
                    (''v5.1.0'' \<mapsto> HashOf (demo_tag 1000 v5_1 ''proto 5.1''))\<rparr>"
  let ?c = "[(v5_1, HashOf (Blob ''proto 5.1'')), (v5_0, HashOf (Blob ''proto 5.0''))]"
  have f: "fails (demo_env 1000 []) = (\<lambda>x. False)" by (simp add: demo_env_def)
  have one: "createStableTags (demo_env 1000 []) demo_upstream ?c demo_released_5_0
      = createStableTags (demo_env 1000 []) demo_upstream [(v5_0, HashOf (Blob ''proto 5.0''))] ?R"
    using demo_run_one[of v5_1 demo_upstream "HashOf (Blob ''proto 5.1'')" "''proto 5.1''" "[]"
        demo_released_5_0 1000 "[(v5_0, HashOf (Blob ''proto 5.0''))]"]
    by (simp add: demo_versions demo_blobs demo_released_5_0_def del: createStableTags.simps)
  have two: "createStableTags (demo_env 1000 []) demo_upstream
        [(v5_0, HashOf (Blob ''proto 5.0''))] ?R = (Inr (), ?R)"
    by (simp add: repo_Tag_def f demo_versions demo_released_5_0_def)
  from one two have run: "createStableTags (demo_env 1000 []) demo_upstream ?c demo_released_5_0
      = (Inr (), ?R)" by (simp only:)
  have mem: "(v5_1, HashOf (Blob ''proto 5.1'')) \<in> set ?c" by simp
  have none: "tags demo_released_5_0 (''v'' @ version_String v5_1) = None"
    by (simp add: demo_released_5_0_def demo_versions)
  have some: "tags ?R (''v'' @ version_String v5_1)
         = Some (HashOf (demo_tag 1000 v5_1 ''proto 5.1''))"
    by (simp add: demo_versions)
  have digits: "fmt_d (Major v5_1) = ''5''" "fmt_d (Minor v5_1) = ''1''"
    by (simp_all add: v5_1_def fmt_d.simps digit_char_def)
  have m: "''Auto-generated Go module for Terraform plugin protocol v''
              @ fmt_d (Major v5_1) @ ''.'' @ fmt_d (Minor v5_1)
           = ''Auto-generated Go module for Terraform plugin protocol v5.1''"
    and m': "''Auto-generated Go module for Terraform plugin protocol v''
              @ fmt_d (Major v5_1) @ ''.'' @ fmt_d (Minor v5_1) @ [CHR 0x0A]
           = ''Auto-generated Go module for Terraform plugin protocol v5.1'' @ [CHR 0x0A]"
    by (simp_all add: digits)
  have n: "''v'' @ version_String v5_1 = ''v5.1.0''"
    and o: "objects ?R = objects demo_released_5_0 @ demo_release 1000 v5_1 ''proto 5.1''"
    by (simp_all add: demo_versions)
  note t = commit_message_format[OF run mem none]
  note u = t[THEN conjunct2, rule_format, OF some]
  have ex: "\<exists>tree a commit tag.
          commit = Commit (HashOf (Tree tree)) a a
                     ''Auto-generated Go module for Terraform plugin protocol v5.1''
        \<and> tag = Tag ''v5.1.0'' a
                  (''Auto-generated Go module for Terraform plugin protocol v5.1'' @ [CHR 0x0A])
                  CommitObject (HashOf commit)
        \<and> HashOf (demo_tag 1000 v5_1 ''proto 5.1'') = HashOf tag
        \<and> commit \<in> set (objects demo_released_5_0 @ demo_release 1000 v5_1 ''proto 5.1'')
        \<and> tag \<in> set (objects demo_released_5_0 @ demo_release 1000 v5_1 ''proto 5.1'')"
    by (rule u[unfolded m m' n o])
  have some': "((tags demo_released_5_0)(''v5.1.0'' \<mapsto> HashOf (demo_tag 1000 v5_1 ''proto 5.1'')))
         (''v'' @ version_String v5_1) = Some (HashOf (demo_tag 1000 v5_1 ''proto 5.1''))"
    by (simp add: demo_versions)
  from run mem none some' ex show ?thesis by (intro conjI)
qed

theorem commit_message_counterexample:
  "commit_messages (objects (snd (createStableTags (demo_env 1000 []) demo_upstream
       [(v5_0, HashOf (Blob ''proto 5.0''))] empty_repo)))
     = [''Auto-generated Go module for Terraform plugin protocol v5.0'']
   \<and> tag_messages (objects (snd (createStableTags (demo_env 1000 []) demo_upstream
       [(v5_0, HashOf (Blob ''proto 5.0''))] empty_repo)))
     = [''Auto-generated Go module for Terraform plugin protocol v5.0'' @ [CHR 0x0A]]
   \<and> ''Auto-generated Go module for Terraform plugin protocol v5.0''
       \<noteq> ''Auto-generated module for protocol v5.0''
   \<and> ''Auto-generated Go module for Terraform plugin protocol v5.0'' @ [CHR 0x0A]
       \<noteq> ''Auto-generated module for protocol v5.0''"
  unfolding demo_run_5_0
  by (simp add: commit_messages_def tag_messages_def demo_release_def
        demo_package_def demo_root_def demo_commit_def demo_tag_def v5_0_def
        fmt_d.simps digit_char_def)

text \<open>
  C2. Partial-failure isolation. The claim lets the versions after a failing one be
  released all the same; the source returns at the first error. As amended: when the
  run has processed the entries \<open>xs\<close> without error and the next entry fails, the run
  ends with that error in the state of the failure, whatever entries \<open>ys\<close> remain, so
  that no later version is processed; the versions of \<open>xs\<close> keep their tags.
\<close>

theorem first_error_ends_run:
  assumes "createStableTags E tfRepo xs ourRepo = (Inr (), our1)"
    and "createStableTags E tfRepo [(v, h)] our1 = (Inl e, our2)"
  shows "createStableTags E tfRepo (xs @ (v, h) # ys) ourRepo = (Inl e, our2)
       \<and> (\<forall>(w, k) \<in> set xs. ''v'' @ version_String w \<in> dom (tags our2))"
proof -
  have stop: "createStableTags E tfRepo (xs @ (v, h) # ys) ourRepo = (Inl e, our2)"
    using assms by (rule createStableTags_stops)
  have keep: "tags our1 \<subseteq>\<^sub>m tags our2"
    using createStableTags_extends[OF assms(2)] by simp
  have "\<And>w k. (w, k) \<in> set xs \<Longrightarrow> ''v'' @ version_String w \<in> dom (tags our2)"
  proof -
    fix w k assume "(w, k) \<in> set xs"
    with assms(1) have "''v'' @ version_String w \<in> dom (tags our1)"
      by (rule createStableTags_tagged)
    with keep show "''v'' @ version_String w \<in> dom (tags our2)"
      by (auto simp: map_le_def dom_def)
  qed
  with stop show ?thesis by auto
qed

theorem first_error_ends_run_witness:
  "createStableTags (demo_env 1000 ''work.git/build-5.1.0/tfplugin5'') demo_upstream
      [(v5_2, HashOf (Blob ''proto 5.2''))] empty_repo
     = (Inr (), \<lparr>objects = demo_release 1000 v5_2 ''proto 5.2'',
                 tags = [''v5.2.0'' \<mapsto> HashOf (demo_tag 1000 v5_2 ''proto 5.2'')]\<rparr>)
   \<and> createStableTags (demo_env 1000 ''work.git/build-5.1.0/tfplugin5'') demo_upstream
      [(v5_1, HashOf (Blob ''proto 5.1''))]
      \<lparr>objects = demo_release 1000 v5_2 ''proto 5.2'',
       tags = [''v5.2.0'' \<mapsto> HashOf (demo_tag 1000 v5_2 ''proto 5.2'')]\<rparr>
     = (Inl (FailedCompileProto v5_1),
        \<lparr>objects = demo_release 1000 v5_2 ''proto 5.2'',
         tags = [''v5.2.0'' \<mapsto> HashOf (demo_tag 1000 v5_2 ''proto 5.2'')]\<rparr>)
   \<and> createStableTags (demo_env 1000 ''work.git/build-5.1.0/tfplugin5'') demo_upstream
      ([(v5_2, HashOf (Blob ''proto 5.2''))] @ (v5_1, HashOf (Blob ''proto 5.1''))
         # [(v5_0, HashOf (Blob ''proto 5.0''))]) empty_repo
     = (Inl (FailedCompileProto v5_1),
        \<lparr>objects = demo_release 1000 v5_2 ''proto 5.2'',
         tags = [''v5.2.0'' \<mapsto> HashOf (demo_tag 1000 v5_2 ''proto 5.2'')]\<rparr>)
   \<and> ''v'' @ version_String v5_2
       \<in> dom [''v5.2.0'' \<mapsto> HashOf (demo_tag 1000 v5_2 ''proto 5.2'')]"
proof -
  let ?E = "demo_env 1000 ''work.git/build-5.1.0/tfplugin5''"
  let ?R = "\<lparr>objects = demo_release 1000 v5_2 ''proto 5.2'',
             tags = [''v5.2.0'' \<mapsto> HashOf (demo_tag 1000 v5_2 ''proto 5.2'')]\<rparr>"
  have a: "createStableTags ?E demo_upstream [(v5_2, HashOf (Blob ''proto 5.2''))] empty_repo
             = (Inr (), ?R)"
    using demo_run_one[of v5_2 demo_upstream "HashOf (Blob ''proto 5.2'')" "''proto 5.2''"
        "''work.git/build-5.1.0/tfplugin5''" empty_repo 1000 "[]"]
    by (simp add: empty_repo_def demo_versions demo_blobs)
  have f: "fails ?E = (\<lambda>x. False)" by (simp add: demo_env_def)
  have b: "createStableTags ?E demo_upstream [(v5_1, HashOf (Blob ''proto 5.1''))] ?R
             = (Inl (FailedCompileProto v5_1), ?R)"
    using demo_stage_bad[of v5_1 demo_upstream "HashOf (Blob ''proto 5.1'')" "''proto 5.1''" 1000]
    by (simp add: demo_versions demo_blobs repo_Tag_def f)
  note c = first_error_ends_run[OF a b, of "[(v5_0, HashOf (Blob ''proto 5.0''))]"]
  from c have d: "''v'' @ version_String v5_2
       \<in> dom [''v5.2.0'' \<mapsto> HashOf (demo_tag 1000 v5_2 ''proto 5.2'')]"
    by (simp del: createStableTags.simps)
  from a b c[THEN conjunct1] d show ?thesis by (intro conjI)
qed

theorem partial_failure_counterexample:
  "createStableTags (demo_env 1000 ''work.git/build-5.1.0/tfplugin5'') demo_upstream
      [(v5_1, HashOf (Blob ''proto 5.1'')), (v5_2, HashOf (Blob ''proto 5.2''))] empty_repo
     = (Inl (FailedCompileProto v5_1), empty_repo)
   \<and> stageRelease (demo_env 1000 ''work.git/build-5.1.0/tfplugin5'') demo_upstream
        v5_1 (HashOf (Blob ''proto 5.1'')) = Inl (FailedCompileProto v5_1)
   \<and> stageRelease (demo_env 1000 ''work.git/build-5.1.0/tfplugin5'') demo_upstream
        v5_2 (HashOf (Blob ''proto 5.2'')) = Inr (''work.git/build-5.2.0'', demo_staged ''proto 5.2'')
   \<and> createStableTags (demo_env 1000 ''work.git/build-5.1.0/tfplugin5'') demo_upstream
      [(v5_2, HashOf (Blob ''proto 5.2''))] empty_repo
     = (Inr (), \<lparr>objects = demo_release 1000 v5_2 ''proto 5.2'',
                 tags = [''v5.2.0'' \<mapsto> HashOf (demo_tag 1000 v5_2 ''proto 5.2'')]\<rparr>)
   \<and> tags empty_repo ''v5.2.0'' = None"
proof -
  let ?E = "demo_env 1000 ''work.git/build-5.1.0/tfplugin5''"
  have f: "fails ?E = (\<lambda>x. False)" by (simp add: demo_env_def)
  have s1: "stageRelease ?E demo_upstream v5_1 (HashOf (Blob ''proto 5.1''))
              = Inl (FailedCompileProto v5_1)"
    using demo_stage_bad[of v5_1 demo_upstream "HashOf (Blob ''proto 5.1'')" "''proto 5.1''" 1000]
    by (simp add: demo_versions demo_blobs)
  have s2: "stageRelease ?E demo_upstream v5_2 (HashOf (Blob ''proto 5.2''))
              = Inr (''work.git/build-5.2.0'', demo_staged ''proto 5.2'')"
    using demo_stage[of v5_2 demo_upstream "HashOf (Blob ''proto 5.2'')" "''proto 5.2''"
        "''work.git/build-5.1.0/tfplugin5''" 1000]
    by (simp add: demo_versions demo_blobs)
  have r1: "createStableTags ?E demo_upstream
      [(v5_1, HashOf (Blob ''proto 5.1'')), (v5_2, HashOf (Blob ''proto 5.2''))] empty_repo
     = (Inl (FailedCompileProto v5_1), empty_repo)"
    using s1 by (simp add: demo_versions repo_Tag_def f empty_repo_def)
  have r2: "createStableTags ?E demo_upstream [(v5_2, HashOf (Blob ''proto 5.2''))] empty_repo
     = (Inr (), \<lparr>objects = demo_release 1000 v5_2 ''proto 5.2'',
                 tags = [''v5.2.0'' \<mapsto> HashOf (demo_tag 1000 v5_2 ''proto 5.2'')]\<rparr>)"
    using demo_run_one[of v5_2 demo_upstream "HashOf (Blob ''proto 5.2'')" "''proto 5.2''"
        "''work.git/build-5.1.0/tfplugin5''" empty_repo 1000 "[]"]
    by (simp add: empty_repo_def demo_versions demo_blobs)
  have e: "tags empty_repo ''v5.2.0'' = None" by (simp add: empty_repo_def)
  from r1 s1 s2 r2 e show ?thesis by (intro conjI)
qed

text \<open>
  C10. No rollback on abort. A run that returns an error has processed some entries
  \<open>xs\<close> of the catalog without error and failed at the next one; every object and every
  tag that the repository held after \<open>xs\<close> is still there when the run returns, and
  so is everything it held before the run.
\<close>

theorem no_rollback_on_abort:
  assumes "createStableTags E tfRepo blobs ourRepo = (Inl e, our')"
  shows "\<exists>xs b ys our1.
           blobs = xs @ b # ys
         \<and> createStableTags E tfRepo xs ourRepo = (Inr (), our1)
         \<and> createStableTags E tfRepo [b] our1 = (Inl e, our')
         \<and> (\<exists>ws1 ws2. objects our1 = objects ourRepo @ ws1 \<and> objects our' = objects our1 @ ws2)
         \<and> tags ourRepo \<subseteq>\<^sub>m tags our1 \<and> tags our1 \<subseteq>\<^sub>m tags our'
         \<and> (\<forall>(w, k) \<in> set xs. ''v'' @ version_String w \<in> dom (tags our'))"
proof -
  from createStableTags_error_split[OF assms] obtain xs b ys our1 where
    s: "blobs = xs @ b # ys" "createStableTags E tfRepo xs ourRepo = (Inr (), our1)"
       "createStableTags E tfRepo [b] our1 = (Inl e, our')" by blast
  from createStableTags_extends[OF s(2)] obtain ws1 where
    1: "objects our1 = objects ourRepo @ ws1" "tags ourRepo \<subseteq>\<^sub>m tags our1" by blast
  from createStableTags_extends[OF s(3)] obtain ws2 where
    2: "objects our' = objects our1 @ ws2" "tags our1 \<subseteq>\<^sub>m tags our'" by blast
  have "\<And>w k. (w, k) \<in> set xs \<Longrightarrow> ''v'' @ version_String w \<in> dom (tags our')"
  proof -
    fix w k assume "(w, k) \<in> set xs"
    with s(2) have "''v'' @ version_String w \<in> dom (tags our1)"
      by (rule createStableTags_tagged)
    with 2(2) show "''v'' @ version_String w \<in> dom (tags our')"
      by (auto simp: map_le_def dom_def)
  qed
  then have 3: "\<forall>(w, k) \<in> set xs. ''v'' @ version_String w \<in> dom (tags our')" by auto
  from s 1 2 3 show ?thesis by blast
qed

theorem no_rollback_on_abort_witness:
  "createStableTags (demo_env 1000 ''work.git/build-5.1.0/tfplugin5'') demo_upstream
      [(v5_2, HashOf (Blob ''proto 5.2'')), (v5_1, HashOf (Blob ''proto 5.1'')),
       (v5_0, HashOf (Blob ''proto 5.0''))] empty_repo
     = (Inl (FailedCompileProto v5_1),
        \<lparr>objects = demo_release 1000 v5_2 ''proto 5.2'',
         tags = [''v5.2.0'' \<mapsto> HashOf (demo_tag 1000 v5_2 ''proto 5.2'')]\<rparr>)
   \<and> (\<exists>xs b ys our1.
           [(v5_2, HashOf (Blob ''proto 5.2'')), (v5_1, HashOf (Blob ''proto 5.1'')),
            (v5_0, HashOf (Blob ''proto 5.0''))] = xs @ b # ys
         \<and> createStableTags (demo_env 1000 ''work.git/build-5.1.0/tfplugin5'') demo_upstream
              xs empty_repo = (Inr (), our1)
         \<and> createStableTags (demo_env 1000 ''work.git/build-5.1.0/tfplugin5'') demo_upstream
              [b] our1
            = (Inl (FailedCompileProto v5_1),
               \<lparr>objects = demo_release 1000 v5_2 ''proto 5.2'',
                tags = [''v5.2.0'' \<mapsto> HashOf (demo_tag 1000 v5_2 ''proto 5.2'')]\<rparr>)
         \<and> (\<exists>ws1 ws2. objects our1 = objects empty_repo @ ws1
               \<and> demo_release 1000 v5_2 ''proto 5.2'' = objects our1 @ ws2)
         \<and> tags empty_repo \<subseteq>\<^sub>m tags our1
         \<and> tags our1 \<subseteq>\<^sub>m [''v5.2.0'' \<mapsto> HashOf (demo_tag 1000 v5_2 ''proto 5.2'')]
         \<and> (\<forall>(w, k) \<in> set xs. ''v'' @ version_String w
               \<in> dom [''v5.2.0'' \<mapsto> HashOf (demo_tag 1000 v5_2 ''proto 5.2'')]))"
proof -
  let ?E = "demo_env 1000 ''work.git/build-5.1.0/tfplugin5''"
  let ?R = "\<lparr>objects = demo_release 1000 v5_2 ''proto 5.2'',
             tags = [''v5.2.0'' \<mapsto> HashOf (demo_tag 1000 v5_2 ''proto 5.2'')]\<rparr>"
  have f: "fails ?E = (\<lambda>x. False)" by (simp add: demo_env_def)
  have a: "createStableTags ?E demo_upstream
      [(v5_2, HashOf (Blob ''proto 5.2'')), (v5_1, HashOf (Blob ''proto 5.1'')),
       (v5_0, HashOf (Blob ''proto 5.0''))] empty_repo =
      createStableTags ?E demo_upstream
      [(v5_1, HashOf (Blob ''proto 5.1'')), (v5_0, HashOf (Blob ''proto 5.0''))] ?R"
    using demo_run_one[of v5_2 demo_upstream "HashOf (Blob ''proto 5.2'')" "''proto 5.2''"
        "''work.git/build-5.1.0/tfplugin5''" empty_repo 1000
        "[(v5_1, HashOf (Blob ''proto 5.1'')), (v5_0, HashOf (Blob ''proto 5.0''))]"]
    by (simp add: empty_repo_def demo_versions demo_blobs)
  have b: "createStableTags ?E demo_upstream
      [(v5_1, HashOf (Blob ''proto 5.1'')), (v5_0, HashOf (Blob ''proto 5.0''))] ?R
             = (Inl (FailedCompileProto v5_1), ?R)"
    using demo_stage_bad[of v5_1 demo_upstream "HashOf (Blob ''proto 5.1'')" "''proto 5.1''" 1000]
    by (simp add: demo_versions demo_blobs repo_Tag_def f)
  from a b have run: "createStableTags ?E demo_upstream
      [(v5_2, HashOf (Blob ''proto 5.2'')), (v5_1, HashOf (Blob ''proto 5.1'')),
       (v5_0, HashOf (Blob ''proto 5.0''))] empty_repo = (Inl (FailedCompileProto v5_1), ?R)"
    by simp
  from no_rollback_on_abort[OF run] have
    "\<exists>xs b ys our1.
           [(v5_2, HashOf (Blob ''proto 5.2'')), (v5_1, HashOf (Blob ''proto 5.1'')),
            (v5_0, HashOf (Blob ''proto 5.0''))] = xs @ b # ys
         \<and> createStableTags ?E demo_upstream xs empty_repo = (Inr (), our1)
         \<and> createStableTags ?E demo_upstream [b] our1 = (Inl (FailedCompileProto v5_1), ?R)
         \<and> (\<exists>ws1 ws2. objects our1 = objects empty_repo @ ws1
               \<and> demo_release 1000 v5_2 ''proto 5.2'' = objects our1 @ ws2)
         \<and> tags empty_repo \<subseteq>\<^sub>m tags our1
         \<and> tags our1 \<subseteq>\<^sub>m [''v5.2.0'' \<mapsto> HashOf (demo_tag 1000 v5_2 ''proto 5.2'')]
         \<and> (\<forall>(w, k) \<in> set xs. ''v'' @ version_String w
               \<in> dom [''v5.2.0'' \<mapsto> HashOf (demo_tag 1000 v5_2 ''proto 5.2'')])"
    by (simp del: createStableTags.simps)
  with run show ?thesis by (intro conjI)
qed

text \<open>
  C7. Ledger error discrimination. When the lookup of the tag of a version fails with
  an error other than not-found, the run ends with the error of the tag check, creates
  nothing for the version and processes no later version; when the tag is not found,
  the version goes on to staging and publishing; and the error of the tag check is
  returned for no other reason than a failed lookup.
\<close>

theorem ledger_error_discrimination:
  "(createStableTags E tfRepo xs ourRepo = (Inr (), our1)
      \<and> fails E (RefLookup (''v'' @ version_String v))
    \<longrightarrow> createStableTags E tfRepo (xs @ (v, h) # ys) ourRepo
          = (Inl (CantCheckTag (''v'' @ version_String v)), our1))
   \<and> (\<not> fails E (RefLookup (''v'' @ version_String v))
      \<and> tags ourRepo (''v'' @ version_String v) = None
    \<longrightarrow> createStableTags E tfRepo ((v, h) # ys) ourRepo
          = (case stageRelease E tfRepo v h of
               Inl e \<Rightarrow> (Inl e, ourRepo)
             | Inr (tmpDir, staged) \<Rightarrow>
                 (case publishRelease E v (''v'' @ version_String v) tmpDir staged ourRepo of
                    (Inl e, our2) \<Rightarrow> (Inl e, our2)
                  | (Inr u, our2) \<Rightarrow> createStableTags E tfRepo ys our2)))
   \<and> (createStableTags E tfRepo blobs ourRepo = (Inl (CantCheckTag n), our')
    \<longrightarrow> (\<exists>(w, k) \<in> set blobs. n = ''v'' @ version_String w \<and> fails E (RefLookup n)))"
proof (intro conjI impI)
  assume a: "createStableTags E tfRepo xs ourRepo = (Inr (), our1)
      \<and> fails E (RefLookup (''v'' @ version_String v))"
  then have "createStableTags E tfRepo [(v, h)] our1
      = (Inl (CantCheckTag (''v'' @ version_String v)), our1)"
    by (simp add: repo_Tag_def)
  with a show "createStableTags E tfRepo (xs @ (v, h) # ys) ourRepo
          = (Inl (CantCheckTag (''v'' @ version_String v)), our1)"
    by (simp add: createStableTags_stops del: createStableTags.simps)
next
  assume "\<not> fails E (RefLookup (''v'' @ version_String v))
      \<and> tags ourRepo (''v'' @ version_String v) = None"
  then show "createStableTags E tfRepo ((v, h) # ys) ourRepo
          = (case stageRelease E tfRepo v h of
               Inl e \<Rightarrow> (Inl e, ourRepo)
             | Inr (tmpDir, staged) \<Rightarrow>
                 (case publishRelease E v (''v'' @ version_String v) tmpDir staged ourRepo of
                    (Inl e, our2) \<Rightarrow> (Inl e, our2)
                  | (Inr u, our2) \<Rightarrow> createStableTags E tfRepo ys our2))"
    by (simp add: repo_Tag_def split: sum.splits prod.splits)
next
  assume "createStableTags E tfRepo blobs ourRepo = (Inl (CantCheckTag n), our')"
  then show "\<exists>(w, k) \<in> set blobs. n = ''v'' @ version_String w \<and> fails E (RefLookup n)"
    by (rule CantCheckTag_origin)
qed

theorem ledger_error_discrimination_witness:
  "createStableTags demo_lookup_failure demo_upstream [] empty_repo = (Inr (), empty_repo)
   \<and> fails demo_lookup_failure (RefLookup (''v'' @ version_String v5_0))
   \<and> createStableTags demo_lookup_failure demo_upstream
        ([] @ (v5_0, HashOf (Blob ''proto 5.0'')) # [(v5_1, HashOf (Blob ''proto 5.1''))])
        empty_repo
      = (Inl (CantCheckTag (''v'' @ version_String v5_0)), empty_repo)
   \<and> \<not> fails (demo_env 1000 []) (RefLookup (''v'' @ version_String v5_0))
   \<and> tags empty_repo (''v'' @ version_String v5_0) = None
   \<and> createStableTags (demo_env 1000 []) demo_upstream [(v5_0, HashOf (Blob ''proto 5.0''))]
        empty_repo
      = (Inr (), \<lparr>objects = demo_release 1000 v5_0 ''proto 5.0'',
                  tags = [''v5.0.0'' \<mapsto> HashOf (demo_tag 1000 v5_0 ''proto 5.0'')]\<rparr>)
   \<and> (\<exists>(w, k) \<in> set [(v5_0, HashOf (Blob ''proto 5.0'')), (v5_1, HashOf (Blob ''proto 5.1''))].
         ''v5.0.0'' = ''v'' @ version_String w \<and> fails demo_lookup_failure (RefLookup ''v5.0.0''))"
proof -
  have a: "createStableTags demo_lookup_failure demo_upstream [] empty_repo = (Inr (), empty_repo)"
    by simp
  have b: "fails demo_lookup_failure (RefLookup (''v'' @ version_String v5_0))"
    by (simp add: demo_lookup_failure_def demo_versions)
  note t = ledger_error_discrimination[of demo_lookup_failure demo_upstream "[]" empty_repo
      empty_repo v5_0 "HashOf (Blob ''proto 5.0'')" "[(v5_1, HashOf (Blob ''proto 5.1''))]"
      "[(v5_0, HashOf (Blob ''proto 5.0'')), (v5_1, HashOf (Blob ''proto 5.1''))]"
      "''v5.0.0''" empty_repo]
  from t[THEN conjunct1] a b
  have c: "createStableTags demo_lookup_failure demo_upstream
        ([] @ (v5_0, HashOf (Blob ''proto 5.0'')) # [(v5_1, HashOf (Blob ''proto 5.1''))])
        empty_repo
      = (Inl (CantCheckTag (''v'' @ version_String v5_0)), empty_repo)"
    by (simp del: createStableTags.simps)
  then have c': "createStableTags demo_lookup_failure demo_upstream
        [(v5_0, HashOf (Blob ''proto 5.0'')), (v5_1, HashOf (Blob ''proto 5.1''))] empty_repo
      = (Inl (CantCheckTag ''v5.0.0''), empty_repo)"
    by (simp add: demo_versions del: createStableTags.simps)
  from t[THEN conjunct2, THEN conjunct2] c'
  have d: "\<exists>(w, k) \<in> set [(v5_0, HashOf (Blob ''proto 5.0'')), (v5_1, HashOf (Blob ''proto 5.1''))].
         ''v5.0.0'' = ''v'' @ version_String w \<and> fails demo_lookup_failure (RefLookup ''v5.0.0'')"
    by (simp del: createStableTags.simps)
  have e: "\<not> fails (demo_env 1000 []) (RefLookup (''v'' @ version_String v5_0))"
    by (simp add: demo_env_def)
  have f: "tags empty_repo (''v'' @ version_String v5_0) = None"
    by (simp add: empty_repo_def)
  note g = demo_run_5_0[of 1000]
  from a b c e f g d show ?thesis by (intro conjI)
qed

text \<open>
  C1. Idempotency of synthesis. The claim lets every second run over an unchanged
  catalog create nothing; the source ends a run at the first error, so a first run may
  leave versions without a release, and a second run, which visits the catalog in
  another order, then releases them. As amended: an entry whose tag the target
  repository holds is passed over; hence, when one run over the catalog has returned
  without error, a second run over the same catalog, in whatever order, environment and
  state of the upstream repository, leaves the target repository as it is: it stores
  no object and sets no tag, and it returns without error unless a lookup of a tag
  fails. For the catalog of 5.0 and 5.1 and a repository that holds the tag v5.0.0, a
  run in either order adds the release of 5.1 and nothing else.
\<close>

theorem synthesis_idempotent:
  "(\<not> fails E (RefLookup (''v'' @ version_String v))
      \<and> tags ourRepo (''v'' @ version_String v) = Some ref
    \<longrightarrow> createStableTags E tfRepo ((v, h) # rest) ourRepo
          = createStableTags E tfRepo rest ourRepo)
   \<and> (createStableTags E tfRepo blobs ourRepo = (Inr (), our1)
      \<and> set blobs' = set blobs
      \<and> createStableTags E' tfRepo' blobs' our1 = (res2, our2)
    \<longrightarrow> our2 = our1
        \<and> (res2 = Inr ()
           \<or> (\<exists>(w, k) \<in> set blobs. fails E' (RefLookup (''v'' @ version_String w))
                  \<and> res2 = Inl (CantCheckTag (''v'' @ version_String w)))))
   \<and> createStableTags (demo_env t []) demo_upstream
        [(v5_0, HashOf (Blob ''proto 5.0'')), (v5_1, HashOf (Blob ''proto 5.1''))]
        demo_released_5_0
      = (Inr (), \<lparr>objects = objects demo_released_5_0 @ demo_release t v5_1 ''proto 5.1'',
                  tags = (tags demo_released_5_0)
                     (''v5.1.0'' \<mapsto> HashOf (demo_tag t v5_1 ''proto 5.1''))\<rparr>)
   \<and> createStableTags (demo_env t []) demo_upstream
        [(v5_1, HashOf (Blob ''proto 5.1'')), (v5_0, HashOf (Blob ''proto 5.0''))]
        demo_released_5_0
      = (Inr (), \<lparr>objects = objects demo_released_5_0 @ demo_release t v5_1 ''proto 5.1'',
                  tags = (tags demo_released_5_0)
                     (''v5.1.0'' \<mapsto> HashOf (demo_tag t v5_1 ''proto 5.1''))\<rparr>)
   \<and> commit_messages (demo_release t v5_1 ''proto 5.1'')
      = [''Auto-generated Go module for Terraform plugin protocol v5.1'']"
proof -
  have passed: "\<not> fails E (RefLookup (''v'' @ version_String v))
      \<and> tags ourRepo (''v'' @ version_String v) = Some ref
    \<longrightarrow> createStableTags E tfRepo ((v, h) # rest) ourRepo
          = createStableTags E tfRepo rest ourRepo"
    by (simp add: repo_Tag_def)
  have second: "createStableTags E tfRepo blobs ourRepo = (Inr (), our1)
      \<and> set blobs' = set blobs
      \<and> createStableTags E' tfRepo' blobs' our1 = (res2, our2)
    \<longrightarrow> our2 = our1
        \<and> (res2 = Inr ()
           \<or> (\<exists>(w, k) \<in> set blobs. fails E' (RefLookup (''v'' @ version_String w))
                  \<and> res2 = Inl (CantCheckTag (''v'' @ version_String w))))"
  proof
    assume a: "createStableTags E tfRepo blobs ourRepo = (Inr (), our1)
      \<and> set blobs' = set blobs
      \<and> createStableTags E' tfRepo' blobs' our1 = (res2, our2)"
  have "\<And>w k. (w, k) \<in> set blobs' \<Longrightarrow> ''v'' @ version_String w \<in> dom (tags our1)"
  proof -
    fix w k assume "(w, k) \<in> set blobs'"
    with a have "(w, k) \<in> set blobs" by simp
    with a show "''v'' @ version_String w \<in> dom (tags our1)"
      using createStableTags_tagged by blast
  qed
  then have "\<forall>(w, k) \<in> set blobs'. ''v'' @ version_String w \<in> dom (tags our1)" by auto
  from createStableTags_all_tagged[OF this] a
  have "our2 = our1 \<and>
     (res2 = Inr () \<or> (\<exists>(w, k) \<in> set blobs'. fails E' (RefLookup (''v'' @ version_String w)) \<and>
                          res2 = Inl (CantCheckTag (''v'' @ version_String w))))"
    by blast
  with a show "our2 = our1
        \<and> (res2 = Inr ()
           \<or> (\<exists>(w, k) \<in> set blobs. fails E' (RefLookup (''v'' @ version_String w))
                  \<and> res2 = Inl (CantCheckTag (''v'' @ version_String w))))"
    by simp
  qed
  have f: "fails (demo_env t []) = (\<lambda>x. False)" by (simp add: demo_env_def)
  have skip: "\<And>R rest. tags R ''v5.0.0'' \<noteq> None \<Longrightarrow>
      createStableTags (demo_env t []) demo_upstream ((v5_0, HashOf (Blob ''proto 5.0'')) # rest) R
      = createStableTags (demo_env t []) demo_upstream rest R"
    by (auto simp: repo_Tag_def f demo_versions)
  have tagged: "tags demo_released_5_0 ''v5.0.0'' \<noteq> None"
    by (simp add: demo_released_5_0_def)
  have rel: "\<And>rest. createStableTags (demo_env t []) demo_upstream
        ((v5_1, HashOf (Blob ''proto 5.1'')) # rest) demo_released_5_0
      = createStableTags (demo_env t []) demo_upstream rest
         \<lparr>objects = objects demo_released_5_0 @ demo_release t v5_1 ''proto 5.1'',
          tags = (tags demo_released_5_0)
                     (''v5.1.0'' \<mapsto> HashOf (demo_tag t v5_1 ''proto 5.1''))\<rparr>"
  proof -
    fix rest
    show "createStableTags (demo_env t []) demo_upstream
        ((v5_1, HashOf (Blob ''proto 5.1'')) # rest) demo_released_5_0
      = createStableTags (demo_env t []) demo_upstream rest
         \<lparr>objects = objects demo_released_5_0 @ demo_release t v5_1 ''proto 5.1'',
          tags = (tags demo_released_5_0)
                     (''v5.1.0'' \<mapsto> HashOf (demo_tag t v5_1 ''proto 5.1''))\<rparr>"
      using demo_run_one[of v5_1 demo_upstream "HashOf (Blob ''proto 5.1'')" "''proto 5.1''" "[]"
        demo_released_5_0 t rest]
      by (simp add: demo_versions demo_blobs demo_released_5_0_def del: createStableTags.simps)
  qed
  have order1: "createStableTags (demo_env t []) demo_upstream
        [(v5_0, HashOf (Blob ''proto 5.0'')), (v5_1, HashOf (Blob ''proto 5.1''))]
        demo_released_5_0
      = (Inr (), \<lparr>objects = objects demo_released_5_0 @ demo_release t v5_1 ''proto 5.1'',
                  tags = (tags demo_released_5_0)
                     (''v5.1.0'' \<mapsto> HashOf (demo_tag t v5_1 ''proto 5.1''))\<rparr>)"
    by (simp add: skip rel tagged del: createStableTags.simps(2))
  have order2: "createStableTags (demo_env t []) demo_upstream
        [(v5_1, HashOf (Blob ''proto 5.1'')), (v5_0, HashOf (Blob ''proto 5.0''))]
        demo_released_5_0
      = (Inr (), \<lparr>objects = objects demo_released_5_0 @ demo_release t v5_1 ''proto 5.1'',
                  tags = (tags demo_released_5_0)
                     (''v5.1.0'' \<mapsto> HashOf (demo_tag t v5_1 ''proto 5.1''))\<rparr>)"
    by (simp add: skip rel tagged del: createStableTags.simps(2))
  have one: "commit_messages (demo_release t v5_1 ''proto 5.1'')
      = [''Auto-generated Go module for Terraform plugin protocol v5.1'']"
    by (simp add: commit_messages_def demo_release_def demo_package_def demo_root_def
          demo_commit_def demo_tag_def v5_1_def fmt_d.simps digit_char_def)
  from passed second order1 order2 one show ?thesis by (intro conjI)
qed

theorem synthesis_idempotent_witness:
  "createStableTags (demo_env 1000 []) demo_upstream
        [(v5_0, HashOf (Blob ''proto 5.0'')), (v5_1, HashOf (Blob ''proto 5.1''))]
        demo_released_5_0
      = (Inr (), \<lparr>objects = objects demo_released_5_0 @ demo_release 1000 v5_1 ''proto 5.1'',
                  tags = (tags demo_released_5_0)
                     (''v5.1.0'' \<mapsto> HashOf (demo_tag 1000 v5_1 ''proto 5.1''))\<rparr>)
   \<and> set [(v5_1, HashOf (Blob ''proto 5.1'')), (v5_0, HashOf (Blob ''proto 5.0''))]
      = set [(v5_0, HashOf (Blob ''proto 5.0'')), (v5_1, HashOf (Blob ''proto 5.1''))]
   \<and> snd (createStableTags (demo_env 2000 []) demo_upstream
        [(v5_1, HashOf (Blob ''proto 5.1'')), (v5_0, HashOf (Blob ''proto 5.0''))]
        \<lparr>objects = objects demo_released_5_0 @ demo_release 1000 v5_1 ''proto 5.1'',
         tags = (tags demo_released_5_0)
                     (''v5.1.0'' \<mapsto> HashOf (demo_tag 1000 v5_1 ''proto 5.1''))\<rparr>)
      = \<lparr>objects = objects demo_released_5_0 @ demo_release 1000 v5_1 ''proto 5.1'',
         tags = (tags demo_released_5_0)
                     (''v5.1.0'' \<mapsto> HashOf (demo_tag 1000 v5_1 ''proto 5.1''))\<rparr>"
proof -
  let ?R = "\<lparr>objects = objects demo_released_5_0 @ demo_release 1000 v5_1 ''proto 5.1'',
         tags = (tags demo_released_5_0)
                     (''v5.1.0'' \<mapsto> HashOf (demo_tag 1000 v5_1 ''proto 5.1''))\<rparr>"
  let ?c = "[(v5_0, HashOf (Blob ''proto 5.0'')), (v5_1, HashOf (Blob ''proto 5.1''))]"
  let ?c' = "[(v5_1, HashOf (Blob ''proto 5.1'')), (v5_0, HashOf (Blob ''proto 5.0''))]"
  note t = synthesis_idempotent[of "demo_env 1000 []" v5_0 demo_released_5_0
      "HashOf (demo_tag 1 v5_0 ''proto 5.0'')" demo_upstream "HashOf (Blob ''proto 5.0'')" "[]"
      ?c ?R ?c' "demo_env 2000 []" demo_upstream
      "fst (createStableTags (demo_env 2000 []) demo_upstream ?c' ?R)"
      "snd (createStableTags (demo_env 2000 []) demo_upstream ?c' ?R)" 1000]
  from t[THEN conjunct2, THEN conjunct2, THEN conjunct1]
  have first: "createStableTags (demo_env 1000 []) demo_upstream ?c demo_released_5_0
      = (Inr (), ?R)" .
  have same: "set ?c' = set ?c" by auto
  have prem: "createStableTags (demo_env 1000 []) demo_upstream ?c demo_released_5_0 = (Inr (), ?R)
      \<and> set ?c' = set ?c
      \<and> createStableTags (demo_env 2000 []) demo_upstream ?c' ?R
          = (fst (createStableTags (demo_env 2000 []) demo_upstream ?c' ?R),
             snd (createStableTags (demo_env 2000 []) demo_upstream ?c' ?R))"
    using first same by (simp del: createStableTags.simps)
  from t[THEN conjunct2, THEN conjunct1, THEN mp, OF prem]
  have "snd (createStableTags (demo_env 2000 []) demo_upstream ?c' ?R) = ?R"
    by (rule conjunct1)
  with first same show ?thesis by (intro conjI)
qed

theorem second_run_counterexample:
  "set [(v5_2, HashOf (Blob ''proto 5.2'')), (v5_1, HashOf (Blob ''proto 5.1''))]
     = set [(v5_1, HashOf (Blob ''proto 5.1'')), (v5_2, HashOf (Blob ''proto 5.2''))]
   \<and> createStableTags (demo_env 1000 ''work.git/build-5.1.0/tfplugin5'') demo_upstream
        [(v5_1, HashOf (Blob ''proto 5.1'')), (v5_2, HashOf (Blob ''proto 5.2''))] empty_repo
      = (Inl (FailedCompileProto v5_1), empty_repo)
   \<and> createStableTags (demo_env 1000 ''work.git/build-5.1.0/tfplugin5'') demo_upstream
        [(v5_2, HashOf (Blob ''proto 5.2'')), (v5_1, HashOf (Blob ''proto 5.1''))] empty_repo
      = (Inl (FailedCompileProto v5_1),
         \<lparr>objects = demo_release 1000 v5_2 ''proto 5.2'',
          tags = [''v5.2.0'' \<mapsto> HashOf (demo_tag 1000 v5_2 ''proto 5.2'')]\<rparr>)
   \<and> commit_messages (objects empty_repo) = []
   \<and> tags empty_repo ''v5.2.0'' = None
   \<and> commit_messages (demo_release 1000 v5_2 ''proto 5.2'')
      = [''Auto-generated Go module for Terraform plugin protocol v5.2'']"
proof -
  let ?E = "demo_env 1000 ''work.git/build-5.1.0/tfplugin5''"
  let ?R = "\<lparr>objects = demo_release 1000 v5_2 ''proto 5.2'',
             tags = [''v5.2.0'' \<mapsto> HashOf (demo_tag 1000 v5_2 ''proto 5.2'')]\<rparr>"
  have f: "fails ?E = (\<lambda>x. False)" by (simp add: demo_env_def)
  have same: "set [(v5_2, HashOf (Blob ''proto 5.2'')), (v5_1, HashOf (Blob ''proto 5.1''))]
     = set [(v5_1, HashOf (Blob ''proto 5.1'')), (v5_2, HashOf (Blob ''proto 5.2''))]"
    by auto
  have s1: "stageRelease ?E demo_upstream v5_1 (HashOf (Blob ''proto 5.1''))
              = Inl (FailedCompileProto v5_1)"
    using demo_stage_bad[of v5_1 demo_upstream "HashOf (Blob ''proto 5.1'')" "''proto 5.1''" 1000]
    by (simp add: demo_versions demo_blobs)
  have r1: "createStableTags ?E demo_upstream
      [(v5_1, HashOf (Blob ''proto 5.1'')), (v5_2, HashOf (Blob ''proto 5.2''))] empty_repo
     = (Inl (FailedCompileProto v5_1), empty_repo)"
    using s1 by (simp add: demo_versions repo_Tag_def f empty_repo_def)
  have one: "createStableTags ?E demo_upstream
      [(v5_2, HashOf (Blob ''proto 5.2'')), (v5_1, HashOf (Blob ''proto 5.1''))] empty_repo
     = createStableTags ?E demo_upstream [(v5_1, HashOf (Blob ''proto 5.1''))] ?R"
    using demo_run_one[of v5_2 demo_upstream "HashOf (Blob ''proto 5.2'')" "''proto 5.2''"
        "''work.git/build-5.1.0/tfplugin5''" empty_repo 1000 "[(v5_1, HashOf (Blob ''proto 5.1''))]"]
    by (simp add: empty_repo_def demo_versions demo_blobs del: createStableTags.simps)
  have two: "createStableTags ?E demo_upstream [(v5_1, HashOf (Blob ''proto 5.1''))] ?R
             = (Inl (FailedCompileProto v5_1), ?R)"
    using s1 by (simp add: demo_versions repo_Tag_def f)
  from one two have r2: "createStableTags ?E demo_upstream
      [(v5_2, HashOf (Blob ''proto 5.2'')), (v5_1, HashOf (Blob ''proto 5.1''))] empty_repo
     = (Inl (FailedCompileProto v5_1), ?R)" by (simp only:)
  have e1: "commit_messages (objects empty_repo) = []"
    by (simp add: commit_messages_def empty_repo_def)
  have e2: "tags empty_repo ''v5.2.0'' = None" by (simp add: empty_repo_def)
  have e3: "commit_messages (demo_release 1000 v5_2 ''proto 5.2'')
      = [''Auto-generated Go module for Terraform plugin protocol v5.2'']"
    by (simp add: commit_messages_def demo_release_def demo_package_def demo_root_def
          demo_commit_def demo_tag_def v5_2_def fmt_d.simps digit_char_def)
  from same r1 r2 e1 e2 e3 show ?thesis by (intro conjI)
qed

text \<open>
  C5. Deterministic tree addressing. Whenever two enumerations of the same directory
  content, in whatever order at every level, are both converted without error, in any
  two environments and repositories, the two root hashes are equal; the entries of the
  root tree are in the order of their names, which is the order in which
  \<^verbatim>\<open>ioutil.ReadDir\<close> hands them to the loop.
\<close>

theorem tree_hash_independent_of_enumeration:
  assumes "same_dir raw raw'"
    and "slurpDirIntoGitTree E dir raw repo = (Inr h, repo1)"
    and "slurpDirIntoGitTree E' dir' raw' repo' = (Inr h', repo1')"
  shows "h = h' \<and> (\<exists>tree. h = HashOf (Tree tree) \<and> sorted (map Name tree)
                       \<and> mset (map Name tree) = mset (map fst raw))"
proof -
  have eq: "h = h'" using assms by (rule slurpDir_same_content)
  from slurp_names(1)[rule_format, OF assms(2)] obtain tree where
    t: "h = HashOf (Tree tree)" "map Name tree = map fst (sort_key fst raw)" by blast
  have "sorted (map Name tree)" using t(2) by simp
  moreover have "mset (map Name tree) = mset (map fst raw)" using t(2) by simp
  ultimately show ?thesis using eq t(1) by blast
qed

theorem tree_hash_independent_of_enumeration_witness:
  "same_dir demo_listing demo_listing_shuffled
   \<and> fst (slurpDirIntoGitTree (demo_env 1000 []) ''work.git/build-1'' demo_listing empty_repo)
       = Inr (HashOf demo_listing_tree)
   \<and> fst (slurpDirIntoGitTree (demo_env 2000 []) ''work.git/build-2'' demo_listing_shuffled
            demo_released_5_0)
       = Inr (HashOf demo_listing_tree)
   \<and> (\<exists>tree. HashOf demo_listing_tree = HashOf (Tree tree) \<and> sorted (map Name tree)
                       \<and> mset (map Name tree) = mset (map fst demo_listing))"
proof -
  let ?a = "slurpDirIntoGitTree (demo_env 1000 []) ''work.git/build-1'' demo_listing empty_repo"
  let ?b = "slurpDirIntoGitTree (demo_env 2000 []) ''work.git/build-2'' demo_listing_shuffled
              demo_released_5_0"
  have s: "same_dir demo_listing demo_listing_shuffled" by (rule same_dir_demo_listing)
  have fa: "fst ?a = Inr (HashOf demo_listing_tree)" by (rule demo_listing_slurp(1))
  have fb: "fst ?b = Inr (HashOf demo_listing_tree)" by (rule demo_listing_slurp(2))
  have a: "?a = (Inr (HashOf demo_listing_tree), snd ?a)"
    using fa by (metis prod.collapse)
  have b: "?b = (Inr (HashOf demo_listing_tree), snd ?b)"
    using fb by (metis prod.collapse)
  note t = tree_hash_independent_of_enumeration[OF s a b]
  from s fa fb t[THEN conjunct2] show ?thesis by (intro conjI)
qed

text \<open>
  C4. Run-level determinism of synthesized objects. The claim makes the tree, the
  commit and the tag of a version the same in every run; the source stamps the commit
  and the tag with the current time. As amended: two releases of a version from the
  same generated files have the same tree; their commits are equal exactly when the
  two readings of the clock are equal, and so are their tags.
\<close>

theorem release_objects_up_to_clock:
  assumes "same_dir staged staged'"
    and "publishRelease E v tagName tmpDir staged our = (Inr (), our1)"
    and "publishRelease E' v tagName tmpDir' staged' our' = (Inr (), our1')"
  shows "\<exists>tree a a' m c c' g g'.
           a = \<lparr>sig_Name = ''The Terraform Team'', sig_Email = ''noreply@hashicorp.com'',
                 sig_When = Now E v\<rparr>
         \<and> a' = \<lparr>sig_Name = ''The Terraform Team'', sig_Email = ''noreply@hashicorp.com'',
                  sig_When = Now E' v\<rparr>
         \<and> c = Commit (HashOf (Tree tree)) a a m
         \<and> c' = Commit (HashOf (Tree tree)) a' a' m
         \<and> g = Tag tagName a (m @ [CHR 0x0A]) CommitObject (HashOf c)
         \<and> g' = Tag tagName a' (m @ [CHR 0x0A]) CommitObject (HashOf c')
         \<and> Tree tree \<in> set (objects our1) \<and> Tree tree \<in> set (objects our1')
         \<and> c \<in> set (objects our1) \<and> c' \<in> set (objects our1')
         \<and> tags our1 tagName = Some (HashOf g) \<and> tags our1' tagName = Some (HashOf g')
         \<and> (c = c') = (Now E v = Now E' v)
         \<and> (g = g') = (Now E v = Now E' v)"
  using assms(2)
proof (cases rule: publishRelease_cases)
  case (released ws es)
  from assms(3) show ?thesis
  proof (cases rule: publishRelease_cases)
    case second: (released ws' es')
    let ?s = "slurpDirIntoGitTree E tmpDir staged our"
    let ?s' = "slurpDirIntoGitTree E' tmpDir' staged' our'"
    have "?s = (Inr (HashOf (Tree es)), snd ?s)"
      using released(8) by (metis prod.collapse)
    moreover have "?s' = (Inr (HashOf (Tree es')), snd ?s')"
      using second(8) by (metis prod.collapse)
    ultimately have "HashOf (Tree es) = HashOf (Tree es')"
      using assms(1) by (rule slurpDir_same_content[rotated])
    then have ee: "es' = es" by simp
    let ?a = "\<lparr>sig_Name = ''The Terraform Team'', sig_Email = ''noreply@hashicorp.com'',
                 sig_When = Now E v\<rparr>"
    let ?a' = "\<lparr>sig_Name = ''The Terraform Team'', sig_Email = ''noreply@hashicorp.com'',
                 sig_When = Now E' v\<rparr>"
    let ?c = "Commit (HashOf (Tree es)) ?a ?a (commitMessage v)"
    let ?c' = "Commit (HashOf (Tree es)) ?a' ?a' (commitMessage v)"
    let ?g = "Tag tagName ?a (commitMessage v @ [CHR 0x0A]) CommitObject (HashOf ?c)"
    let ?g' = "Tag tagName ?a' (commitMessage v @ [CHR 0x0A]) CommitObject (HashOf ?c')"
    have rc: "release_commit E v (HashOf (Tree es)) = ?c"
      "release_commit E' v (HashOf (Tree es)) = ?c'"
      "release_tag E v tagName (HashOf (Tree es)) = ?g"
      "release_tag E' v tagName (HashOf (Tree es)) = ?g'"
      by (simp_all add: release_commit_def release_tag_def release_author_def)
    have t1: "Tree es \<in> set (objects our1)"
      using released(4,5,6) by (metis last_in_set Un_iff set_append)
    have t2: "Tree es \<in> set (objects our1')"
      using second(4,5,6) ee by (metis last_in_set Un_iff set_append)
    have c1: "?c \<in> set (objects our1)" using released(6) rc by simp
    have c2: "?c' \<in> set (objects our1')" using second(6) rc ee by simp
    have g1: "tags our1 tagName = Some (HashOf ?g)" using released(7) rc by simp
    have g2: "tags our1' tagName = Some (HashOf ?g')" using second(7) rc ee by simp
    have ce: "(?c = ?c') = (Now E v = Now E' v)" by auto
    have ge: "(?g = ?g') = (Now E v = Now E' v)" by auto
    from t1 t2 c1 c2 g1 g2 ce ge show ?thesis by blast
  qed simp_all
qed simp_all

theorem release_objects_up_to_clock_witness:
  "same_dir (demo_staged ''proto 5.1'') (demo_staged ''proto 5.1'')
   \<and> publishRelease (demo_env 1000 []) v5_1 (''v'' @ version_String v5_1) ''work.git/build-a''
        (demo_staged ''proto 5.1'') empty_repo
      = (Inr (), empty_repo\<lparr>objects := objects empty_repo @ demo_release 1000 v5_1 ''proto 5.1'',
             tags := (tags empty_repo)(''v'' @ version_String v5_1
                        \<mapsto> HashOf (demo_tag 1000 v5_1 ''proto 5.1''))\<rparr>)
   \<and> publishRelease (demo_env 2000 []) v5_1 (''v'' @ version_String v5_1) ''work.git/build-b''
        (demo_staged ''proto 5.1'') demo_released_5_0
      = (Inr (), demo_released_5_0\<lparr>objects := objects demo_released_5_0
                                       @ demo_release 2000 v5_1 ''proto 5.1'',
             tags := (tags demo_released_5_0)(''v'' @ version_String v5_1
                        \<mapsto> HashOf (demo_tag 2000 v5_1 ''proto 5.1''))\<rparr>)
   \<and> (\<exists>tree a a' m c c' g g'.
           a = \<lparr>sig_Name = ''The Terraform Team'', sig_Email = ''noreply@hashicorp.com'',
                 sig_When = Now (demo_env 1000 []) v5_1\<rparr>
         \<and> a' = \<lparr>sig_Name = ''The Terraform Team'', sig_Email = ''noreply@hashicorp.com'',
                  sig_When = Now (demo_env 2000 []) v5_1\<rparr>
         \<and> c = Commit (HashOf (Tree tree)) a a m
         \<and> c' = Commit (HashOf (Tree tree)) a' a' m
         \<and> g = Tag (''v'' @ version_String v5_1) a (m @ [CHR 0x0A]) CommitObject (HashOf c)
         \<and> g' = Tag (''v'' @ version_String v5_1) a' (m @ [CHR 0x0A]) CommitObject (HashOf c')
         \<and> Tree tree \<in> set (objects (empty_repo\<lparr>objects := objects empty_repo
               @ demo_release 1000 v5_1 ''proto 5.1'',
             tags := (tags empty_repo)(''v'' @ version_String v5_1
                        \<mapsto> HashOf (demo_tag 1000 v5_1 ''proto 5.1''))\<rparr>))
         \<and> Tree tree \<in> set (objects (demo_released_5_0\<lparr>objects := objects demo_released_5_0
                                       @ demo_release 2000 v5_1 ''proto 5.1'',
             tags := (tags demo_released_5_0)(''v'' @ version_String v5_1
                        \<mapsto> HashOf (demo_tag 2000 v5_1 ''proto 5.1''))\<rparr>))
         \<and> c \<in> set (objects (empty_repo\<lparr>objects := objects empty_repo
               @ demo_release 1000 v5_1 ''proto 5.1'',
             tags := (tags empty_repo)(''v'' @ version_String v5_1
                        \<mapsto> HashOf (demo_tag 1000 v5_1 ''proto 5.1''))\<rparr>))
         \<and> c' \<in> set (objects (demo_released_5_0\<lparr>objects := objects demo_released_5_0
                                       @ demo_release 2000 v5_1 ''proto 5.1'',
             tags := (tags demo_released_5_0)(''v'' @ version_String v5_1
                        \<mapsto> HashOf (demo_tag 2000 v5_1 ''proto 5.1''))\<rparr>))
         \<and> tags (empty_repo\<lparr>objects := objects empty_repo
               @ demo_release 1000 v5_1 ''proto 5.1'',
             tags := (tags empty_repo)(''v'' @ version_String v5_1
                        \<mapsto> HashOf (demo_tag 1000 v5_1 ''proto 5.1''))\<rparr>)
               (''v'' @ version_String v5_1) = Some (HashOf g)
         \<and> tags (demo_released_5_0\<lparr>objects := objects demo_released_5_0
                                       @ demo_release 2000 v5_1 ''proto 5.1'',
             tags := (tags demo_released_5_0)(''v'' @ version_String v5_1
                        \<mapsto> HashOf (demo_tag 2000 v5_1 ''proto 5.1''))\<rparr>)
               (''v'' @ version_String v5_1) = Some (HashOf g')
         \<and> (c = c') = (Now (demo_env 1000 []) v5_1 = Now (demo_env 2000 []) v5_1)
         \<and> (g = g') = (Now (demo_env 1000 []) v5_1 = Now (demo_env 2000 []) v5_1))"
proof -
  have s: "same_dir (demo_staged ''proto 5.1'') (demo_staged ''proto 5.1'')"
    by (rule same_dir_refl_demo)
  have n1: "tags empty_repo (''v'' @ version_String v5_1) = None"
    by (simp add: empty_repo_def)
  have n2: "tags demo_released_5_0 (''v'' @ version_String v5_1) = None"
    by (simp add: demo_released_5_0_def demo_versions)
  note a = demo_publish[OF n1, of 1000 "[]" "''work.git/build-a''" "''proto 5.1''"]
  note b = demo_publish[OF n2, of 2000 "[]" "''work.git/build-b''" "''proto 5.1''"]
  note t = release_objects_up_to_clock[OF s a b]
  from s a b t show ?thesis by (intro conjI)
qed

theorem run_determinism_counterexample:
  "stageRelease (demo_env 1000 []) demo_upstream v5_0 (HashOf (Blob ''proto 5.0''))
     = stageRelease (demo_env 2000 []) demo_upstream v5_0 (HashOf (Blob ''proto 5.0''))
   \<and> createStableTags (demo_env 1000 []) demo_upstream [(v5_0, HashOf (Blob ''proto 5.0''))]
        empty_repo
      = (Inr (), \<lparr>objects = demo_release 1000 v5_0 ''proto 5.0'',
                  tags = [''v5.0.0'' \<mapsto> HashOf (demo_tag 1000 v5_0 ''proto 5.0'')]\<rparr>)
   \<and> createStableTags (demo_env 2000 []) demo_upstream [(v5_0, HashOf (Blob ''proto 5.0''))]
        empty_repo
      = (Inr (), \<lparr>objects = demo_release 2000 v5_0 ''proto 5.0'',
                  tags = [''v5.0.0'' \<mapsto> HashOf (demo_tag 2000 v5_0 ''proto 5.0'')]\<rparr>)
   \<and> demo_commit 1000 v5_0 ''proto 5.0'' \<in> set (demo_release 1000 v5_0 ''proto 5.0'')
   \<and> demo_commit 2000 v5_0 ''proto 5.0'' \<in> set (demo_release 2000 v5_0 ''proto 5.0'')
   \<and> HashOf (demo_commit 1000 v5_0 ''proto 5.0'') \<noteq> HashOf (demo_commit 2000 v5_0 ''proto 5.0'')
   \<and> HashOf (demo_tag 1000 v5_0 ''proto 5.0'') \<noteq> HashOf (demo_tag 2000 v5_0 ''proto 5.0'')"
proof -
  have st: "\<And>t. stageRelease (demo_env t []) demo_upstream v5_0 (HashOf (Blob ''proto 5.0''))
     = Inr (''work.git/build-'' @ version_String v5_0, demo_staged ''proto 5.0'')"
    using demo_stage[of v5_0 demo_upstream "HashOf (Blob ''proto 5.0'')" "''proto 5.0''" "[]"]
    by (simp add: demo_versions demo_blobs)
  have 1: "stageRelease (demo_env 1000 []) demo_upstream v5_0 (HashOf (Blob ''proto 5.0''))
     = stageRelease (demo_env 2000 []) demo_upstream v5_0 (HashOf (Blob ''proto 5.0''))"
    by (simp only: st)
  note 2 = demo_run_5_0[of 1000]
  note 3 = demo_run_5_0[of 2000]
  have 4: "demo_commit 1000 v5_0 ''proto 5.0'' \<in> set (demo_release 1000 v5_0 ''proto 5.0'')"
    and 5: "demo_commit 2000 v5_0 ''proto 5.0'' \<in> set (demo_release 2000 v5_0 ''proto 5.0'')"
    by (simp_all add: demo_release_def)
  have 6: "HashOf (demo_commit 1000 v5_0 ''proto 5.0'') \<noteq> HashOf (demo_commit 2000 v5_0 ''proto 5.0'')"
    by (simp add: demo_commit_def)
  have 7: "HashOf (demo_tag 1000 v5_0 ''proto 5.0'') \<noteq> HashOf (demo_tag 2000 v5_0 ''proto 5.0'')"
    by (simp add: demo_tag_def)
  from 1 2 3 4 5 6 7 show ?thesis by (intro conjI)
qed

text \<open>
  C6. Write ordering safety. In every run, whether it ends with an error or not, each
  object is written after the objects it refers to, the commit after its tree and the
  tag object after its commit, and a tag reference is set only to a tag object that is
  stored together with its commit and the tree of the commit. So no failure leaves a
  tag that refers to a commit the store lacks: a repository whose tags all resolve
  before the run has only tags that resolve after it.
\<close>

theorem write_order_safety:
  assumes "createStableTags E tfRepo blobs ourRepo = (res, our')"
  shows "(\<exists>new. objects our' = objects ourRepo @ new
            \<and> writes_ordered (objects ourRepo) new
            \<and> (\<forall>name h. tags our' name = Some h \<longrightarrow>
                   tags ourRepo name = Some h \<or> tag_resolves our' h))
       \<and> (tags_sound ourRepo \<longrightarrow> tags_sound our')"
proof -
  from createStableTags_safe[OF assms] obtain new where
    n: "objects our' = objects ourRepo @ new" "writes_ordered (objects ourRepo) new"
    and t: "\<forall>name h. tags our' name = Some h \<longrightarrow> tags ourRepo name = Some h \<or> tag_resolves our' h"
    unfolding run_safe_def by blast
  have sub: "set (objects ourRepo) \<subseteq> set (objects our')" using n(1) by auto
  have "tags_sound ourRepo \<longrightarrow> tags_sound our'"
  proof
    assume s: "tags_sound ourRepo"
    show "tags_sound our'"
      unfolding tags_sound_def
    proof (intro allI impI)
      fix name h assume "tags our' name = Some h"
      with t have "tags ourRepo name = Some h \<or> tag_resolves our' h" by blast
      then show "tag_resolves our' h"
      proof
        assume "tags ourRepo name = Some h"
        with s have "tag_resolves ourRepo h" unfolding tags_sound_def by blast
        then show ?thesis using sub by (rule tag_resolves_mono)
      qed simp
    qed
  qed
  with n t show ?thesis by blast
qed

theorem write_order_safety_witness:
  "createStableTags (demo_env 1000 []) demo_upstream [(v5_0, HashOf (Blob ''proto 5.0''))] empty_repo
     = (Inr (), \<lparr>objects = demo_release 1000 v5_0 ''proto 5.0'',
                 tags = [''v5.0.0'' \<mapsto> HashOf (demo_tag 1000 v5_0 ''proto 5.0'')]\<rparr>)
   \<and> tags_sound empty_repo
   \<and> (\<exists>new. objects \<lparr>objects = demo_release 1000 v5_0 ''proto 5.0'',
                 tags = [''v5.0.0'' \<mapsto> HashOf (demo_tag 1000 v5_0 ''proto 5.0'')]\<rparr>
               = objects empty_repo @ new
            \<and> writes_ordered (objects empty_repo) new
            \<and> (\<forall>name h. tags \<lparr>objects = demo_release 1000 v5_0 ''proto 5.0'',
                 tags = [''v5.0.0'' \<mapsto> HashOf (demo_tag 1000 v5_0 ''proto 5.0'')]\<rparr> name = Some h \<longrightarrow>
                   tags empty_repo name = Some h
                   \<or> tag_resolves \<lparr>objects = demo_release 1000 v5_0 ''proto 5.0'',
                 tags = [''v5.0.0'' \<mapsto> HashOf (demo_tag 1000 v5_0 ''proto 5.0'')]\<rparr> h))
   \<and> tags_sound \<lparr>objects = demo_release 1000 v5_0 ''proto 5.0'',
                 tags = [''v5.0.0'' \<mapsto> HashOf (demo_tag 1000 v5_0 ''proto 5.0'')]\<rparr>"
proof -
  note run = demo_run_5_0[of 1000]
  have s: "tags_sound empty_repo" by (simp add: tags_sound_def empty_repo_def)
  note t = write_order_safety[OF run]
  from t[THEN conjunct2, THEN mp, OF s]
  have s': "tags_sound \<lparr>objects = demo_release 1000 v5_0 ''proto 5.0'',
                 tags = [''v5.0.0'' \<mapsto> HashOf (demo_tag 1000 v5_0 ''proto 5.0'')]\<rparr>" .
  from run s t[THEN conjunct1] s' show ?thesis by (intro conjI)
qed

text \<open>
  C8. Discovery pattern and skipping. The claim admits only the names
  \<^verbatim>\<open>tfplugin<digits>.proto\<close>; the source admits every name with the prefix
  \<^verbatim>\<open>tfplugin\<close> and the suffix \<^verbatim>\<open>.proto\<close> whose middle part, with \<^verbatim>\<open>.0\<close> appended,
  is a version, so that \<^verbatim>\<open>tfplugin5.1.proto\<close> yields the version 5.1.0. As amended:
  when the directory \<^verbatim>\<open>docs/plugin-protocol\<close> of the commit is found, discovery
  returns a map whose versions are exactly those of the entries of that directory with
  such a name, each mapped to the hash of such an entry; every other entry is passed
  over without error; an entry \<^verbatim>\<open>tfplugin<digits>.proto\<close> yields the version
  \<^verbatim>\<open><digits>.0.0\<close>.
\<close>

theorem discovery_by_prefix_and_suffix:
  assumes "repo_CommitObject repo commitHash = Some commit"
    and "GetTree repo (TreeHash commit) = Some rootTree"
    and "tree_Tree repo rootTree ''docs/plugin-protocol'' = Some protoTree"
  shows "\<exists>ret. readProtoVersionBlobRefs repo commitHash = Inr ret
     \<and> (\<forall>v. (v \<in> dom ret) =
            (\<exists>e \<in> set protoTree. \<exists>mid. Name e = ''tfplugin'' @ mid @ ''.proto''
                \<and> ParseVersion (mid @ ''.0'') = Some v))
     \<and> (\<forall>v h. ret v = Some h \<longrightarrow>
            (\<exists>e \<in> set protoTree. Hash e = h
                \<and> (\<exists>mid. Name e = ''tfplugin'' @ mid @ ''.proto''
                      \<and> ParseVersion (mid @ ''.0'') = Some v)))
     \<and> (\<forall>e \<in> set protoTree. \<forall>ds.
            ds \<noteq> [] \<and> list_all is_digit ds \<and> Name e = ''tfplugin'' @ ds @ ''.proto''
            \<longrightarrow> (\<exists>n. parse_uint ds = Some n
                    \<and> \<lparr>Major = n, Minor = 0, Build = 0\<rparr> \<in> dom ret))"
proof -
  from scanProtoEntries_total[of protoTree Map.empty] obtain ret where
    r: "scanProtoEntries protoTree Map.empty = Inr ret"
    and d: "\<forall>v. (v \<in> dom ret) = (\<exists>e \<in> set protoTree. entry_version (Name e) = Some v)"
    and h: "\<forall>v h. ret v = Some h \<longrightarrow>
              (\<exists>e \<in> set protoTree. Hash e = h \<and> entry_version (Name e) = Some v)"
    by auto
  have 1: "readProtoVersionBlobRefs repo commitHash = Inr ret"
    using assms r by (simp add: readProtoVersionBlobRefs_def)
  have 2: "\<forall>v. (v \<in> dom ret) =
            (\<exists>e \<in> set protoTree. \<exists>mid. Name e = ''tfplugin'' @ mid @ ''.proto''
                \<and> ParseVersion (mid @ ''.0'') = Some v)"
    by (rule d[unfolded entry_version_iff])
  have 3: "\<forall>v h. ret v = Some h \<longrightarrow>
            (\<exists>e \<in> set protoTree. Hash e = h
                \<and> (\<exists>mid. Name e = ''tfplugin'' @ mid @ ''.proto''
                      \<and> ParseVersion (mid @ ''.0'') = Some v))"
    by (rule h[unfolded entry_version_iff])
  have 4: "\<forall>e \<in> set protoTree. \<forall>ds.
            ds \<noteq> [] \<and> list_all is_digit ds \<and> Name e = ''tfplugin'' @ ds @ ''.proto''
            \<longrightarrow> (\<exists>n. parse_uint ds = Some n
                    \<and> \<lparr>Major = n, Minor = 0, Build = 0\<rparr> \<in> dom ret)"
  proof (intro ballI allI impI)
    fix e ds
    assume e: "e \<in> set protoTree"
      and a: "ds \<noteq> [] \<and> list_all is_digit ds \<and> Name e = ''tfplugin'' @ ds @ ''.proto''"
    from a ParseVersion_digits[of ds] obtain n where
      n: "parse_uint ds = Some n"
         "ParseVersion (ds @ ''.0'') = Some \<lparr>Major = n, Minor = 0, Build = 0\<rparr>" by blast
    with a e have "\<exists>e \<in> set protoTree. \<exists>mid. Name e = ''tfplugin'' @ mid @ ''.proto''
                \<and> ParseVersion (mid @ ''.0'') = Some \<lparr>Major = n, Minor = 0, Build = 0\<rparr>"
      by blast
    with 2 have "\<lparr>Major = n, Minor = 0, Build = 0\<rparr> \<in> dom ret" by blast
    with n(1) show "\<exists>n. parse_uint ds = Some n \<and> \<lparr>Major = n, Minor = 0, Build = 0\<rparr> \<in> dom ret"
      by blast
  qed
  from 1 2 3 4 show ?thesis by blast
qed

theorem discovery_by_prefix_and_suffix_witness:
  "repo_CommitObject (source_repo demo_protocol_dir) (HashOf (source_commit demo_protocol_dir))
     = Some (source_commit demo_protocol_dir)
   \<and> GetTree (source_repo demo_protocol_dir) (TreeHash (source_commit demo_protocol_dir))
     = Some [TreeEntry ''docs'' Dir
              (HashOf (Tree [TreeEntry ''plugin-protocol'' Dir (HashOf (Tree demo_protocol_dir))]))]
   \<and> tree_Tree (source_repo demo_protocol_dir)
        [TreeEntry ''docs'' Dir
          (HashOf (Tree [TreeEntry ''plugin-protocol'' Dir (HashOf (Tree demo_protocol_dir))]))]
        ''docs/plugin-protocol''
     = Some demo_protocol_dir
   \<and> readProtoVersionBlobRefs (source_repo demo_protocol_dir)
        (HashOf (source_commit demo_protocol_dir))
     = Inr [\<lparr>Major = 5, Minor = 0, Build = 0\<rparr> \<mapsto> HashOf (Blob ''proto 5'')]
   \<and> (\<exists>ret. readProtoVersionBlobRefs (source_repo demo_protocol_dir)
              (HashOf (source_commit demo_protocol_dir)) = Inr ret
     \<and> (\<forall>v. (v \<in> dom ret) =
            (\<exists>e \<in> set demo_protocol_dir. \<exists>mid. Name e = ''tfplugin'' @ mid @ ''.proto''
                \<and> ParseVersion (mid @ ''.0'') = Some v))
     \<and> (\<forall>v h. ret v = Some h \<longrightarrow>
            (\<exists>e \<in> set demo_protocol_dir. Hash e = h
                \<and> (\<exists>mid. Name e = ''tfplugin'' @ mid @ ''.proto''
                      \<and> ParseVersion (mid @ ''.0'') = Some v)))
     \<and> (\<forall>e \<in> set demo_protocol_dir. \<forall>ds.
            ds \<noteq> [] \<and> list_all is_digit ds \<and> Name e = ''tfplugin'' @ ds @ ''.proto''
            \<longrightarrow> (\<exists>n. parse_uint ds = Some n
                    \<and> \<lparr>Major = n, Minor = 0, Build = 0\<rparr> \<in> dom ret)))"
proof -
  have a: "repo_CommitObject (source_repo demo_protocol_dir)
      (HashOf (source_commit demo_protocol_dir)) = Some (source_commit demo_protocol_dir)"
    by (simp add: repo_CommitObject_def EncodedObject_def source_repo_def source_commit_def)
  have b: "GetTree (source_repo demo_protocol_dir) (TreeHash (source_commit demo_protocol_dir))
     = Some [TreeEntry ''docs'' Dir
              (HashOf (Tree [TreeEntry ''plugin-protocol'' Dir (HashOf (Tree demo_protocol_dir))]))]"
    by (simp add: GetTree_def EncodedObject_def source_repo_def source_commit_def)
  have c: "tree_Tree (source_repo demo_protocol_dir)
        [TreeEntry ''docs'' Dir
          (HashOf (Tree [TreeEntry ''plugin-protocol'' Dir (HashOf (Tree demo_protocol_dir))]))]
        ''docs/plugin-protocol''
     = Some demo_protocol_dir"
    by (simp add: tree_Tree_def GetTree_def EncodedObject_def source_repo_def)
  have s: "scanProtoEntries demo_protocol_dir Map.empty
     = Inr [\<lparr>Major = 5, Minor = 0, Build = 0\<rparr> \<mapsto> HashOf (Blob ''proto 5'')]"
    by (simp add: demo_protocol_dir_def HasPrefix_def HasSuffix_def slice_def Let_def
          ParseVersion_def parse_uint_def is_digit_def digit_val_def)
  have d: "readProtoVersionBlobRefs (source_repo demo_protocol_dir)
        (HashOf (source_commit demo_protocol_dir))
     = Inr [\<lparr>Major = 5, Minor = 0, Build = 0\<rparr> \<mapsto> HashOf (Blob ''proto 5'')]"
    using a b c s by (simp add: readProtoVersionBlobRefs_def)
  note t = discovery_by_prefix_and_suffix[OF a b c]
  from a b c d t show ?thesis by (intro conjI)
qed

theorem discovery_pattern_counterexample:
  "\<not> matches_tfplugin_digits ''tfplugin5.1.proto''
   \<and> readProtoVersionBlobRefs
        (source_repo [TreeEntry ''tfplugin5.1.proto'' Regular (HashOf (Blob ''proto 5.1''))])
        (HashOf (source_commit [TreeEntry ''tfplugin5.1.proto'' Regular (HashOf (Blob ''proto 5.1''))]))
     = Inr [\<lparr>Major = 5, Minor = 1, Build = 0\<rparr> \<mapsto> HashOf (Blob ''proto 5.1'')]"
proof -
  let ?es = "[TreeEntry ''tfplugin5.1.proto'' Regular (HashOf (Blob ''proto 5.1''))]"
  have m: "\<not> matches_tfplugin_digits ''tfplugin5.1.proto''"
    by (simp add: matches_tfplugin_digits_def HasPrefix_def HasSuffix_def is_digit_def)
  have a: "repo_CommitObject (source_repo ?es) (HashOf (source_commit ?es)) = Some (source_commit ?es)"
    by (simp add: repo_CommitObject_def EncodedObject_def source_repo_def source_commit_def)
  have b: "GetTree (source_repo ?es) (TreeHash (source_commit ?es))
     = Some [TreeEntry ''docs'' Dir
              (HashOf (Tree [TreeEntry ''plugin-protocol'' Dir (HashOf (Tree ?es))]))]"
    by (simp add: GetTree_def EncodedObject_def source_repo_def source_commit_def)
  have c: "tree_Tree (source_repo ?es)
        [TreeEntry ''docs'' Dir
          (HashOf (Tree [TreeEntry ''plugin-protocol'' Dir (HashOf (Tree ?es))]))]
        ''docs/plugin-protocol'' = Some ?es"
    by (simp add: tree_Tree_def GetTree_def EncodedObject_def source_repo_def)
  have s: "scanProtoEntries ?es Map.empty
     = Inr [\<lparr>Major = 5, Minor = 1, Build = 0\<rparr> \<mapsto> HashOf (Blob ''proto 5.1'')]"
    by (simp add: HasPrefix_def HasSuffix_def slice_def Let_def
          ParseVersion_def parse_uint_def is_digit_def digit_val_def)
  have d: "readProtoVersionBlobRefs (source_repo ?es) (HashOf (source_commit ?es))
     = Inr [\<lparr>Major = 5, Minor = 1, Build = 0\<rparr> \<mapsto> HashOf (Blob ''proto 5.1'')]"
    using a b c s by (simp add: readProtoVersionBlobRefs_def)
  from m d show ?thesis by (intro conjI)
qed


end
